theory Spec2Isabelle
  imports Complex_Main "HOL-Library.Word"
begin

section \<open>Numbers and the vector operations used by the globe\<close>

text \<open>
  The program is one JavaScript module, \<^verbatim>\<open>index.js\<close>. A JavaScript number is modelled
  as a \<^typ>\<open>real\<close>: every formula is read in exact arithmetic. Where a claim turns on
  the rounding of IEEE doubles, on infinities or on NaN, the formulas it is about are
  read once more in binary64 arithmetic, in a section of its own below. Loop counters
  that only ever hold whole numbers (\<^verbatim>\<open>lat\<close>, \<^verbatim>\<open>lon\<close> in the image pass) are
  \<^typ>\<open>int\<close>.

  The functions of the graphics library that the module calls are written out below
  from the library's documented behaviour:
  \<^item> \<^verbatim>\<open>MathUtils.degToRad(d) = d * (Math.PI / 180)\<close>,
  \<^item> \<^verbatim>\<open>MathUtils.clamp(v, lo, hi) = Math.max(lo, Math.min(hi, v))\<close>,
  \<^item> \<^verbatim>\<open>MathUtils.lerp(x, y, t) = (1 - t) * x + t * y\<close>,
  \<^item> \<^verbatim>\<open>Vector3\<close> with \<^verbatim>\<open>sub\<close>, \<^verbatim>\<open>dot\<close>, \<^verbatim>\<open>crossVectors\<close>, \<^verbatim>\<open>lengthSq\<close>, \<^verbatim>\<open>length\<close>,
    and \<^verbatim>\<open>normalize() = divideScalar(length() || 1)\<close>, which leaves the zero vector
    as it is.
\<close>

datatype Vector3 = Vector3 (vx: real) (vy: real) (vz: real)

definition degToRad :: "real \<Rightarrow> real" where
  "degToRad degrees = degrees * (pi / 180)"

definition clamp :: "real \<Rightarrow> real \<Rightarrow> real \<Rightarrow> real" where
  "clamp v lo hi = max lo (min hi v)"

definition lerp :: "real \<Rightarrow> real \<Rightarrow> real \<Rightarrow> real" where
  "lerp a b t = (1 - t) * a + t * b"

definition sub :: "Vector3 \<Rightarrow> Vector3 \<Rightarrow> Vector3" where
  "sub a b = Vector3 (vx a - vx b) (vy a - vy b) (vz a - vz b)"

definition dot :: "Vector3 \<Rightarrow> Vector3 \<Rightarrow> real" where
  "dot a b = vx a * vx b + vy a * vy b + vz a * vz b"

definition crossVectors :: "Vector3 \<Rightarrow> Vector3 \<Rightarrow> Vector3" where
  "crossVectors a b =
     Vector3 (vy a * vz b - vz a * vy b)
             (vz a * vx b - vx a * vz b)
             (vx a * vy b - vy a * vx b)"

definition lengthSq :: "Vector3 \<Rightarrow> real" where
  "lengthSq v = vx v * vx v + vy v * vy v + vz v * vz v"

definition vlength :: "Vector3 \<Rightarrow> real" where
  "vlength v = sqrt (lengthSq v)"

definition multiplyScalar :: "Vector3 \<Rightarrow> real \<Rightarrow> Vector3" where
  "multiplyScalar v s = Vector3 (vx v * s) (vy v * s) (vz v * s)"

definition divideScalar :: "Vector3 \<Rightarrow> real \<Rightarrow> Vector3" where
  "divideScalar v s = multiplyScalar v (1 / s)"

text \<open>JavaScript's \<^verbatim>\<open>a || b\<close> on numbers: \<^verbatim>\<open>0\<close> is falsy, every other real is truthy.\<close>

definition orNum :: "real \<Rightarrow> real \<Rightarrow> real" where
  "orNum a b = (if a = 0 then b else a)"

definition normalizeVec :: "Vector3 \<Rightarrow> Vector3" where
  "normalizeVec v = divideScalar v (orNum (vlength v) 1)"


section \<open>Latitude/longitude projection\<close>

definition SPHERE_RADIUS :: real where
  "SPHERE_RADIUS = 20"

text \<open>\<^verbatim>\<open>latLonToVector3(latDeg, lonDeg, radius = SPHERE_RADIUS, altitude = 0)\<close>, lines 7-18.\<close>

definition latLonToVector3 :: "real \<Rightarrow> real \<Rightarrow> real \<Rightarrow> real \<Rightarrow> Vector3" where
  "latLonToVector3 latDeg lonDeg radius altitude =
     (let lat = degToRad latDeg;
          lon = degToRad lonDeg;
          phi = (pi / 2) - lat;
          theta = lon + pi;
          r = radius + altitude;
          x = - r * sin phi * cos theta;
          z = r * sin phi * sin theta;
          y = r * cos phi
      in Vector3 x y z)"

text \<open>\<^verbatim>\<open>posFromLatLon(lon, lat)\<close> of \<^verbatim>\<open>buildDotsFromMap\<close>, lines 249-256.\<close>

definition dotSphereRadius :: real where
  "dotSphereRadius = 20"

definition posFromLatLon :: "real \<Rightarrow> real \<Rightarrow> Vector3" where
  "posFromLatLon lon lat =
     (let phi = (90 - lat) * (pi / 180);
          theta = (lon + 180) * (pi / 180);
          x = - (dotSphereRadius * sin phi * cos theta);
          z = dotSphereRadius * sin phi * sin theta;
          y = dotSphereRadius * cos phi
      in Vector3 x y z)"



section \<open>The image pass: which dots of the mask are land\<close>

text \<open>
  \<^verbatim>\<open>imageData\<close> is the byte array of a canvas (\<^verbatim>\<open>Uint8ClampedArray\<close>), four bytes per
  pixel. A read past its end gives \<^verbatim>\<open>undefined\<close>, and \<^verbatim>\<open>undefined < 80\<close> is false.
  \<^verbatim>\<open>activeLatLon\<close> is an object keyed by latitude whose values are arrays of longitudes.
\<close>

type_synonym ImageData = "8 word list"

type_synonym ActiveLatLon = "int \<Rightarrow> int list option"

definition byteAt :: "ImageData \<Rightarrow> nat \<Rightarrow> 8 word option" where
  "byteAt imageData j = (if j < length imageData then Some (imageData ! j) else None)"

definition below80 :: "8 word option \<Rightarrow> bool" where
  "below80 v = (case v of None \<Rightarrow> False | Some w \<Rightarrow> w < 80)"

text \<open>Line 235-236: \<^verbatim>\<open>r < 80 && g < 80 && b < 80\<close> for the pixel at byte offset \<open>i\<close>.\<close>

definition darkPixel :: "ImageData \<Rightarrow> nat \<Rightarrow> bool" where
  "darkPixel imageData i =
     (let r = byteAt imageData i; g = byteAt imageData (i + 1); b = byteAt imageData (i + 2)
      in below80 r \<and> below80 g \<and> below80 b)"

text \<open>Line 237: \<^verbatim>\<open>if (lon === 180) { lon = -180; lat--; }\<close>.\<close>

definition nextLonLat :: "int \<Rightarrow> int \<Rightarrow> int \<times> int" where
  "nextLonLat lon lat = (if lon = 180 then (- 180, lat - 1) else (lon, lat))"

definition rowOf :: "ActiveLatLon \<Rightarrow> int \<Rightarrow> int list" where
  "rowOf activeLatLon lat = (case activeLatLon lat of None \<Rightarrow> [] | Some row \<Rightarrow> row)"

text \<open>
  The \<^verbatim>\<open>for\<close> loop of \<^verbatim>\<open>readImageData\<close>, lines 233-239. One call is one test of the loop
  condition; the update \<^verbatim>\<open>i += 4, lon++\<close> is made on the way into the next one.
\<close>

function readLoop :: "ImageData \<Rightarrow> nat \<Rightarrow> int \<Rightarrow> int \<Rightarrow> ActiveLatLon \<Rightarrow> ActiveLatLon" where
  "readLoop imageData i lon lat activeLatLon =
     (if i < length imageData then
        (let row = rowOf activeLatLon lat;
             a1 = activeLatLon(lat \<mapsto> row);
             a2 = (if darkPixel imageData i then a1(lat \<mapsto> row @ [lon]) else a1);
             lon' = fst (nextLonLat lon lat);
             lat' = snd (nextLonLat lon lat)
         in if lat' < - 90 then a2
            else readLoop imageData (i + 4) (lon' + 1) lat' a2)
      else activeLatLon)"
  by pat_completeness auto
termination
  by (relation "measure (\<lambda>(imageData, i, lon, lat, a). length imageData - i)") auto

declare readLoop.simps [simp del]

definition readImageData :: "ImageData \<Rightarrow> ActiveLatLon" where
  "readImageData imageData = readLoop imageData 0 (- 180) 90 Map.empty"

text \<open>
  The longitude and latitude the loop holds when it reaches its \<open>k\<close>-th pixel, counted
  from the values \<open>lon\<close>, \<open>lat\<close> of the current pixel; \<open>None\<close> once the loop has left
  through \<^verbatim>\<open>if (lat < -90) break\<close>.
\<close>

fun scanFrom :: "int \<Rightarrow> int \<Rightarrow> nat \<Rightarrow> (int \<times> int) option" where
  "scanFrom lon lat 0 = Some (lon, lat)"
| "scanFrom lon lat (Suc k) =
     (let lon' = fst (nextLonLat lon lat); lat' = snd (nextLonLat lon lat)
      in if lat' < - 90 then None else scanFrom (lon' + 1) lat' k)"

definition scanPos :: "nat \<Rightarrow> (int \<times> int) option" where
  "scanPos k = scanFrom (- 180) 90 k"

text \<open>
  The same positions in closed form (lemma \<open>scanPos_pixelOfLoop\<close> below): the longitudes
  and latitudes the loop reaches, and the number of the pixel it reads there. The first
  row has 361 pixels, every later row 360.
\<close>

definition reached :: "int \<Rightarrow> int \<Rightarrow> bool" where
  "reached lon lat =
     (if lat = 90 then - 180 \<le> lon \<and> lon \<le> 180
      else - 179 \<le> lon \<and> lon \<le> 180 \<and> - 90 \<le> lat \<and> lat \<le> 89)"

definition pixelOfLoop :: "int \<Rightarrow> int \<Rightarrow> nat" where
  "pixelOfLoop lon lat =
     (if lat = 90 then nat (lon + 180) else nat (361 + (89 - lat) * 360 + (lon + 179)))"

text \<open>
  The mask pixel that corresponds to a longitude and latitude in the words of the
  description: every image row is the full range of longitudes from -180 to 180, so a
  row has 361 pixels, and the rows are the latitudes from 90 downwards.
\<close>

definition pixelOfSpec :: "int \<Rightarrow> int \<Rightarrow> nat" where
  "pixelOfSpec lon lat = nat ((90 - lat) * 361 + (lon + 180))"

text \<open>
  \<^verbatim>\<open>Array.prototype.reduce\<close> without an initial value: it throws a \<^verbatim>\<open>TypeError\<close> on an
  empty array and otherwise folds from the first element. \<open>NotPending\<close> is not a
  JavaScript error: it marks a texture callback that no call of the loader registered.
\<close>

datatype jsError = TypeError | NotPending

fun reduce :: "('a \<Rightarrow> 'a \<Rightarrow> 'a) \<Rightarrow> 'a list \<Rightarrow> jsError + 'a" where
  "reduce f [] = Inl TypeError"
| "reduce f (x # xs) = Inr (foldl f x xs)"

text \<open>\<^verbatim>\<open>visibleAt(lon, lat)\<close>, lines 242-247.\<close>

definition visibleAt :: "ActiveLatLon \<Rightarrow> real \<Rightarrow> int \<Rightarrow> jsError + bool" where
  "visibleAt activeLatLon lon lat =
     (case activeLatLon lat of
        None \<Rightarrow> Inr False
      | Some row \<Rightarrow>
          if length row = 0 then Inr False
          else (case reduce (\<lambda>p c. if \<bar>real_of_int c - lon\<bar> < \<bar>real_of_int p - lon\<bar> then c else p) row of
                  Inl e \<Rightarrow> Inl e
                | Inr closest \<Rightarrow> Inr (\<bar>lon - real_of_int closest\<bar> < 0.5)))"

text \<open>
  The condition for a dot, stated on the row itself rather than by a fold: the row is
  there and not empty, and a recorded longitude that is closest to \<open>lon\<close> is less than
  0.5 away from it.
\<close>

definition closestWithinHalf :: "ActiveLatLon \<Rightarrow> real \<Rightarrow> int \<Rightarrow> bool" where
  "closestWithinHalf activeLatLon lon lat =
     (case activeLatLon lat of
        None \<Rightarrow> False
      | Some row \<Rightarrow>
          row \<noteq> [] \<and>
          (\<exists>c \<in> set row.
             (\<forall>c' \<in> set row. \<bar>real_of_int c - lon\<bar> \<le> \<bar>real_of_int c' - lon\<bar>) \<and>
             \<bar>lon - real_of_int c\<bar> < 0.5))"


section \<open>Dots and their materials\<close>

datatype Color = ColorName string | ColorHex nat

record ShaderMaterial =
  u_time :: real
  u_colorA :: Color
  u_colorB :: Color

record DotMesh =
  dot_position :: Vector3
  dot_material :: ShaderMaterial

text \<open>
  \<^verbatim>\<open>createDotMaterial(timeSeed)\<close>, lines 258-265. \<open>rnd\<close> stands for \<^verbatim>\<open>Math.random\<close>: the
  value it returns when the list of materials has the given length.
\<close>

definition createDotMaterial ::
  "ShaderMaterial \<Rightarrow> (nat \<Rightarrow> real) \<Rightarrow> real \<Rightarrow> ShaderMaterial list \<Rightarrow> ShaderMaterial \<times> ShaderMaterial list" where
  "createDotMaterial sharedMaterial rnd timeSeed materials =
     (let m = sharedMaterial\<lparr>u_time := timeSeed * sin (rnd (length materials))\<rparr>
      in (m, materials @ [m]))"

definition dotDensity :: real where
  "dotDensity = 2.5"

text \<open>Lines 272-274: the number of candidate dots on the circle of latitude \<open>lat\<close>.\<close>

definition dotsForLat :: "int \<Rightarrow> int" where
  "dotsForLat lat =
     (let radius = cos (\<bar>real_of_int lat\<bar> * (pi / 180)) * dotSphereRadius;
          circumference = radius * pi * 2
      in max 1 \<lfloor>circumference * dotDensity\<rfloor>)"

definition candidateLon :: "int \<Rightarrow> int \<Rightarrow> real" where
  "candidateLon n x = - 180 + (real_of_int x * 360 / real_of_int n)"

text \<open>
  The inner loop of \<^verbatim>\<open>placeDots\<close>, lines 275-287, over the dots of the scene and the
  list of materials; \<open>n\<close> is \<^verbatim>\<open>dotsForLat\<close> and \<open>i\<close> the time seed of the row.
\<close>

function placeRow ::
  "ActiveLatLon \<Rightarrow> ShaderMaterial \<Rightarrow> (nat \<Rightarrow> real) \<Rightarrow> int \<Rightarrow> nat \<Rightarrow> int \<Rightarrow> int
     \<Rightarrow> DotMesh list \<times> ShaderMaterial list \<Rightarrow> jsError + DotMesh list \<times> ShaderMaterial list" where
  "placeRow a sh rnd lat i n x st =
     (if x < n then
        (let lon = candidateLon n x in
         case visibleAt a lon lat of
           Inl e \<Rightarrow> Inl e
         | Inr v \<Rightarrow>
             if \<not> v then placeRow a sh rnd lat i n (x + 1) st
             else
               (let vec = posFromLatLon lon (real_of_int lat);
                    mm = createDotMaterial sh rnd (real i) (snd st);
                    dot = \<lparr>dot_position = vec, dot_material = fst mm\<rparr>
                in placeRow a sh rnd lat i n (x + 1) (fst st @ [dot], snd mm)))
      else Inr st)"
  by pat_completeness auto
termination
  by (relation "measure (\<lambda>(a, sh, rnd, lat, i, n, x, st). nat (n - x))") auto

declare placeRow.simps [simp del]

text \<open>The outer loop of \<^verbatim>\<open>placeDots\<close>, line 271: \<open>lat\<close> from 90 down to -89.\<close>

function placeLats ::
  "ActiveLatLon \<Rightarrow> ShaderMaterial \<Rightarrow> (nat \<Rightarrow> real) \<Rightarrow> int \<Rightarrow> nat
     \<Rightarrow> DotMesh list \<times> ShaderMaterial list \<Rightarrow> jsError + DotMesh list \<times> ShaderMaterial list" where
  "placeLats a sh rnd lat i st =
     (if lat > - 90 then
        (case placeRow a sh rnd lat i (dotsForLat lat) 0 st of
           Inl e \<Rightarrow> Inl e
         | Inr st' \<Rightarrow> placeLats a sh rnd (lat - 1) (i + 1) st')
      else Inr st)"
  by pat_completeness auto
termination
  by (relation "measure (\<lambda>(a, sh, rnd, lat, i, st). nat (lat + 90))") auto

declare placeLats.simps [simp del]

definition placeDots ::
  "ActiveLatLon \<Rightarrow> ShaderMaterial \<Rightarrow> (nat \<Rightarrow> real)
     \<Rightarrow> DotMesh list \<times> ShaderMaterial list \<Rightarrow> jsError + DotMesh list \<times> ShaderMaterial list" where
  "placeDots a sh rnd st = placeLats a sh rnd 90 0 st"

text \<open>The candidates in the order the two loops enumerate them.\<close>

definition rowCandidates :: "int \<Rightarrow> (int \<times> real) list" where
  "rowCandidates lat =
     map (\<lambda>x. (lat, candidateLon (dotsForLat lat) x)) [0 .. dotsForLat lat - 1]"

definition candidates :: "(int \<times> real) list" where
  "candidates = concat (map rowCandidates (rev [- 89 .. 90]))"


section \<open>Markers\<close>

text \<open>
  A texture as far as the module looks at it: the size of its image when it has one,
  and the two properties the load callback sets.
\<close>

record Texture =
  image :: "(real \<times> real) option"
  anisotropy :: real
  generateMipmaps :: bool

datatype Side = FrontSide | DoubleSide

record MeshBasicMaterial =
  color :: Color
  transparent :: bool
  depthTest :: bool
  depthWrite :: bool
  side :: Side
  texture_map :: "Texture option"
  needsUpdate :: bool

text \<open>
  The plane mesh of a marker. \<open>rotation\<close> is the basis handed to
  \<^verbatim>\<open>setRotationFromMatrix\<close>, \<open>roll\<close> the axis and angle of \<^verbatim>\<open>rotateOnAxis\<close> when it is
  called; \<open>outward\<close>, \<open>baseSize\<close> and \<open>aspect\<close> are the entries of \<^verbatim>\<open>userData\<close>, which
  a mesh may lack.
\<close>

record Marker =
  position :: Vector3
  rotation :: "Vector3 \<times> Vector3 \<times> Vector3"
  roll :: "(Vector3 \<times> real) option"
  outward :: "Vector3 option"
  baseSize :: "real option"
  aspect :: "real option"
  scale :: Vector3
  visible :: bool
  material :: MeshBasicMaterial

text \<open>
  What a pending \<^verbatim>\<open>textureLoader.load\<close> holds in the closures of its two callbacks: the
  plane (by its index in the group), \<^verbatim>\<open>iconUrl\<close> and \<^verbatim>\<open>size\<close>.
\<close>

record Load =
  load_plane :: nat
  load_iconUrl :: string
  load_size :: real

text \<open>The module's globals after \<^verbatim>\<open>initScene\<close> has been entered.\<close>

record Scene =
  camera_position :: Vector3
  baseMesh :: "Vector3 option"
  markersGroup :: "Marker list option"
  maxAnisotropy :: "real option"
  sharedMaterial :: "ShaderMaterial option"
  scene_dots :: "DotMesh list"
  materials :: "ShaderMaterial list"
  twinkleTime :: real
  loads :: "Load list"
  console :: "(string \<times> string \<times> string) list"

record MarkerOpts =
  opt_lat :: real
  opt_lon :: real
  opt_iconUrl :: string
  opt_size :: "real option"
  opt_altitude :: "real option"
  opt_doubleSided :: "bool option"
  opt_rollDeg :: "real option"

text \<open>A default parameter value takes the place of \<^verbatim>\<open>undefined\<close> only.\<close>

definition orDefault :: "'a option \<Rightarrow> 'a \<Rightarrow> 'a" where
  "orDefault v d = (case v of None \<Rightarrow> d | Some x \<Rightarrow> x)"

text \<open>Lines 34-36: the east vector before it is normalised.\<close>

definition eastBeforeNormalize :: "Vector3 \<Rightarrow> Vector3" where
  "eastBeforeNormalize n =
     (let upRef = Vector3 0 1 0;
          east = crossVectors upRef n
      in if lengthSq east < 1 / 1000000 then crossVectors (Vector3 0 0 1) n else east)"

text \<open>Lines 33-39: the tangent frame \<open>(east, north, n)\<close> at the point \<open>pos\<close>.\<close>

definition tangentFrame :: "Vector3 \<Rightarrow> Vector3 \<times> Vector3 \<times> Vector3" where
  "tangentFrame pos =
     (let n = normalizeVec pos;
          east = normalizeVec (eastBeforeNormalize n);
          north = normalizeVec (crossVectors n east)
      in (east, north, n))"

text \<open>
  \<^verbatim>\<open>addFlatMarker\<close>, lines 23-89. Lines 24-59 build the plane from the options; line 61
  adds it to the group, and \<^verbatim>\<open>markersGroup.add\<close> throws when the group has not been
  created; lines 64-86 hand the two callbacks to the loader.
\<close>

definition flatMarkerPlane :: "MarkerOpts \<Rightarrow> Marker" where
  "flatMarkerPlane opts =
     (let size = orDefault (opt_size opts) 1.2;
          altitude = orDefault (opt_altitude opts) 0.15;
          doubleSided = orDefault (opt_doubleSided opts) False;
          rollDeg = orDefault (opt_rollDeg opts) 0;
          pos = latLonToVector3 (opt_lat opts) (opt_lon opts) SPHERE_RADIUS altitude;
          basis = tangentFrame pos;
          n = snd (snd basis);
          mat = \<lparr>color = ColorHex 0xffffff, transparent = True, depthTest = True,
                 depthWrite = False,
                 side = (if doubleSided then DoubleSide else FrontSide),
                 texture_map = None, needsUpdate = False\<rparr>
      in \<lparr>position = pos, rotation = basis,
          roll = (if rollDeg \<noteq> 0 then Some (n, degToRad rollDeg) else None),
          outward = Some n, baseSize = Some size, aspect = Some 1,
          scale = Vector3 size size 1, visible = True, material = mat\<rparr>)"

definition addFlatMarker :: "MarkerOpts \<Rightarrow> Scene \<Rightarrow> jsError + Scene" where
  "addFlatMarker opts st =
     (let plane = flatMarkerPlane opts
      in case markersGroup st of
           None \<Rightarrow> Inl TypeError
         | Some children \<Rightarrow>
             Inr (st\<lparr>markersGroup := Some (children @ [plane]),
                     loads := loads st @ [\<lparr>load_plane = length children,
                                            load_iconUrl = opt_iconUrl opts,
                                            load_size = orDefault (opt_size opts) 1.2\<rparr>]\<rparr>))"

text \<open>The success callback of the loader, lines 66-80, for the pending load \<open>ld\<close>.\<close>

definition aspectOf :: "Texture \<Rightarrow> real" where
  "aspectOf tex =
     (case image tex of
        None \<Rightarrow> 1
      | Some (w, h) \<Rightarrow> if w \<noteq> 0 \<and> h \<noteq> 0 then w / h else 1)"

definition onTextureLoad :: "Load \<Rightarrow> Texture \<Rightarrow> Scene \<Rightarrow> Scene" where
  "onTextureLoad ld tex st =
     (let tex1 = (case maxAnisotropy st of None \<Rightarrow> tex | Some a \<Rightarrow> tex\<lparr>anisotropy := a\<rparr>);
          tex2 = tex1\<lparr>generateMipmaps := True\<rparr>;
          ar = aspectOf tex2;
          size = load_size ld
      in case markersGroup st of
           None \<Rightarrow> st
         | Some children \<Rightarrow>
             if load_plane ld < length children then
               (let plane = children ! load_plane ld;
                    mat = (material plane)\<lparr>texture_map := Some tex2, color := ColorHex 0xffffff,
                                             needsUpdate := True\<rparr>;
                    plane' = plane\<lparr>material := mat, aspect := Some ar,
                                    scale := Vector3 (size * ar) size 1\<rparr>
                in st\<lparr>markersGroup := Some (children[load_plane ld := plane'])\<rparr>)
             else st)"

text \<open>The error callback, lines 82-85: one line on the console and nothing else.\<close>

definition onTextureError :: "Load \<Rightarrow> string \<Rightarrow> Scene \<Rightarrow> Scene" where
  "onTextureError ld err st =
     st\<lparr>console := console st @ [(''Marker texture failed to load:'', load_iconUrl ld, err)]\<rparr>"

text \<open>The body of the \<^verbatim>\<open>forEach\<close> of lines 100-114, for one marker.\<close>

definition minScale :: real where
  "minScale = 0.55"

definition attenuateMarker :: "Vector3 \<Rightarrow> Vector3 \<Rightarrow> Marker \<Rightarrow> Marker" where
  "attenuateMarker center view m =
     (let normal = (case outward m of
                      Some n \<Rightarrow> n
                    | None \<Rightarrow> normalizeVec (sub (position m) center));
          d = dot normal view;
          m1 = m\<lparr>visible := (d > 0)\<rparr>
      in if visible m1 then
           (let t = clamp d 0 1;
                s = lerp minScale 1.0 t;
                base = (case baseSize m1 of None \<Rightarrow> 1 | Some b \<Rightarrow> orNum b 1);
                ar = (case aspect m1 of None \<Rightarrow> 1 | Some a \<Rightarrow> orNum a 1)
            in m1\<lparr>scale := Vector3 (base * ar * s) (base * s) 1\<rparr>)
         else m1)"

text \<open>\<^verbatim>\<open>attenuateMarkerScaleAndVisibility\<close>, lines 92-115.\<close>

definition viewDirection :: "Vector3 \<Rightarrow> Vector3 \<Rightarrow> Vector3" where
  "viewDirection cameraPosition center = normalizeVec (sub cameraPosition center)"

definition attenuateMarkerScaleAndVisibility :: "Scene \<Rightarrow> Scene" where
  "attenuateMarkerScaleAndVisibility st =
     (case markersGroup st of
        None \<Rightarrow> st
      | Some children \<Rightarrow>
          (case baseMesh st of
             None \<Rightarrow> st
           | Some center \<Rightarrow>
               (let view = viewDirection (camera_position st) center
                in st\<lparr>markersGroup := Some (map (attenuateMarker center view) children)\<rparr>)))"


section \<open>The frame callback and the events of the page\<close>

text \<open>
  \<^verbatim>\<open>animate\<close>, lines 325-333. \<^verbatim>\<open>controls.update()\<close> belongs to the graphics library and
  moves the camera; \<open>cam\<close> is the position it leaves the camera at. Rendering and the
  request for the next frame change none of the globals.
\<close>

definition animate :: "Vector3 \<Rightarrow> Scene \<Rightarrow> Scene" where
  "animate cam st =
     (let st1 = st\<lparr>materials := map (\<lambda>m. m\<lparr>u_time := u_time m + twinkleTime st\<rparr>) (materials st)\<rparr>;
          st2 = st1\<lparr>camera_position := cam\<rparr>
      in attenuateMarkerScaleAndVisibility st2)"

text \<open>
  \<^verbatim>\<open>initScene\<close>, lines 158-225, with the global \<^verbatim>\<open>twinkleTime\<close> of line 155: the globals it
  sets, then the first frame. \<open>wide\<close> is \<^verbatim>\<open>window.innerWidth > 700\<close>, \<open>aniso\<close> the
  renderer's \<^verbatim>\<open>getMaxAnisotropy()\<close> when it has one.
\<close>

definition initScene :: "bool \<Rightarrow> real option \<Rightarrow> Vector3 \<Rightarrow> Scene" where
  "initScene wide aniso cam =
     animate cam
       \<lparr>camera_position = Vector3 0 0 (if wide then 100 else 140),
        baseMesh = Some (Vector3 0 0 0),
        markersGroup = Some [],
        maxAnisotropy = aniso,
        sharedMaterial = Some \<lparr>u_time = 1.0, u_colorA = ColorName ''#68D1BF'',
                               u_colorB = ColorName ''#1D6F78''\<rparr>,
        scene_dots = [],
        materials = [],
        twinkleTime = 0.027,
        loads = [],
        console = []\<rparr>"

text \<open>\<^verbatim>\<open>img.onload\<close>, lines 294-302: the image pass, then the dots.\<close>

definition imgOnload :: "ImageData \<Rightarrow> (nat \<Rightarrow> real) \<Rightarrow> Scene \<Rightarrow> jsError + Scene" where
  "imgOnload imageData rnd st =
     (case sharedMaterial st of
        None \<Rightarrow> Inl TypeError
      | Some sh \<Rightarrow>
          (case placeDots (readImageData imageData) sh rnd (scene_dots st, materials st) of
             Inl e \<Rightarrow> Inl e
           | Inr r \<Rightarrow> Inr (st\<lparr>scene_dots := fst r, materials := snd r\<rparr>)))"

text \<open>\<^verbatim>\<open>onResize\<close>, lines 307-313, as far as the globals above go.\<close>

definition onResize :: "bool \<Rightarrow> Scene \<Rightarrow> Scene" where
  "onResize wide st =
     st\<lparr>camera_position :=
          Vector3 (vx (camera_position st)) (vy (camera_position st)) (if wide then 100 else 140)\<rparr>"

datatype Event =
    AddFlatMarker MarkerOpts
  | Frame Vector3
  | TextureLoaded nat Texture
  | TextureFailed nat string
  | ImageLoaded ImageData "nat \<Rightarrow> real"
  | Resize bool

text \<open>
  One turn of the event loop. A texture callback runs only for a load that has been
  registered. An exception ends the run.
\<close>

definition step :: "Event \<Rightarrow> Scene \<Rightarrow> jsError + Scene" where
  "step e st =
     (case e of
        AddFlatMarker opts \<Rightarrow> addFlatMarker opts st
      | Frame cam \<Rightarrow> Inr (animate cam st)
      | TextureLoaded k tex \<Rightarrow>
          if k < length (loads st) then Inr (onTextureLoad (loads st ! k) tex st)
          else Inl NotPending
      | TextureFailed k err \<Rightarrow>
          if k < length (loads st) then Inr (onTextureError (loads st ! k) err st)
          else Inl NotPending
      | ImageLoaded imageData rnd \<Rightarrow> imgOnload imageData rnd st
      | Resize wide \<Rightarrow> Inr (onResize wide st))"

fun run :: "Event list \<Rightarrow> Scene \<Rightarrow> jsError + Scene" where
  "run [] st = Inr st"
| "run (e # es) st = (case step e st of Inl err \<Rightarrow> Inl err | Inr st' \<Rightarrow> run es st')"

text \<open>
  Lines 360-368: the options every marker of the module is added with,
  \<^verbatim>\<open>{ lat, lon, ...defaultMarkerOpts }\<close>.
\<close>

definition defaultMarkerOpts :: "real \<Rightarrow> real \<Rightarrow> MarkerOpts" where
  "defaultMarkerOpts lat lon =
     \<lparr>opt_lat = lat, opt_lon = lon, opt_iconUrl = ''img/antler-icon.png'',
      opt_size = Some 1.35, opt_altitude = Some 0.18,
      opt_doubleSided = None, opt_rollDeg = None\<rparr>"

text \<open>
  What holds of the globals after \<^verbatim>\<open>initScene\<close> and after every later event: the base
  sphere sits at the origin, the group of markers exists, every marker carries its
  outward normal, the \<open>k\<close>-th pending load belongs to the \<open>k\<close>-th marker, and
  \<^verbatim>\<open>twinkleTime\<close> still has the value of line 155.
\<close>

definition sceneInv :: "Scene \<Rightarrow> bool" where
  "sceneInv st =
     (baseMesh st = Some (Vector3 0 0 0) \<and>
      twinkleTime st = 0.027 \<and>
      (case markersGroup st of
         None \<Rightarrow> False
       | Some children \<Rightarrow>
           length (loads st) = length children \<and>
           (\<forall>m \<in> set children. outward m \<noteq> None) \<and>
           (\<forall>k \<in> {0 ..< length (loads st)}. load_plane (loads st ! k) = k)))"

text \<open>The frames among a list of events.\<close>

fun isFrame :: "Event \<Rightarrow> bool" where
  "isFrame (Frame cam) = True"
| "isFrame e = False"


section \<open>The same formulas in binary64 arithmetic\<close>

text \<open>
  Where a claim turns on rounding or on overflow, the code is read a second time with
  the numbers a JavaScript engine computes with: IEEE 754 binary64, rounded to the
  nearest double, ties to even. The definitions of this section have the names of the
  ones above with \<open>64\<close> appended.

  \<open>roundEven\<close> rounds a real to the nearest integer, a tie to the even one. \<open>binade x\<close>
  is the exponent \<open>e\<close> with \<open>2 ^ e \<le> \<bar>x\<bar> < 2 ^ (e + 1)\<close>, and -1022 below that (the
  subnormal doubles); \<open>ulp x\<close> is the distance between neighbouring doubles there, and
  \<open>fl x\<close> is \<open>x\<close> rounded to that grid.
\<close>

definition roundEven :: "real \<Rightarrow> int" where
  "roundEven x =
     (let n = \<lfloor>x\<rfloor>; r = x - of_int n
      in if r < 1 / 2 then n else if 1 / 2 < r then n + 1 else if even n then n else n + 1)"

definition binade :: "real \<Rightarrow> int" where
  "binade x = (if x = 0 then - 1022 else max \<lfloor>log 2 \<bar>x\<bar>\<rfloor> (- 1022))"

definition ulp :: "real \<Rightarrow> real" where
  "ulp x = 2 powi (binade x - 52)"

definition fl :: "real \<Rightarrow> real" where
  "fl x = of_int (roundEven (x / ulp x)) * ulp x"

text \<open>
  A double is a finite one, carried by its real value, or an infinity, or NaN. The
  sign of a zero is not kept: the code modelled here never divides by a zero
  (\<^verbatim>\<open>normalize\<close> replaces a zero length by 1), so it cannot tell the two zeros apart.
  The result of an operation is the exact result rounded, and an infinity once the
  rounded magnitude reaches \<open>2 ^ 1024\<close>. A decimal literal of the source is the double
  nearest to it (\<open>num\<close>). \<^verbatim>\<open>Math.sqrt\<close>, \<^verbatim>\<open>Math.sin\<close> and \<^verbatim>\<open>Math.cos\<close> are taken as
  correctly rounded; the language fixes \<^verbatim>\<open>Math.sin(0) = 0\<close> and \<^verbatim>\<open>Math.cos(0) = 1\<close> and
  leaves the other values of the last two to the engine, up to an approximation.
\<close>

datatype f64 = Fin real | PInf | NInf | NaN

definition roundTo :: "real \<Rightarrow> f64" where
  "roundTo x =
     (if 2 ^ 1024 \<le> fl x then PInf else if fl x \<le> - (2 ^ 1024) then NInf else Fin (fl x))"

definition num :: "real \<Rightarrow> f64" where
  "num x = roundTo x"

fun fneg :: "f64 \<Rightarrow> f64" where
  "fneg (Fin a) = Fin (- a)"
| "fneg PInf = NInf"
| "fneg NInf = PInf"
| "fneg NaN = NaN"

fun fadd :: "f64 \<Rightarrow> f64 \<Rightarrow> f64" where
  "fadd (Fin a) (Fin b) = roundTo (a + b)"
| "fadd NaN y = NaN"
| "fadd x NaN = NaN"
| "fadd PInf NInf = NaN"
| "fadd NInf PInf = NaN"
| "fadd PInf y = PInf"
| "fadd x PInf = PInf"
| "fadd NInf y = NInf"
| "fadd x NInf = NInf"

definition fsub :: "f64 \<Rightarrow> f64 \<Rightarrow> f64" where
  "fsub x y = fadd x (fneg y)"

fun fmul :: "f64 \<Rightarrow> f64 \<Rightarrow> f64" where
  "fmul (Fin a) (Fin b) = roundTo (a * b)"
| "fmul NaN y = NaN"
| "fmul x NaN = NaN"
| "fmul (Fin a) PInf = (if a = 0 then NaN else if 0 < a then PInf else NInf)"
| "fmul (Fin a) NInf = (if a = 0 then NaN else if 0 < a then NInf else PInf)"
| "fmul PInf (Fin b) = (if b = 0 then NaN else if 0 < b then PInf else NInf)"
| "fmul NInf (Fin b) = (if b = 0 then NaN else if 0 < b then NInf else PInf)"
| "fmul PInf PInf = PInf"
| "fmul PInf NInf = NInf"
| "fmul NInf PInf = NInf"
| "fmul NInf NInf = PInf"

fun fdiv :: "f64 \<Rightarrow> f64 \<Rightarrow> f64" where
  "fdiv (Fin a) (Fin b) =
     (if b = 0 then (if a = 0 then NaN else if 0 < a then PInf else NInf)
      else roundTo (a / b))"
| "fdiv NaN y = NaN"
| "fdiv x NaN = NaN"
| "fdiv (Fin a) PInf = Fin 0"
| "fdiv (Fin a) NInf = Fin 0"
| "fdiv PInf (Fin b) = (if 0 \<le> b then PInf else NInf)"
| "fdiv NInf (Fin b) = (if 0 \<le> b then NInf else PInf)"
| "fdiv x y = NaN"

fun fsqrt :: "f64 \<Rightarrow> f64" where
  "fsqrt (Fin a) = (if a < 0 then NaN else roundTo (sqrt a))"
| "fsqrt PInf = PInf"
| "fsqrt NInf = NaN"
| "fsqrt NaN = NaN"

fun fsin :: "f64 \<Rightarrow> f64" where
  "fsin (Fin a) = roundTo (sin a)"
| "fsin x = NaN"

fun fcos :: "f64 \<Rightarrow> f64" where
  "fcos (Fin a) = roundTo (cos a)"
| "fcos x = NaN"

text \<open>
  \<^verbatim>\<open>a < b\<close>, \<^verbatim>\<open>Math.min\<close>, \<^verbatim>\<open>Math.max\<close> and \<^verbatim>\<open>a || b\<close> on doubles: a comparison with NaN is
  false, \<^verbatim>\<open>Math.min\<close> and \<^verbatim>\<open>Math.max\<close> of a NaN are NaN, and 0 and NaN are falsy.
\<close>

fun flt :: "f64 \<Rightarrow> f64 \<Rightarrow> bool" where
  "flt (Fin a) (Fin b) = (a < b)"
| "flt NaN y = False"
| "flt x NaN = False"
| "flt x NInf = False"
| "flt PInf y = False"
| "flt x y = True"

definition fmin :: "f64 \<Rightarrow> f64 \<Rightarrow> f64" where
  "fmin a b = (if a = NaN \<or> b = NaN then NaN else if flt b a then b else a)"

definition fmax :: "f64 \<Rightarrow> f64 \<Rightarrow> f64" where
  "fmax a b = (if a = NaN \<or> b = NaN then NaN else if flt a b then b else a)"

definition orNum64 :: "f64 \<Rightarrow> f64 \<Rightarrow> f64" where
  "orNum64 a b = (if a = Fin 0 \<or> a = NaN then b else a)"

text \<open>The values a variable of the program can hold: \<open>Fin x\<close> only for \<open>x\<close> on the grid.\<close>

fun isDouble :: "f64 \<Rightarrow> bool" where
  "isDouble (Fin a) = (fl a = a \<and> \<bar>a\<bar> < 2 ^ 1024)"
| "isDouble x = True"

text \<open>
  \<^verbatim>\<open>Math.PI\<close> is the double \<open>884279719003555 / 2 ^ 48\<close>, 3.141592653589793. The library
  has \<^verbatim>\<open>DEG2RAD = Math.PI / 180\<close>, \<^verbatim>\<open>degToRad(d) = d * DEG2RAD\<close>, and \<^verbatim>\<open>clamp\<close>, \<^verbatim>\<open>lerp\<close>
  as above.
\<close>

definition PI64 :: f64 where
  "PI64 = Fin (884279719003555 / 281474976710656)"

definition DEG2RAD64 :: f64 where
  "DEG2RAD64 = fdiv PI64 (num 180)"

definition degToRad64 :: "f64 \<Rightarrow> f64" where
  "degToRad64 degrees = fmul degrees DEG2RAD64"

definition clamp64 :: "f64 \<Rightarrow> f64 \<Rightarrow> f64 \<Rightarrow> f64" where
  "clamp64 v lo hi = fmax lo (fmin hi v)"

definition lerp64 :: "f64 \<Rightarrow> f64 \<Rightarrow> f64 \<Rightarrow> f64" where
  "lerp64 x y t = fadd (fmul (fsub (num 1) t) x) (fmul t y)"

text \<open>
  Lines 108-109: the factor \<^verbatim>\<open>s\<close> as the doubles compute it from the dot product.
  \<open>minScale64\<close> is the double that the literal \<^verbatim>\<open>0.55\<close> denotes. \<open>claimedScale64\<close> is
  the formula of the description, \<open>0.55 + (1.0 - 0.55) * clamp(d, 0, 1)\<close>, computed in
  the same arithmetic.
\<close>

definition minScale64 :: real where
  "minScale64 = 2476979795053773 / 4503599627370496"

definition scaleFactor64 :: "f64 \<Rightarrow> f64" where
  "scaleFactor64 d = lerp64 (num 0.55) (num 1) (clamp64 d (num 0) (num 1))"

definition claimedScale64 :: "f64 \<Rightarrow> f64" where
  "claimedScale64 d = fadd (num 0.55) (fmul (fsub (num 1) (num 0.55)) (clamp64 d (num 0) (num 1)))"

text \<open>\<^verbatim>\<open>latLonToVector3\<close>, lines 7-18, and \<^verbatim>\<open>posFromLatLon\<close>, lines 249-256, on doubles.\<close>

datatype Vector3_64 = Vector3_64 (vx64: f64) (vy64: f64) (vz64: f64)

definition latLonToVector3_64 :: "f64 \<Rightarrow> f64 \<Rightarrow> f64 \<Rightarrow> f64 \<Rightarrow> Vector3_64" where
  "latLonToVector3_64 latDeg lonDeg radius altitude =
     (let lat = degToRad64 latDeg;
          lon = degToRad64 lonDeg;
          phi = fsub (fdiv PI64 (num 2)) lat;
          theta = fadd lon PI64;
          r = fadd radius altitude;
          x = fmul (fmul (fneg r) (fsin phi)) (fcos theta);
          z = fmul (fmul r (fsin phi)) (fsin theta);
          y = fmul r (fcos phi)
      in Vector3_64 x y z)"

definition dotSphereRadius64 :: f64 where
  "dotSphereRadius64 = num 20"

definition posFromLatLon64 :: "f64 \<Rightarrow> f64 \<Rightarrow> Vector3_64" where
  "posFromLatLon64 lon lat =
     (let phi = fmul (fsub (num 90) lat) (fdiv PI64 (num 180));
          theta = fmul (fadd lon (num 180)) (fdiv PI64 (num 180));
          x = fneg (fmul (fmul dotSphereRadius64 (fsin phi)) (fcos theta));
          z = fmul (fmul dotSphereRadius64 (fsin phi)) (fsin theta);
          y = fmul dotSphereRadius64 (fcos phi)
      in Vector3_64 x y z)"

text \<open>The vector operations of the library and the tangent frame, lines 33-39, on doubles.\<close>

definition crossVectors64 :: "Vector3_64 \<Rightarrow> Vector3_64 \<Rightarrow> Vector3_64" where
  "crossVectors64 a b =
     Vector3_64 (fsub (fmul (vy64 a) (vz64 b)) (fmul (vz64 a) (vy64 b)))
                (fsub (fmul (vz64 a) (vx64 b)) (fmul (vx64 a) (vz64 b)))
                (fsub (fmul (vx64 a) (vy64 b)) (fmul (vy64 a) (vx64 b)))"

definition lengthSq64 :: "Vector3_64 \<Rightarrow> f64" where
  "lengthSq64 v =
     fadd (fadd (fmul (vx64 v) (vx64 v)) (fmul (vy64 v) (vy64 v))) (fmul (vz64 v) (vz64 v))"

definition vlength64 :: "Vector3_64 \<Rightarrow> f64" where
  "vlength64 v = fsqrt (lengthSq64 v)"

definition multiplyScalar64 :: "Vector3_64 \<Rightarrow> f64 \<Rightarrow> Vector3_64" where
  "multiplyScalar64 v s = Vector3_64 (fmul (vx64 v) s) (fmul (vy64 v) s) (fmul (vz64 v) s)"

definition divideScalar64 :: "Vector3_64 \<Rightarrow> f64 \<Rightarrow> Vector3_64" where
  "divideScalar64 v s = multiplyScalar64 v (fdiv (num 1) s)"

definition normalize64 :: "Vector3_64 \<Rightarrow> Vector3_64" where
  "normalize64 v = divideScalar64 v (orNum64 (vlength64 v) (num 1))"

definition SPHERE_RADIUS64 :: f64 where
  "SPHERE_RADIUS64 = num 20"

definition eastBeforeNormalize64 :: "Vector3_64 \<Rightarrow> Vector3_64" where
  "eastBeforeNormalize64 n =
     (let upRef = Vector3_64 (num 0) (num 1) (num 0);
          east = crossVectors64 upRef n
      in if flt (lengthSq64 east) (num 0.000001)
         then crossVectors64 (Vector3_64 (num 0) (num 0) (num 1)) n else east)"

definition tangentFrame64 :: "Vector3_64 \<Rightarrow> Vector3_64 \<times> Vector3_64 \<times> Vector3_64" where
  "tangentFrame64 pos =
     (let n = normalize64 pos;
          east = normalize64 (eastBeforeNormalize64 n);
          north = normalize64 (crossVectors64 n east)
      in (east, north, n))"


section \<open>Facts about the vector operations\<close>

lemma lengthSq_nonneg: "0 \<le> lengthSq v"
  by (simp add: lengthSq_def)

lemma lengthSq_eq_dot: "lengthSq v = dot v v"
  by (simp add: lengthSq_def dot_def)

lemma vlength_eq_0_iff: "vlength v = 0 \<longleftrightarrow> lengthSq v = 0"
  by (simp add: vlength_def)

lemma sphere_point_lengthSq:
  "lengthSq (Vector3 (- r * sin p * cos t) (r * cos p) (r * sin p * sin t)) = r * r"
proof -
  have t1: "cos t * cos t + sin t * sin t = 1"
    by (rule sin_cos_squared_add3)
  have p1: "sin p * sin p + cos p * cos p = 1"
    using sin_cos_squared_add [of p] by (simp add: power2_eq_square)
  show ?thesis
    using t1 p1 unfolding lengthSq_def Vector3.sel by algebra
qed

lemma latLonToVector3_lengthSq:
  "lengthSq (latLonToVector3 latDeg lonDeg radius altitude)
     = (radius + altitude) * (radius + altitude)"
  unfolding latLonToVector3_def Let_def by (rule sphere_point_lengthSq)

lemma latLonToVector3_vlength:
  "vlength (latLonToVector3 latDeg lonDeg radius altitude) = \<bar>radius + altitude\<bar>"
  by (simp add: vlength_def latLonToVector3_lengthSq)


section \<open>Facts about binary64 arithmetic\<close>

text \<open>Rounding to the nearest integer and the exponent of a real.\<close>

lemma roundEven_le: "of_int (roundEven x) \<le> x + 1 / 2"
  unfolding roundEven_def Let_def by (auto; linarith)

lemma roundEven_ge: "x - 1 / 2 \<le> of_int (roundEven x)"
  unfolding roundEven_def Let_def by (auto; linarith)

lemma roundEven_of_int [simp]: "roundEven (of_int n) = n"
  by (simp add: roundEven_def)

lemma roundEven_floor: "\<lfloor>x\<rfloor> \<le> roundEven x \<and> roundEven x \<le> \<lfloor>x\<rfloor> + 1"
  by (simp add: roundEven_def Let_def)

lemma roundEven_mono: "x \<le> y \<Longrightarrow> roundEven x \<le> roundEven y"
proof -
  assume xy: "x \<le> y"
  then have fl: "\<lfloor>x\<rfloor> \<le> \<lfloor>y\<rfloor>" by (rule floor_mono)
  show ?thesis
  proof (cases "\<lfloor>x\<rfloor> = \<lfloor>y\<rfloor>")
    case True
    with xy show ?thesis by (auto simp: roundEven_def Let_def)
  next
    case False
    with fl have "\<lfloor>x\<rfloor> + 1 \<le> \<lfloor>y\<rfloor>" by simp
    with roundEven_floor [of x] roundEven_floor [of y] show ?thesis by linarith
  qed
qed

lemma roundEven_uminus: "roundEven (- x) = - roundEven x"
proof (cases "x \<in> \<int>")
  case True
  then obtain n where "x = of_int n" by (auto elim: Ints_cases)
  then have "- x = of_int (- n)" by simp
  then show ?thesis unfolding \<open>x = of_int n\<close> by (simp only: roundEven_of_int)
next
  case False
  then have ne: "x \<noteq> of_int \<lfloor>x\<rfloor>" by (metis Ints_of_int)
  then have f: "\<lfloor>- x\<rfloor> = - \<lfloor>x\<rfloor> - 1"
    by (simp add: ceiling_altdef ceiling_def [symmetric] floor_minus)
  have lt: "of_int \<lfloor>x\<rfloor> < x" using ne of_int_floor_le [of x] by linarith
  show ?thesis
    unfolding roundEven_def Let_def f using lt by (auto; linarith?)
qed

lemma two_powi_pos [simp]: "0 < (2::real) powi k"
  by (simp add: zero_less_power_int)

lemma two_powi_not_le [simp]: "\<not> (2::real) powi k \<le> 0"
  by (simp add: not_le)

lemma ulp_pos [simp]: "0 < ulp x"
  by (simp add: ulp_def)

lemma ulp_neq_0 [simp]: "ulp x \<noteq> 0"
  using ulp_pos [of x] by linarith

lemma roundEven_0 [simp]: "roundEven 0 = 0"
  by (simp add: roundEven_def)

lemma ulp_nonneg [simp]: "0 \<le> ulp x"
  using ulp_pos [of x] by (rule less_imp_le)

lemma binade_ge: "- 1022 \<le> binade x"
  by (simp add: binade_def)

lemma binade_uminus [simp]: "binade (- x) = binade x"
  by (simp add: binade_def)

lemma ulp_uminus [simp]: "ulp (- x) = ulp x"
  by (simp add: ulp_def)

lemma two_powr_int: "(2::real) powr real_of_int j = 2 powi j"
  by (simp add: powr_real_of_int')

lemma floor_log2_iff:
  "x \<noteq> 0 \<Longrightarrow> \<lfloor>log 2 \<bar>x\<bar>\<rfloor> = k \<longleftrightarrow> 2 powi k \<le> \<bar>x\<bar> \<and> \<bar>x\<bar> < 2 powi (k + 1)"
  using floor_log_eq_powr_iff [of "\<bar>x\<bar>" 2 k] unfolding two_powr_int by simp

lemma floor_log2:
  assumes "x \<noteq> 0"
  shows "2 powi \<lfloor>log 2 \<bar>x\<bar>\<rfloor> \<le> \<bar>x\<bar> \<and> \<bar>x\<bar> < 2 powi (\<lfloor>log 2 \<bar>x\<bar>\<rfloor> + 1)"
  using floor_log2_iff [OF assms, of "\<lfloor>log 2 \<bar>x\<bar>\<rfloor>"] by simp

lemma floor_log2_eq:
  assumes "2 powi k \<le> \<bar>x\<bar>" and "\<bar>x\<bar> < 2 powi (k + 1)"
  shows "\<lfloor>log 2 \<bar>x\<bar>\<rfloor> = k"
proof -
  have "x \<noteq> 0" using assms(1) two_powi_pos [of k] by auto
  from floor_log2_iff [OF this, of k] assms show ?thesis by simp
qed

lemma binade_eq:
  assumes "2 powi k \<le> \<bar>x\<bar>" and "\<bar>x\<bar> < 2 powi (k + 1)" and "- 1022 \<le> k"
  shows "binade x = k"
proof -
  have "x \<noteq> 0" using assms(1) two_powi_pos [of k] by auto
  with floor_log2_eq [OF assms(1,2)] assms(3) show ?thesis by (simp add: binade_def)
qed

lemma binade_small:
  assumes "\<bar>x\<bar> < 2 powi (- 1022)"
  shows "binade x = - 1022"
proof (cases "x = 0")
  case True
  then show ?thesis by (simp add: binade_def)
next
  case False
  from floor_log2 [OF False] assms have "(2::real) powi \<lfloor>log 2 \<bar>x\<bar>\<rfloor> < 2 powi (- 1022)"
    by linarith
  then have "\<lfloor>log 2 \<bar>x\<bar>\<rfloor> < - 1022"
    by (metis linorder_not_less one_le_numeral power_int_increasing)
  with False show ?thesis by (simp add: binade_def)
qed

lemma binade_upper: "x \<noteq> 0 \<Longrightarrow> \<bar>x\<bar> < 2 powi (binade x + 1)"
proof -
  assume x: "x \<noteq> 0"
  have "\<lfloor>log 2 \<bar>x\<bar>\<rfloor> + 1 \<le> binade x + 1" using x by (simp add: binade_def)
  then have "(2::real) powi (\<lfloor>log 2 \<bar>x\<bar>\<rfloor> + 1) \<le> 2 powi (binade x + 1)"
    by (intro power_int_increasing) simp_all
  with floor_log2 [OF x] show ?thesis by linarith
qed

lemma binade_lower: "- 1022 < binade x \<Longrightarrow> 2 powi binade x \<le> \<bar>x\<bar>"
proof -
  assume b: "- 1022 < binade x"
  then have x: "x \<noteq> 0" by (auto simp: binade_def)
  with b have e: "binade x = \<lfloor>log 2 \<bar>x\<bar>\<rfloor>" by (simp add: binade_def max_def split: if_splits)
  from floor_log2 [OF x] show ?thesis unfolding e by simp
qed

lemma binade_mono:
  assumes "\<bar>x\<bar> \<le> \<bar>y\<bar>" and "x \<noteq> 0"
  shows "binade x \<le> binade y"
proof (rule ccontr)
  assume "\<not> binade x \<le> binade y"
  then have lt: "binade y + 1 \<le> binade x" by simp
  with binade_ge [of y] have "- 1022 < binade x" by linarith
  from binade_lower [OF this] have a: "2 powi binade x \<le> \<bar>x\<bar>" .
  have "y \<noteq> 0" using assms by auto
  from binade_upper [OF this] have b: "\<bar>y\<bar> < 2 powi (binade y + 1)" .
  have "(2::real) powi (binade y + 1) \<le> 2 powi binade x"
    using lt by (intro power_int_increasing) simp_all
  with a b assms(1) show False by linarith
qed

lemma fl_zero [simp]: "fl 0 = 0"
  by (simp add: fl_def roundEven_def)

lemma fl_uminus: "fl (- x) = - fl x"
  by (simp add: fl_def roundEven_uminus)

lemma fl_error: "\<bar>fl x - x\<bar> \<le> ulp x / 2"
proof -
  let ?u = "ulp x" and ?n = "real_of_int (roundEven (x / ulp x))"
  have "\<bar>?n - x / ?u\<bar> \<le> 1 / 2"
    using roundEven_le [of "x / ?u"] roundEven_ge [of "x / ?u"] by linarith
  then have "\<bar>?n - x / ?u\<bar> * ?u \<le> 1 / 2 * ?u"
    by (intro mult_right_mono) simp_all
  moreover have "\<bar>?n - x / ?u\<bar> * ?u = \<bar>(?n - x / ?u) * ?u\<bar>"
    by (simp add: abs_mult)
  moreover have "(?n - x / ?u) * ?u = fl x - x"
    by (simp add: fl_def left_diff_distrib)
  ultimately show ?thesis by simp
qed

lemma fl_eval:
  assumes "2 powi k \<le> \<bar>x\<bar>" and "\<bar>x\<bar> < 2 powi (k + 1)" and "- 1022 \<le> k"
    and "roundEven (x / 2 powi (k - 52)) = m"
  shows "fl x = of_int m * 2 powi (k - 52)"
  using binade_eq [OF assms(1-3)] assms(4) by (simp add: fl_def ulp_def)

lemma fl_eval_small:
  assumes "\<bar>x\<bar> < 2 powi (- 1022)" and "roundEven (x / 2 powi (- 1074)) = m"
  shows "fl x = of_int m * 2 powi (- 1074)"
  using binade_small [OF assms(1)] assms(2) by (simp add: fl_def ulp_def)

lemma fl_nonneg: "0 \<le> x \<Longrightarrow> 0 \<le> fl x"
proof -
  assume "0 \<le> x"
  then have "real_of_int 0 \<le> x / ulp x" by simp
  from roundEven_mono [OF this] show ?thesis by (simp add: fl_def)
qed

lemma fl_nonpos: "x \<le> 0 \<Longrightarrow> fl x \<le> 0"
  using fl_nonneg [of "- x"] by (simp add: fl_uminus)

lemma two_powi_split: "(2::real) powi k = 2 ^ 52 * 2 powi (k - 52)"
proof -
  have "(2::real) powi (52 + (k - 52)) = 2 powi 52 * 2 powi (k - 52)"
    by (rule power_int_add) simp
  then show ?thesis by simp
qed

lemma two_powi_Suc: "(2::real) powi (k + 1) = 2 * 2 powi k"
  by (rule power_int_add_1') simp

lemma fl_upper:
  assumes "0 < x"
  shows "fl x \<le> 2 powi (binade x + 1)"
proof -
  have "x < 2 powi (binade x + 1)" using binade_upper [of x] assms by simp
  also have "\<dots> = 2 ^ 53 * ulp x"
    unfolding two_powi_Suc ulp_def by (subst two_powi_split) simp
  finally have "x / ulp x \<le> real_of_int (2 ^ 53)"
    by (simp add: pos_divide_le_eq)
  from roundEven_mono [OF this] have "roundEven (x / ulp x) \<le> 2 ^ 53"
    by (simp only: roundEven_of_int)
  then have "real_of_int (roundEven (x / ulp x)) \<le> 2 ^ 53"
    by (metis of_int_le_iff of_int_numeral of_int_power)
  then have "fl x \<le> 2 ^ 53 * ulp x"
    unfolding fl_def by (intro mult_right_mono) simp_all
  also have "\<dots> = 2 powi (binade x + 1)"
    unfolding two_powi_Suc ulp_def by (subst two_powi_split) simp
  finally show ?thesis .
qed

lemma fl_lower:
  assumes "0 < x" and "- 1022 < binade x"
  shows "2 powi binade x \<le> fl x"
proof -
  have "2 powi binade x \<le> x" using binade_lower [OF assms(2)] assms(1) by simp
  moreover have "2 powi binade x = 2 ^ 52 * ulp x"
    unfolding ulp_def by (rule two_powi_split)
  ultimately have "real_of_int (2 ^ 52) \<le> x / ulp x"
    by (simp add: pos_le_divide_eq)
  from roundEven_mono [OF this] have "2 ^ 52 \<le> roundEven (x / ulp x)"
    by (simp only: roundEven_of_int)
  then have "2 ^ 52 \<le> real_of_int (roundEven (x / ulp x))"
    by (metis of_int_le_iff of_int_numeral of_int_power)
  then have "2 ^ 52 * ulp x \<le> fl x"
    unfolding fl_def by (intro mult_right_mono) simp_all
  with \<open>2 powi binade x = 2 ^ 52 * ulp x\<close> show ?thesis by simp
qed

lemma fl_mono_pos:
  assumes "0 < x" and "x \<le> y"
  shows "fl x \<le> fl y"
proof -
  have y: "0 < y" using assms by simp
  have b: "binade x \<le> binade y" using assms by (intro binade_mono) simp_all
  show ?thesis
  proof (cases "binade x = binade y")
    case True
    then have u: "ulp x = ulp y" by (simp add: ulp_def)
    have "x / ulp y \<le> y / ulp y" using assms(2) by (intro divide_right_mono) simp_all
    from roundEven_mono [OF this] show ?thesis
      unfolding fl_def u by (intro mult_right_mono) simp_all
  next
    case False
    with b have lt: "binade x + 1 \<le> binade y" by simp
    with binade_ge [of x] have "- 1022 < binade y" by linarith
    from fl_lower [OF y this] have "2 powi binade y \<le> fl y" .
    moreover have "(2::real) powi (binade x + 1) \<le> 2 powi binade y"
      using lt by (intro power_int_increasing) simp_all
    moreover note fl_upper [OF assms(1)]
    ultimately show ?thesis by linarith
  qed
qed

lemma fl_mono: "x \<le> y \<Longrightarrow> fl x \<le> fl y"
proof -
  assume xy: "x \<le> y"
  consider "0 < x" | "x \<le> 0" "0 \<le> y" | "y < 0" by linarith
  then show ?thesis
  proof cases
    case 1
    then show ?thesis using xy by (rule fl_mono_pos)
  next
    case 2
    with fl_nonpos [of x] fl_nonneg [of y] show ?thesis by linarith
  next
    case 3
    with xy have "0 < - y" "- y \<le> - x" by simp_all
    from fl_mono_pos [OF this] show ?thesis by (simp add: fl_uminus)
  qed
qed

lemma fl_exact:
  assumes "x = real_of_int n * 2 powi e" and "binade x - 52 \<le> e"
  shows "fl x = x"
proof -
  define j where "j = nat (e - (binade x - 52))"
  define u where "u = ulp x"
  have u: "0 < u" by (simp add: u_def)
  have "(2::real) powi e = 2 powi (int j + (binade x - 52))"
    using assms(2) by (simp add: j_def)
  also have "\<dots> = 2 powi int j * 2 powi (binade x - 52)"
    by (rule power_int_add) simp
  finally have e: "(2::real) powi e = 2 ^ j * u"
    by (simp add: ulp_def u_def)
  have x: "x = real_of_int (n * 2 ^ j) * u"
    using assms(1) e by simp
  have "x / u = real_of_int (n * 2 ^ j)"
    using u by (subst x) simp
  then have "fl x = real_of_int (n * 2 ^ j) * u"
    unfolding fl_def u_def [symmetric] by (simp only: roundEven_of_int)
  with x show ?thesis by simp
qed

lemma binade_below_one:
  assumes "\<bar>x\<bar> < 1"
  shows "binade x \<le> - 1"
proof (rule ccontr)
  assume "\<not> binade x \<le> - 1"
  then have b: "0 \<le> binade x" by simp
  then have "- 1022 < binade x" by simp
  from binade_lower [OF this] have "2 powi binade x \<le> \<bar>x\<bar>" .
  moreover have "(2::real) powi 0 \<le> 2 powi binade x"
    using b by (intro power_int_increasing) simp_all
  ultimately show False using assms by simp
qed

lemma fl_error_unit:
  assumes "\<bar>x\<bar> \<le> 1"
  shows "\<bar>fl x - x\<bar> \<le> 1 / 2 ^ 54"
proof (cases "\<bar>x\<bar> = 1")
  case True
  then have "x = real_of_int (if x = 1 then 1 else - 1) * 2 powi 0" by auto
  moreover have "binade x = 0" using True by (intro binade_eq) simp_all
  ultimately have "fl x = x" by (intro fl_exact [where e = 0]) simp_all
  then show ?thesis by simp
next
  case False
  with assms have "\<bar>x\<bar> < 1" by simp
  from binade_below_one [OF this] have "binade x - 52 \<le> - 53" by simp
  then have "ulp x \<le> 2 powi (- 53)"
    unfolding ulp_def by (intro power_int_increasing) simp_all
  with fl_error [of x] show ?thesis by simp
qed

lemma fl_rel_error:
  assumes "2 powi (- 1022) \<le> \<bar>x\<bar>"
  shows "\<bar>fl x - x\<bar> \<le> \<bar>x\<bar> / 2 ^ 53"
proof -
  have "2 powi binade x \<le> \<bar>x\<bar>"
  proof (cases "- 1022 < binade x")
    case True
    then show ?thesis by (rule binade_lower)
  next
    case False
    with binade_ge [of x] have "binade x = - 1022" by simp
    with assms show ?thesis by simp
  qed
  moreover have "ulp x / 2 = 2 powi binade x / 2 ^ 53"
    unfolding ulp_def by (subst two_powi_split [of "binade x"]) simp
  ultimately have "ulp x / 2 \<le> \<bar>x\<bar> / 2 ^ 53"
    by (simp add: divide_right_mono)
  with fl_error [of x] show ?thesis by linarith
qed

lemma roundEven_near:
  assumes "\<bar>x - real_of_int m\<bar> < 1 / 2"
  shows "roundEven x = m"
proof -
  consider "real_of_int m \<le> x" | "x < real_of_int m" by linarith
  then show ?thesis
  proof cases
    case 1
    with assms have "\<lfloor>x\<rfloor> = m" by (intro floor_unique) linarith+
    with assms 1 show ?thesis by (auto simp: roundEven_def Let_def)
  next
    case 2
    with assms have "\<lfloor>x\<rfloor> = m - 1" by (intro floor_unique) (simp; linarith)+
    with assms 2 show ?thesis by (auto simp: roundEven_def Let_def)
  qed
qed

lemma roundEven_tie:
  assumes "x = real_of_int m + 1 / 2"
  shows "roundEven x = (if even m then m else m + 1)"
proof -
  have "\<lfloor>x\<rfloor> = m" unfolding assms by (intro floor_unique) simp_all
  then show ?thesis by (simp add: roundEven_def Let_def assms)
qed

lemma fl_near:
  assumes "2 powi k \<le> \<bar>x\<bar>" and "\<bar>x\<bar> < 2 powi (k + 1)" and "- 1022 \<le> k"
    and "\<bar>x / 2 powi (k - 52) - real_of_int m\<bar> < 1 / 2"
  shows "fl x = real_of_int m * 2 powi (k - 52)"
  using assms(1-3) roundEven_near [OF assms(4)] by (rule fl_eval)

lemma fl_tie:
  assumes "2 powi k \<le> \<bar>x\<bar>" and "\<bar>x\<bar> < 2 powi (k + 1)" and "- 1022 \<le> k"
    and "x / 2 powi (k - 52) = real_of_int m + 1 / 2"
  shows "fl x = real_of_int (if even m then m else m + 1) * 2 powi (k - 52)"
  using assms(1-3) roundEven_tie [OF assms(4)] by (rule fl_eval)

text \<open>Operations that stay finite, and the evaluation of one rounding.\<close>

lemma fl_pow1023: "fl (2 ^ 1023) = 2 ^ 1023"
proof -
  have "(2::real) ^ 1023 = real_of_int 1 * 2 powi 1023" by simp
  moreover have "binade (2 ^ 1023) = 1023" by (intro binade_eq) simp_all
  ultimately show ?thesis by (intro fl_exact [where n = 1 and e = 1023]) simp_all
qed

lemma roundTo_bounded:
  assumes "\<bar>x\<bar> \<le> 2 ^ 1023"
  shows "roundTo x = Fin (fl x)"
proof -
  from assms have x1: "x \<le> 2 ^ 1023" and x2: "- (2 ^ 1023) \<le> x" by linarith+
  from fl_mono [OF x1] have "fl x \<le> 2 ^ 1023" unfolding fl_pow1023 .
  moreover from fl_mono [OF x2] have "- (2 ^ 1023) \<le> fl x" unfolding fl_uminus fl_pow1023 .
  ultimately show ?thesis by (simp add: roundTo_def)
qed

lemma roundTo_0 [simp]: "roundTo 0 = Fin 0"
  by (simp add: roundTo_def)

lemma roundTo_near:
  assumes "2 powi k \<le> \<bar>x\<bar>" and "\<bar>x\<bar> < 2 powi (k + 1)" and "- 1022 \<le> k" and "k \<le> 1022"
    and "\<bar>x / 2 powi (k - 52) - real_of_int m\<bar> < 1 / 2"
  shows "roundTo x = Fin (real_of_int m * 2 powi (k - 52))"
proof -
  have "(2::real) powi (k + 1) \<le> 2 powi 1023"
    using assms(4) by (intro power_int_increasing) simp_all
  with assms(2) have "\<bar>x\<bar> \<le> 2 ^ 1023" by simp
  from roundTo_bounded [OF this] fl_near [OF assms(1-3,5)] show ?thesis by simp
qed

lemma roundTo_tie:
  assumes "2 powi k \<le> \<bar>x\<bar>" and "\<bar>x\<bar> < 2 powi (k + 1)" and "- 1022 \<le> k" and "k \<le> 1022"
    and "x / 2 powi (k - 52) = real_of_int m + 1 / 2"
  shows "roundTo x = Fin (real_of_int (if even m then m else m + 1) * 2 powi (k - 52))"
proof -
  have "(2::real) powi (k + 1) \<le> 2 powi 1023"
    using assms(4) by (intro power_int_increasing) simp_all
  with assms(2) have "\<bar>x\<bar> \<le> 2 ^ 1023" by simp
  from roundTo_bounded [OF this] fl_tie [OF assms(1-3,5)] show ?thesis by simp
qed

lemma fl_pow1024: "fl (2 ^ 1024) = 2 ^ 1024"
proof -
  have "(2::real) ^ 1024 = real_of_int 1 * 2 powi 1024" by simp
  moreover have "binade (2 ^ 1024) = 1024" by (intro binade_eq) simp_all
  ultimately show ?thesis by (intro fl_exact [where n = 1 and e = 1024]) simp_all
qed

lemma roundTo_overflow:
  assumes "2 ^ 1024 \<le> x"
  shows "roundTo x = PInf"
proof -
  from fl_mono [OF assms] have "2 ^ 1024 \<le> fl x" unfolding fl_pow1024 .
  then show ?thesis by (simp add: roundTo_def)
qed

lemma roundTo_sqrt_near:
  assumes "- 1022 \<le> k" and "k \<le> 1022" and "2 ^ 52 < m" and "m < 2 ^ 53"
    and "((real_of_int m - 1 / 2) * 2 powi (k - 52))\<^sup>2 < a"
    and "a < ((real_of_int m + 1 / 2) * 2 powi (k - 52))\<^sup>2"
  shows "roundTo (sqrt a) = Fin (real_of_int m * 2 powi (k - 52))"
proof -
  define u :: real where "u = 2 powi (k - 52)"
  have u: "0 < u" by (simp add: u_def)
  have "(2 ^ 52 + 1 :: int) \<le> m" using assms(3) by simp
  then have "real_of_int (2 ^ 52 + 1) \<le> real_of_int m" by (simp only: of_int_le_iff)
  then have m1: "2 ^ 52 + 1 \<le> real_of_int m" by simp
  have "m \<le> (2 ^ 53 - 1 :: int)" using assms(4) by simp
  then have "real_of_int m \<le> real_of_int (2 ^ 53 - 1)" by (simp only: of_int_le_iff)
  then have m2: "real_of_int m \<le> 2 ^ 53 - 1" by simp
  have lo0: "0 \<le> (real_of_int m - 1 / 2) * u" using m1 u by simp
  have hi0: "0 \<le> (real_of_int m + 1 / 2) * u" using m1 u by simp
  have lo: "(real_of_int m - 1 / 2) * u < sqrt a"
    using assms(5) unfolding u_def [symmetric] by (rule real_less_rsqrt)
  have a0: "0 \<le> a" using assms(5) zero_le_power2 [of "(real_of_int m - 1 / 2) * u"]
    unfolding u_def [symmetric] by linarith
  have hi: "sqrt a < (real_of_int m + 1 / 2) * u"
    using hi0 assms(6) unfolding u_def [symmetric] by (intro real_less_lsqrt)
  have k1: "2 powi k = 2 ^ 52 * u" unfolding u_def by (rule two_powi_split)
  have k2: "2 powi (k + 1) = 2 ^ 53 * u" unfolding two_powi_Suc k1 by simp
  have "2 ^ 52 * u \<le> (real_of_int m - 1 / 2) * u" using m1 u by (intro mult_right_mono) simp_all
  with lo have b1: "2 powi k \<le> \<bar>sqrt a\<bar>" unfolding k1 by linarith
  have "(real_of_int m + 1 / 2) * u \<le> 2 ^ 53 * u" using m2 u by (intro mult_right_mono) simp_all
  with hi lo lo0 have b2: "\<bar>sqrt a\<bar> < 2 powi (k + 1)" unfolding k2 by linarith
  have "(real_of_int m - 1 / 2) * u / u < sqrt a / u" using lo u by (rule divide_strict_right_mono)
  moreover have "sqrt a / u < (real_of_int m + 1 / 2) * u / u" using hi u by (rule divide_strict_right_mono)
  ultimately have "real_of_int m - 1 / 2 < sqrt a / u" "sqrt a / u < real_of_int m + 1 / 2"
    using u by simp_all
  then have "\<bar>sqrt a / u - real_of_int m\<bar> < 1 / 2" by linarith
  then have b3: "\<bar>sqrt a / 2 powi (k - 52) - real_of_int m\<bar> < 1 / 2" unfolding u_def .
  from b1 b2 assms(1,2) b3 show ?thesis by (rule roundTo_near)
qed

lemma roundTo_upto_20: "\<bar>x\<bar> \<le> 20 \<Longrightarrow> roundTo x = Fin (fl x)"
  by (rule roundTo_bounded) simp

lemma num_0: "num 0 = Fin 0"
  by (simp add: num_def)

lemma num_1: "num 1 = Fin 1"
  by (simp add: num_def roundTo_near [where k = 0 and m = 4503599627370496])

lemma num_055: "num 0.55 = Fin minScale64"
  by (simp add: num_def minScale64_def roundTo_near [where k = "- 1" and m = 4953959590107546])

text \<open>
  Single operations on the doubles that the counterexamples below go through, each
  with the exponent and the integer that its rounding ends on.
\<close>

lemma step_1: "num 0.2 = Fin (3602879701896397 / 18014398509481984)"
  by (simp add: num_def roundTo_near [where k = "- 3" and m = 7205759403792794])

lemma step_2: "num 0 = Fin 0"
  by (simp add: num_def)

lemma step_3: "num 1 = Fin 1"
  by (simp add: num_def roundTo_near [where k = "0" and m = 4503599627370496])

lemma step_4: "fmin (Fin 1) (Fin (3602879701896397 / 18014398509481984)) = Fin (3602879701896397 / 18014398509481984)"
  by (simp add: fmin_def)

lemma step_5: "fmax (Fin 0) (Fin (3602879701896397 / 18014398509481984)) = Fin (3602879701896397 / 18014398509481984)"
  by (simp add: fmax_def)

lemma step_6: "num 0.55 = Fin (2476979795053773 / 4503599627370496)"
  by (simp add: num_def roundTo_near [where k = "- 1" and m = 4953959590107546])

lemma step_7: "fsub (Fin 1) (Fin (3602879701896397 / 18014398509481984)) = Fin (3602879701896397 / 4503599627370496)"
  by (simp add: fsub_def roundTo_tie [where k = "- 1" and m = 7205759403792793])

lemma step_8: "fmul (Fin (3602879701896397 / 4503599627370496)) (Fin (2476979795053773 / 4503599627370496)) = Fin (3963167672086037 / 9007199254740992)"
  by (simp add:  roundTo_near [where k = "- 2" and m = 7926335344172074])

lemma step_9: "fmul (Fin (3602879701896397 / 18014398509481984)) (Fin 1) = Fin (3602879701896397 / 18014398509481984)"
  by (simp add:  roundTo_near [where k = "- 3" and m = 7205759403792794])

lemma step_10: "fadd (Fin (3963167672086037 / 9007199254740992)) (Fin (3602879701896397 / 18014398509481984)) = Fin (1441151880758559 / 2251799813685248)"
  by (simp add:  roundTo_tie [where k = "- 1" and m = 5764607523034235])

lemma step_11: "fsub (Fin 1) (Fin (2476979795053773 / 4503599627370496)) = Fin (2026619832316723 / 4503599627370496)"
  by (simp add: fsub_def roundTo_near [where k = "- 2" and m = 8106479329266892])

lemma step_12: "fmul (Fin (2026619832316723 / 4503599627370496)) (Fin (3602879701896397 / 18014398509481984)) = Fin (3242591731706757 / 36028797018963968)"
  by (simp add:  roundTo_near [where k = "- 4" and m = 6485183463413514])

lemma step_13: "fadd (Fin (2476979795053773 / 4503599627370496)) (Fin (3242591731706757 / 36028797018963968)) = Fin (5764607523034235 / 9007199254740992)"
  by (simp add:  roundTo_near [where k = "- 1" and m = 5764607523034235])

lemma step_14: "num 0.4596034657377336 = Fin (4139739994069291 / 9007199254740992)"
  by (simp add: num_def roundTo_near [where k = "- 2" and m = 8279479988138582])

lemma step_15: "num 0.45960346573773364 = Fin (8279479988138583 / 18014398509481984)"
  by (simp add: num_def roundTo_near [where k = "- 2" and m = 8279479988138583])

lemma step_16: "fmin (Fin 1) (Fin (4139739994069291 / 9007199254740992)) = Fin (4139739994069291 / 9007199254740992)"
  by (simp add: fmin_def)

lemma step_17: "fmax (Fin 0) (Fin (4139739994069291 / 9007199254740992)) = Fin (4139739994069291 / 9007199254740992)"
  by (simp add: fmax_def)

lemma step_18: "fsub (Fin 1) (Fin (4139739994069291 / 9007199254740992)) = Fin (4867459260671701 / 9007199254740992)"
  by (simp add: fsub_def roundTo_near [where k = "- 1" and m = 4867459260671701])

lemma step_19: "fmul (Fin (4867459260671701 / 9007199254740992)) (Fin (2476979795053773 / 4503599627370496)) = Fin (669275648342359 / 2251799813685248)"
  by (simp add:  roundTo_near [where k = "- 2" and m = 5354205186738872])

lemma step_20: "fmul (Fin (4139739994069291 / 9007199254740992)) (Fin 1) = Fin (4139739994069291 / 9007199254740992)"
  by (simp add:  roundTo_near [where k = "- 2" and m = 8279479988138582])

lemma step_21: "fadd (Fin (669275648342359 / 2251799813685248)) (Fin (4139739994069291 / 9007199254740992)) = Fin (6816842587438727 / 9007199254740992)"
  by (simp add:  roundTo_near [where k = "- 1" and m = 6816842587438727])

lemma step_22: "fmin (Fin 1) (Fin (8279479988138583 / 18014398509481984)) = Fin (8279479988138583 / 18014398509481984)"
  by (simp add: fmin_def)

lemma step_23: "fmax (Fin 0) (Fin (8279479988138583 / 18014398509481984)) = Fin (8279479988138583 / 18014398509481984)"
  by (simp add: fmax_def)

lemma step_24: "fsub (Fin 1) (Fin (8279479988138583 / 18014398509481984)) = Fin (1216864815167925 / 2251799813685248)"
  by (simp add: fsub_def roundTo_tie [where k = "- 1" and m = 4867459260671700])

lemma step_25: "fmul (Fin (1216864815167925 / 2251799813685248)) (Fin (2476979795053773 / 4503599627370496)) = Fin (2677102593369435 / 9007199254740992)"
  by (simp add:  roundTo_near [where k = "- 2" and m = 5354205186738870])

lemma step_26: "fmul (Fin (8279479988138583 / 18014398509481984)) (Fin 1) = Fin (8279479988138583 / 18014398509481984)"
  by (simp add:  roundTo_near [where k = "- 2" and m = 8279479988138583])

lemma step_27: "fadd (Fin (2677102593369435 / 9007199254740992)) (Fin (8279479988138583 / 18014398509481984)) = Fin (3408421293719363 / 4503599627370496)"
  by (simp add:  roundTo_tie [where k = "- 1" and m = 6816842587438726])

lemma step_28: "fmin (Fin 1) (Fin (1 / 2)) = Fin (1 / 2)"
  by (simp add: fmin_def)

lemma step_29: "fmax (Fin 0) (Fin (1 / 2)) = Fin (1 / 2)"
  by (simp add: fmax_def)

lemma step_30: "fsub (Fin 1) (Fin (1 / 2)) = Fin (1 / 2)"
  by (simp add: fsub_def roundTo_near [where k = "- 1" and m = 4503599627370496])

lemma step_31: "fmul (Fin (1 / 2)) (Fin (2476979795053773 / 4503599627370496)) = Fin (2476979795053773 / 9007199254740992)"
  by (simp add:  roundTo_near [where k = "- 2" and m = 4953959590107546])

lemma step_32: "fmul (Fin (1 / 2)) (Fin 1) = Fin (1 / 2)"
  by (simp add:  roundTo_near [where k = "- 1" and m = 4503599627370496])

lemma step_33: "fadd (Fin (2476979795053773 / 9007199254740992)) (Fin (1 / 2)) = Fin (6980579422424269 / 9007199254740992)"
  by (simp add:  roundTo_near [where k = "- 1" and m = 6980579422424269])

lemma step_34: "num 180 = Fin 180"
  by (simp add: num_def roundTo_near [where k = "7" and m = 6333186975989760])

lemma step_35: "num 2 = Fin 2"
  by (simp add: num_def roundTo_near [where k = "1" and m = 4503599627370496])

lemma step_36: "num 90 = Fin 90"
  by (simp add: num_def roundTo_near [where k = "6" and m = 6333186975989760])

lemma step_37: "num 20 = Fin 20"
  by (simp add: num_def roundTo_near [where k = "4" and m = 5629499534213120])

lemma step_38: "fdiv (Fin (884279719003555 / 281474976710656)) (Fin 180) = Fin (5030569068109113 / 288230376151711744)"
  by (simp add:  roundTo_near [where k = "- 6" and m = 5030569068109113])

lemma step_39: "fdiv (Fin (884279719003555 / 281474976710656)) (Fin 2) = Fin (884279719003555 / 562949953421312)"
  by (simp add:  roundTo_near [where k = "0" and m = 7074237752028440])

lemma step_40: "num (- 179.99999999999997) = Fin (- (6333186975989759 / 35184372088832))"
  by (simp add: num_def roundTo_near [where k = "7" and m = "- 6333186975989759"])

lemma step_41: "fmul (Fin 0) (Fin (5030569068109113 / 288230376151711744)) = Fin 0"
  by simp

lemma step_42: "fmul (Fin (- (6333186975989759 / 35184372088832))) (Fin (5030569068109113 / 288230376151711744)) = Fin (- (7074237752028439 / 2251799813685248))"
  by (simp add:  roundTo_near [where k = "1" and m = "- 7074237752028439"])

lemma step_43: "fsub (Fin (884279719003555 / 562949953421312)) (Fin 0) = Fin (884279719003555 / 562949953421312)"
  by (simp add: fsub_def roundTo_near [where k = "0" and m = 7074237752028440])

lemma step_44: "fadd (Fin (- (7074237752028439 / 2251799813685248))) (Fin (884279719003555 / 281474976710656)) = Fin (1 / 2251799813685248)"
  by (simp add:  roundTo_near [where k = "- 51" and m = 4503599627370496])

lemma step_45: "fadd (Fin 20) (Fin 0) = Fin 20"
  by (simp add:  roundTo_near [where k = "4" and m = 5629499534213120])

lemma step_46: "fsub (Fin 90) (Fin 0) = Fin 90"
  by (simp add: fsub_def roundTo_near [where k = "6" and m = 6333186975989760])

lemma step_47: "fmul (Fin 90) (Fin (5030569068109113 / 288230376151711744)) = Fin (884279719003555 / 562949953421312)"
  by (simp add:  roundTo_near [where k = "0" and m = 7074237752028440])

lemma step_48: "fadd (Fin (- (6333186975989759 / 35184372088832))) (Fin 180) = Fin (1 / 35184372088832)"
  by (simp add:  roundTo_near [where k = "- 45" and m = 4503599627370496])

lemma step_49: "fmul (Fin (1 / 35184372088832)) (Fin (5030569068109113 / 288230376151711744)) = Fin (5030569068109113 / 10141204801825835211973625643008)"
  by (simp add:  roundTo_near [where k = "- 51" and m = 5030569068109113])

lemma step_50: "num 77.5946 = Fin (5460234556968167 / 70368744177664)"
  by (simp add: num_def roundTo_near [where k = "6" and m = 5460234556968167])

lemma step_51: "fmul (Fin (5460234556968167 / 70368744177664)) (Fin (5030569068109113 / 288230376151711744)) = Fin (3049570270408589 / 2251799813685248)"
  by (simp add:  roundTo_near [where k = "0" and m = 6099140540817178])

lemma step_52: "fadd (Fin (3049570270408589 / 2251799813685248)) (Fin (884279719003555 / 281474976710656)) = Fin (2530952005609257 / 562949953421312)"
  by (simp add:  roundTo_tie [where k = "2" and m = 5061904011218514])

lemma step_53: "fadd (Fin (5460234556968167 / 70368744177664)) (Fin 180) = Fin (2265826063618461 / 8796093022208)"
  by (simp add:  roundTo_near [where k = "8" and m = 4531652127236922])

lemma step_54: "fmul (Fin (2265826063618461 / 8796093022208)) (Fin (5030569068109113 / 288230376151711744)) = Fin (5061904011218515 / 1125899906842624)"
  by (simp add:  roundTo_near [where k = "2" and m = 5061904011218515])

lemma step_55: "num (- 180) = Fin (- 180)"
  by (simp add: num_def roundTo_near [where k = "7" and m = "- 6333186975989760"])

lemma step_56: "num (10 ^ 200) = Fin 99999999999999996973312221251036165947450327545502362648241750950346848435554075534196338404706251868027512415973882408182135734368278484639385041047239877871023591066789981811181813306167128854888448"
  by (simp add: num_def roundTo_near [where k = "664" and m = 5883593420661338])

lemma step_57: "num 0.000001 = Fin (4722366482869645 / 4722366482869645213696)"
  by (simp add: num_def roundTo_near [where k = "- 20" and m = 4722366482869645])

lemma step_58: "fmul (Fin (- 180)) (Fin (5030569068109113 / 288230376151711744)) = Fin (- (884279719003555 / 281474976710656))"
  by (simp add:  roundTo_near [where k = "1" and m = "- 7074237752028440"])

lemma step_59: "fsub (Fin (884279719003555 / 562949953421312)) (Fin (884279719003555 / 562949953421312)) = Fin 0"
  by (simp add: fsub_def)

lemma step_60: "fadd (Fin (- (884279719003555 / 281474976710656))) (Fin (884279719003555 / 281474976710656)) = Fin 0"
  by simp

lemma step_61: "fadd (Fin 20) (Fin 99999999999999996973312221251036165947450327545502362648241750950346848435554075534196338404706251868027512415973882408182135734368278484639385041047239877871023591066789981811181813306167128854888448) = Fin 99999999999999996973312221251036165947450327545502362648241750950346848435554075534196338404706251868027512415973882408182135734368278484639385041047239877871023591066789981811181813306167128854888448"
  by (simp add:  roundTo_near [where k = "664" and m = 5883593420661338])

lemma step_62: "fsin (Fin 0) = Fin 0"
  by simp

lemma step_63: "fcos (Fin 0) = Fin 1"
  by (simp add: roundTo_near [where k = "0" and m = 4503599627370496])

lemma step_64: "fneg (Fin 99999999999999996973312221251036165947450327545502362648241750950346848435554075534196338404706251868027512415973882408182135734368278484639385041047239877871023591066789981811181813306167128854888448) = Fin (- 99999999999999996973312221251036165947450327545502362648241750950346848435554075534196338404706251868027512415973882408182135734368278484639385041047239877871023591066789981811181813306167128854888448)"
  by simp

lemma step_65: "fmul (Fin (- 99999999999999996973312221251036165947450327545502362648241750950346848435554075534196338404706251868027512415973882408182135734368278484639385041047239877871023591066789981811181813306167128854888448)) (Fin 0) = Fin 0"
  by simp

lemma step_66: "fmul (Fin 0) (Fin 1) = Fin 0"
  by simp

lemma step_67: "fmul (Fin 99999999999999996973312221251036165947450327545502362648241750950346848435554075534196338404706251868027512415973882408182135734368278484639385041047239877871023591066789981811181813306167128854888448) (Fin 0) = Fin 0"
  by simp

lemma step_68: "fmul (Fin 0) (Fin 0) = Fin 0"
  by simp

lemma step_69: "fmul (Fin 99999999999999996973312221251036165947450327545502362648241750950346848435554075534196338404706251868027512415973882408182135734368278484639385041047239877871023591066789981811181813306167128854888448) (Fin 1) = Fin 99999999999999996973312221251036165947450327545502362648241750950346848435554075534196338404706251868027512415973882408182135734368278484639385041047239877871023591066789981811181813306167128854888448"
  by (simp add:  roundTo_near [where k = "664" and m = 5883593420661338])

lemma step_70: "fmul (Fin 99999999999999996973312221251036165947450327545502362648241750950346848435554075534196338404706251868027512415973882408182135734368278484639385041047239877871023591066789981811181813306167128854888448) (Fin 99999999999999996973312221251036165947450327545502362648241750950346848435554075534196338404706251868027512415973882408182135734368278484639385041047239877871023591066789981811181813306167128854888448) = PInf"
  by (simp add: roundTo_overflow)

lemma step_71: "fadd (Fin 0) PInf = PInf"
  by simp

lemma step_72: "fadd PInf (Fin 0) = PInf"
  by simp

lemma step_73: "fsqrt PInf = PInf"
  by simp

lemma step_74: "orNum64 PInf (Fin 1) = PInf"
  by (simp add: orNum64_def)

lemma step_75: "fdiv (Fin 1) PInf = Fin 0"
  by simp

lemma step_76: "fmul (Fin 1) (Fin 0) = Fin 0"
  by simp

lemma step_77: "fsub (Fin 0) (Fin 0) = Fin 0"
  by (simp add: fsub_def)

lemma step_78: "fadd (Fin 0) (Fin 0) = Fin 0"
  by simp

lemma step_79: "fsqrt (Fin 0) = Fin 0"
  by simp

lemma step_80: "orNum64 (Fin 0) (Fin 1) = Fin 1"
  by (simp add: orNum64_def)

lemma step_81: "fdiv (Fin 1) (Fin 1) = Fin 1"
  by (simp add:  roundTo_near [where k = "0" and m = 4503599627370496])

lemma step_82: "flt (Fin 0) (Fin (4722366482869645 / 4722366482869645213696))"
  by simp

lemma step_83: "num 0.15 = Fin (5404319552844595 / 36028797018963968)"
  by (simp add: num_def roundTo_near [where k = "- 3" and m = 5404319552844595])

lemma step_84: "fadd (Fin 20) (Fin (5404319552844595 / 36028797018963968)) = Fin (2835860390359859 / 140737488355328)"
  by (simp add:  roundTo_near [where k = "4" and m = 5671720780719718])

lemma step_85: "fadd (Fin 0) (Fin (884279719003555 / 281474976710656)) = Fin (884279719003555 / 281474976710656)"
  by (simp add:  roundTo_near [where k = "1" and m = 7074237752028440])

lemma step_86: "fneg (Fin (2835860390359859 / 140737488355328)) = Fin (- (2835860390359859 / 140737488355328))"
  by simp

lemma step_87: "fmul (Fin (- (2835860390359859 / 140737488355328))) (Fin 0) = Fin 0"
  by simp

lemma step_88: "fmul (Fin (2835860390359859 / 140737488355328)) (Fin 0) = Fin 0"
  by simp

lemma step_89: "fmul (Fin (2835860390359859 / 140737488355328)) (Fin 1) = Fin (2835860390359859 / 140737488355328)"
  by (simp add:  roundTo_near [where k = "4" and m = 5671720780719718])

lemma step_90: "fmul (Fin (2835860390359859 / 140737488355328)) (Fin (2835860390359859 / 140737488355328)) = Fin (3571411679109447 / 8796093022208)"
  by (simp add:  roundTo_near [where k = "8" and m = 7142823358218894])

lemma step_91: "fadd (Fin 0) (Fin (3571411679109447 / 8796093022208)) = Fin (3571411679109447 / 8796093022208)"
  by (simp add:  roundTo_near [where k = "8" and m = 7142823358218894])

lemma step_92: "fadd (Fin (3571411679109447 / 8796093022208)) (Fin 0) = Fin (3571411679109447 / 8796093022208)"
  by (simp add:  roundTo_near [where k = "8" and m = 7142823358218894])

lemma step_93: "fsqrt (Fin (3571411679109447 / 8796093022208)) = Fin (2835860390359859 / 140737488355328)"
  by (simp add: power2_eq_square roundTo_sqrt_near [where k = "4" and m = 5671720780719718])

lemma step_94: "orNum64 (Fin (2835860390359859 / 140737488355328)) (Fin 1) = Fin (2835860390359859 / 140737488355328)"
  by (simp add: orNum64_def)

lemma step_95: "fdiv (Fin 1) (Fin (2835860390359859 / 140737488355328)) = Fin (7152118514930813 / 144115188075855872)"
  by (simp add:  roundTo_near [where k = "- 5" and m = 7152118514930813])

lemma step_96: "fmul (Fin 0) (Fin (7152118514930813 / 144115188075855872)) = Fin 0"
  by simp

lemma step_97: "fmul (Fin (2835860390359859 / 140737488355328)) (Fin (7152118514930813 / 144115188075855872)) = Fin 1"
  by (simp add:  roundTo_near [where k = "- 1" and m = 9007199254740992])

lemma step_98: "fmul (Fin 1) (Fin 1) = Fin 1"
  by (simp add:  roundTo_near [where k = "0" and m = 4503599627370496])

lemma step_99: "fmul (Fin 0) (Fin (- 1)) = Fin 0"
  by simp

lemma step_100: "fmul (Fin 1) (Fin (- 1)) = Fin (- 1)"
  by (simp add:  roundTo_near [where k = "0" and m = "- 4503599627370496"])

lemma step_101: "fmul (Fin (- 1)) (Fin (- 1)) = Fin 1"
  by (simp add:  roundTo_near [where k = "0" and m = 4503599627370496])

lemma step_102: "fmul (Fin (- 1)) (Fin 1) = Fin (- 1)"
  by (simp add:  roundTo_near [where k = "0" and m = "- 4503599627370496"])

lemma step_103: "fsub (Fin 0) (Fin 1) = Fin (- 1)"
  by (simp add: fsub_def roundTo_near [where k = "0" and m = "- 4503599627370496"])

lemma step_104: "fsub (Fin 0) (Fin (- 1)) = Fin 1"
  by (simp add: fsub_def roundTo_near [where k = "0" and m = 4503599627370496])

lemma step_105: "fsub (Fin 1) (Fin 0) = Fin 1"
  by (simp add: fsub_def roundTo_near [where k = "0" and m = 4503599627370496])

lemma step_106: "fadd (Fin 1) (Fin 0) = Fin 1"
  by (simp add:  roundTo_near [where k = "0" and m = 4503599627370496])

lemma step_107: "fadd (Fin 0) (Fin 1) = Fin 1"
  by (simp add:  roundTo_near [where k = "0" and m = 4503599627370496])

lemma step_108: "fsqrt (Fin 1) = Fin 1"
  by (simp add: roundTo_near [where k = "0" and m = 4503599627370496])

lemma step_109: "orNum64 (Fin 1) (Fin 1) = Fin 1"
  by (simp add: orNum64_def)

lemmas f64_steps = step_1 step_2 step_3 step_4 step_5 step_6 step_7 step_8 step_9 step_10 step_11 step_12 step_13 step_14 step_15 step_16 step_17 step_18 step_19 step_20 step_21 step_22 step_23 step_24 step_25 step_26 step_27 step_28 step_29 step_30 step_31 step_32 step_33 step_34 step_35 step_36 step_37 step_38 step_39 step_40 step_41 step_42 step_43 step_44 step_45 step_46 step_47 step_48 step_49 step_50 step_51 step_52 step_53 step_54 step_55 step_56 step_57 step_58 step_59 step_60 step_61 step_62 step_63 step_64 step_65 step_66 step_67 step_68 step_69 step_70 step_71 step_72 step_73 step_74 step_75 step_76 step_77 step_78 step_79 step_80 step_81 step_82 step_83 step_84 step_85 step_86 step_87 step_88 step_89 step_90 step_91 step_92 step_93 step_94 step_95 step_96 step_97 step_98 step_99 step_100 step_101 step_102 step_103 step_104 step_105 step_106 step_107 step_108 step_109

text \<open>
  The scale factor of a marker in binary64: it stays between the double 0.55 and 1 for
  every \<open>t\<close> from 0 to 1, by the monotonicity of rounding and a bound on its error.
\<close>

lemma fl_1: "fl 1 = 1"
  by (subst fl_near [where k = 0 and m = 4503599627370496]) simp_all

lemma fl_minScale64: "fl minScale64 = minScale64"
  unfolding minScale64_def by (subst fl_near [where k = "- 1" and m = 4953959590107546]) simp_all

lemma fl_3_4: "fl (3 / 4) = 3 / 4"
  by (subst fl_near [where k = "- 1" and m = 6755399441055744]) simp_all

lemma fl_1_2: "fl (1 / 2) = 1 / 2"
  by (subst fl_near [where k = "- 1" and m = 4503599627370496]) simp_all

lemma fl_below_1_tie: "fl (1 - 1 / 2 ^ 54) = 1"
  by (subst fl_tie [where k = "- 1" and m = 9007199254740991]) simp_all

lemma fl_below_1: "fl (1 - 1 / 2 ^ 53) = 1 - 1 / 2 ^ 53"
  by (subst fl_near [where k = "- 1" and m = 9007199254740991]) simp_all

lemma fl_minScale64_scaled: "fl ((1 - 1 / 2 ^ 53) * minScale64) = minScale64 - 1 / 2 ^ 53"
  unfolding minScale64_def by (subst fl_near [where k = "- 1" and m = 4953959590107545]) simp_all

lemma fl_minScale64_tie: "fl (minScale64 - 1 / 2 ^ 54) = minScale64"
  unfolding minScale64_def by (subst fl_tie [where k = "- 1" and m = 4953959590107545]) simp_all

lemma fl_one_minus_exact:
  assumes "fl t = t" and "1 / 2 \<le> t" and "t \<le> 1"
  shows "fl (1 - t) = 1 - t"
proof (cases "t = 1")
  case True
  then show ?thesis by simp
next
  case False
  with assms have t: "\<bar>t\<bar> < 2 powi (- 1 + 1)" "2 powi (- 1) \<le> \<bar>t\<bar>" by simp_all
  from binade_eq [OF t(2) t(1)] have "ulp t = 2 powi (- 53)" by (simp add: ulp_def)
  with assms(1) have "t = real_of_int (roundEven (t / 2 powi (- 53))) * 2 powi (- 53)"
    by (simp add: fl_def)
  then obtain n :: int where n: "t = real_of_int n * 2 powi (- 53)" ..
  have "1 - t = real_of_int (2 ^ 53 - n) * 2 powi (- 53)"
    by (subst n) (simp add: left_diff_distrib)
  moreover have "binade (1 - t) - 52 \<le> - 53"
    using binade_below_one [of "1 - t"] assms False by simp
  ultimately show ?thesis by (rule fl_exact)
qed

lemma lerp_upper:
  assumes "fl t = t" and "0 \<le> t" and "t \<le> 1"
  shows "fl (fl (fl (1 - t) * minScale64) + t) \<le> 1"
proof -
  have c: "0 \<le> minScale64" "minScale64 \<le> 3 / 5" by (simp_all add: minScale64_def)
  have u0: "0 \<le> fl (1 - t)" using assms by (intro fl_nonneg) simp
  have "fl (fl (1 - t) * minScale64) + t \<le> 1"
  proof -
    consider "t \<le> 1 / 4" | "1 / 4 \<le> t" "t \<le> 1 / 2" | "1 / 2 \<le> t" by linarith
    then show ?thesis
    proof cases
      case 1
      have "fl (1 - t) \<le> fl 1" using assms by (intro fl_mono) simp
      then have "fl (1 - t) * minScale64 \<le> 1 * minScale64" unfolding fl_1 using c by (intro mult_right_mono)
      then have "fl (fl (1 - t) * minScale64) \<le> fl minScale64" by (intro fl_mono) simp
      with 1 c show ?thesis unfolding fl_minScale64 by linarith
    next
      case 2
      have "fl (1 - t) \<le> fl (3 / 4)" using 2 by (intro fl_mono) simp
      then have "fl (1 - t) * minScale64 \<le> 3 / 4 * minScale64" unfolding fl_3_4 using c by (intro mult_right_mono)
      with c have "fl (1 - t) * minScale64 \<le> 1 / 2" by linarith
      then have "fl (fl (1 - t) * minScale64) \<le> fl (1 / 2)" by (rule fl_mono)
      with 2 show ?thesis unfolding fl_1_2 by linarith
    next
      case 3
      from fl_one_minus_exact [OF assms(1) 3 assms(3)] have u: "fl (1 - t) = 1 - t" .
      have "(1 - t) * minScale64 \<le> (1 - t) * 1" using c assms by (intro mult_left_mono) simp_all
      then have "fl ((1 - t) * minScale64) \<le> fl (1 - t)" by (intro fl_mono) simp
      then show ?thesis unfolding u by linarith
    qed
  qed
  then have "fl (fl (fl (1 - t) * minScale64) + t) \<le> fl 1" by (rule fl_mono)
  then show ?thesis unfolding fl_1 .
qed

lemma lerp_lower:
  assumes "0 \<le> t" and "t \<le> 1"
  shows "minScale64 \<le> fl (fl (fl (1 - t) * minScale64) + t)"
proof -
  have c: "0 \<le> minScale64" "minScale64 \<le> 3 / 5" "1 / 2 \<le> minScale64" by (simp_all add: minScale64_def)
  have "minScale64 - 1 / 2 ^ 54 \<le> fl (fl (1 - t) * minScale64) + t"
  proof -
    consider "t \<le> 1 / 2 ^ 54" | "1 / 2 ^ 54 \<le> t" "t \<le> 1 / 2 ^ 53" | "1 / 2 ^ 53 \<le> t"
      by linarith
    then show ?thesis
    proof cases
      case 1
      then have "fl (1 - 1 / 2 ^ 54) \<le> fl (1 - t)" by (intro fl_mono) simp
      then have "1 * minScale64 \<le> fl (1 - t) * minScale64"
        unfolding fl_below_1_tie using c by (intro mult_right_mono)
      then have "fl minScale64 \<le> fl (fl (1 - t) * minScale64)" by (intro fl_mono) simp
      with assms show ?thesis unfolding fl_minScale64 by simp
    next
      case 2
      then have "fl (1 - 1 / 2 ^ 53) \<le> fl (1 - t)" by (intro fl_mono) simp
      then have "(1 - 1 / 2 ^ 53) * minScale64 \<le> fl (1 - t) * minScale64"
        unfolding fl_below_1 using c by (intro mult_right_mono)
      then have "fl ((1 - 1 / 2 ^ 53) * minScale64) \<le> fl (fl (1 - t) * minScale64)" by (rule fl_mono)
      with 2 show ?thesis unfolding fl_minScale64_scaled by simp
    next
      case 3
      have e1: "\<bar>fl (1 - t) - (1 - t)\<bar> \<le> 1 / 2 ^ 54"
        using assms by (intro fl_error_unit) simp
      have u0: "0 \<le> fl (1 - t)" using assms by (intro fl_nonneg) simp
      have "fl (1 - t) \<le> fl 1" using assms by (intro fl_mono) simp
      then have u1: "fl (1 - t) \<le> 1" unfolding fl_1 .
      have "fl (1 - t) * minScale64 \<le> 1 * 1" using u0 u1 c by (intro mult_mono) simp_all
      moreover have "0 \<le> fl (1 - t) * minScale64" using u0 c by simp
      ultimately have e2: "\<bar>fl (fl (1 - t) * minScale64) - fl (1 - t) * minScale64\<bar> \<le> 1 / 2 ^ 54"
        by (intro fl_error_unit) simp
      have "(1 - t - 1 / 2 ^ 54) * minScale64 \<le> fl (1 - t) * minScale64"
        using e1 c by (intro mult_right_mono) linarith+
      moreover have "(1 - t - 1 / 2 ^ 54) * minScale64 = minScale64 - t * minScale64 - minScale64 / 2 ^ 54"
        by (simp add: algebra_simps)
      moreover have "t * minScale64 \<le> t * (3 / 5)" using c assms by (intro mult_left_mono) simp_all
      moreover have "minScale64 / 2 ^ 54 \<le> (3 / 5) / 2 ^ 54" using c by (intro divide_right_mono) simp_all
      ultimately have e3: "minScale64 - t * (3 / 5) - (3 / 5) / 2 ^ 54 \<le> fl (1 - t) * minScale64" by linarith
      define hh :: real where "hh = 1 / 2 ^ 54"
      have hh: "1 / 2 ^ 54 = hh" "1 / 2 ^ 53 = 2 * hh" "(3 / 5) / 2 ^ 54 = (3 / 5) * hh" "0 < hh"
        by (simp_all add: hh_def)
      from e2 [unfolded hh] have "fl (1 - t) * minScale64 - hh \<le> fl (fl (1 - t) * minScale64)" by linarith
      with e3 [unfolded hh] 3 [unfolded hh] hh(4) show ?thesis unfolding hh by linarith
    qed
  qed
  then have "fl (minScale64 - 1 / 2 ^ 54) \<le> fl (fl (fl (1 - t) * minScale64) + t)" by (rule fl_mono)
  then show ?thesis unfolding fl_minScale64_tie .
qed

lemma scaleFactor64_Fin:
  assumes "fl t = t" and "0 \<le> t" and "t \<le> 1"
  shows "lerp64 (num 0.55) (num 1) (Fin t) = Fin (fl (fl (fl (1 - t) * minScale64) + t))"
proof -
  have c: "0 \<le> minScale64" "minScale64 \<le> 1" by (simp_all add: minScale64_def)
  have u0: "0 \<le> fl (1 - t)" using assms by (intro fl_nonneg) simp
  have "fl (1 - t) \<le> fl 1" using assms by (intro fl_mono) simp
  then have u1: "fl (1 - t) \<le> 1" unfolding fl_1 .
  have p0: "0 \<le> fl (1 - t) * minScale64" using u0 c by simp
  have p1: "fl (1 - t) * minScale64 \<le> 1 * 1" using u0 u1 c by (intro mult_mono) simp_all
  have a0: "0 \<le> fl (fl (1 - t) * minScale64)" using p0 by (rule fl_nonneg)
  have "fl (fl (1 - t) * minScale64) \<le> fl 1" using p1 by (intro fl_mono) simp
  then have a1: "fl (fl (1 - t) * minScale64) \<le> 1" unfolding fl_1 .
  have big: "(2::real) \<le> 2 ^ 1023" by simp
  have r1: "roundTo (1 - t) = Fin (fl (1 - t))"
    using assms big by (intro roundTo_bounded) simp
  have r2: "roundTo (fl (1 - t) * minScale64) = Fin (fl (fl (1 - t) * minScale64))"
    using p0 p1 big by (intro roundTo_bounded) simp
  have r3: "roundTo t = Fin t"
    using roundTo_bounded [of t] assms big by simp
  have r4: "roundTo (fl (fl (1 - t) * minScale64) + t) = Fin (fl (fl (fl (1 - t) * minScale64) + t))"
    using a0 a1 assms big by (intro roundTo_bounded) simp
  show ?thesis
    unfolding lerp64_def num_055 num_1 fsub_def by (simp add: r1 r2 r3 r4)
qed

lemma clamp64_positive:
  assumes "isDouble d" and "flt (num 0) d"
  shows "\<exists>t. clamp64 d (num 0) (num 1) = Fin t \<and> fl t = t \<and> 0 \<le> t \<and> t \<le> 1"
proof (cases d)
  case (Fin x)
  with assms have "fl x = x" "0 < x" by (simp_all add: num_0)
  then show ?thesis
    unfolding Fin clamp64_def num_0 num_1 by (auto simp: fmin_def fmax_def fl_1)
next
  case PInf
  show ?thesis unfolding PInf clamp64_def num_0 num_1 by (simp add: fmin_def fmax_def fl_1)
next
  case NInf
  with assms show ?thesis by (simp add: num_0)
next
  case NaN
  with assms show ?thesis by (simp add: num_0)
qed

lemma scaleFactor64_bounds:
  assumes "isDouble d" and "flt (num 0) d"
  shows "\<exists>s. scaleFactor64 d = Fin s \<and> 0.55 \<le> s \<and> s \<le> 1"
proof -
  from clamp64_positive [OF assms] obtain t where
    t: "clamp64 d (num 0) (num 1) = Fin t" "fl t = t" "0 \<le> t" "t \<le> 1" by blast
  have "(0.55::real) \<le> minScale64" by (simp add: minScale64_def)
  with lerp_lower [OF t(3,4)] lerp_upper [OF t(2,3,4)] scaleFactor64_Fin [OF t(2,3,4)]
  show ?thesis unfolding scaleFactor64_def t(1) by simp
qed

lemma scaleFactor64_at_02: "scaleFactor64 (num 0.2) = Fin (1441151880758559 / 2251799813685248)"
  by (simp only: scaleFactor64_def lerp64_def clamp64_def f64_steps)

lemma claimedScale64_at_02: "claimedScale64 (num 0.2) = Fin (5764607523034235 / 9007199254740992)"
  by (simp only: claimedScale64_def clamp64_def f64_steps)

lemma scaleFactor64_not_monotone:
  "flt (num 0.4596034657377336) (num 0.45960346573773364) \<and>
   flt (scaleFactor64 (num 0.45960346573773364)) (scaleFactor64 (num 0.4596034657377336))"
  by (simp only: scaleFactor64_def lerp64_def clamp64_def f64_steps flt.simps) simp

text \<open>The two projections near the antimeridian, and bounds on the sines they take.\<close>

lemma marker_z_near_antimeridian:
  "vz64 (latLonToVector3_64 (num 0) (num (- 179.99999999999997)) (num 20) (num 0)) =
     fmul (fmul (Fin 20) (fsin (Fin (884279719003555 / 562949953421312)))) (fsin (Fin (1 / 2251799813685248)))"
  by (simp only: latLonToVector3_64_def degToRad64_def DEG2RAD64_def PI64_def Let_def
      Vector3_64.sel f64_steps)

lemma dot_z_near_antimeridian:
  "vz64 (posFromLatLon64 (num (- 179.99999999999997)) (num 0)) =
     fmul (fmul (Fin 20) (fsin (Fin (884279719003555 / 562949953421312)))) (fsin (Fin (5030569068109113 / 10141204801825835211973625643008)))"
  by (simp only: posFromLatLon64_def dotSphereRadius64_def PI64_def Let_def
      Vector3_64.sel f64_steps)

lemma bengaluru_theta:
  "fadd (degToRad64 (num 77.5946)) PI64 = Fin (2530952005609257 / 562949953421312) \<and>
   fmul (fadd (num 77.5946) (num 180)) (fdiv PI64 (num 180)) = Fin (5061904011218515 / 1125899906842624)"
  by (simp only: degToRad64_def DEG2RAD64_def PI64_def f64_steps simp_thms)

lemma sin_Maclaurin_2: "x - x\<^sup>2 / 2 \<le> sin x" for x :: real
proof -
  have "{..<2::nat} = {0, 1}" by auto
  then have "(\<Sum>m<2. sin_coeff m * x ^ m) = x"
    by (simp add: sin_coeff_def)
  with Maclaurin_sin_bound [of x 2] have "\<bar>sin x - x\<bar> \<le> inverse (fact 2) * \<bar>x\<bar> ^ 2"
    by simp
  moreover have "inverse (fact 2) * \<bar>x\<bar> ^ 2 = x\<^sup>2 / 2"
    by (simp add: fact_numeral)
  ultimately show ?thesis by linarith
qed

lemma sin_Maclaurin_4: "x - x ^ 3 / 6 - x ^ 4 / 24 \<le> sin x" for x :: real
proof -
  have "{..<4::nat} = {0, 1, 2, 3}" by auto
  then have "(\<Sum>m<4. sin_coeff m * x ^ m) = x - x ^ 3 / 6"
    by (simp add: sin_coeff_def fact_numeral)
  with Maclaurin_sin_bound [of x 4] have "\<bar>sin x - (x - x ^ 3 / 6)\<bar> \<le> inverse (fact 4) * \<bar>x\<bar> ^ 4"
    by simp
  moreover have "inverse (fact 4) * \<bar>x\<bar> ^ 4 = x ^ 4 / 24"
    by (simp add: fact_numeral)
  ultimately show ?thesis by linarith
qed

lemma sin_half_pi64: "1 / 2 \<le> sin (884279719003555 / 562949953421312 :: real)"
proof -
  have "(1::real) / 2 \<le> 884279719003555 / 562949953421312 - (884279719003555 / 562949953421312) ^ 3 / 6 - (884279719003555 / 562949953421312) ^ 4 / 24"
    by (simp add: power_divide)
  with sin_Maclaurin_4 [of "884279719003555 / 562949953421312"] show ?thesis by linarith
qed

lemma fl_10: "fl 10 = 10"
  by (subst fl_near [where k = 3 and m = 5629499534213120]) simp_all

lemma fl_20: "fl 20 = 20"
  by (subst fl_near [where k = 4 and m = 5629499534213120]) simp_all

lemma fl_theta1: "fl (1 / 2 ^ 51) = 1 / 2 ^ 51"
  by (subst fl_near [where k = "- 51" and m = 4503599627370496]) simp_all

lemma fl_17: "fl (17 / 2 ^ 55) = 17 / 2 ^ 55"
  by (subst fl_near [where k = "- 51" and m = 4785074604081152]) simp_all

lemma z_differs:
  "fmul (fmul (Fin 20) (fsin (Fin (884279719003555 / 562949953421312)))) (fsin (Fin (1 / 2251799813685248))) \<noteq>
   fmul (fmul (Fin 20) (fsin (Fin (884279719003555 / 562949953421312)))) (fsin (Fin (5030569068109113 / 10141204801825835211973625643008)))"
proof -
  let ?H = "884279719003555 / 562949953421312 :: real"
  let ?t1 = "1 / 2251799813685248 :: real"
  let ?t2 = "5030569068109113 / 10141204801825835211973625643008 :: real"
  define S where "S = fl (sin ?H)"
  define A where "A = fl (20 * S)"
  define s1 where "s1 = fl (sin ?t1)"
  define s2 where "s2 = fl (sin ?t2)"
  have "fl (1 / 2) \<le> fl (sin ?H)" using sin_half_pi64 by (rule fl_mono)
  moreover have "fl (sin ?H) \<le> fl 1" by (intro fl_mono) simp
  ultimately have S: "1 / 2 \<le> S" "S \<le> 1" unfolding fl_1_2 fl_1 S_def by simp_all
  have "fl 10 \<le> fl (20 * S)" using S by (intro fl_mono) simp
  moreover have "fl (20 * S) \<le> fl 20" using S by (intro fl_mono) simp
  ultimately have A: "10 \<le> A" "A \<le> 20" unfolding fl_10 fl_20 A_def by simp_all
  have "sin ?t1 \<le> ?t1" by (intro sin_x_le_x) simp
  then have "fl (sin ?t1) \<le> fl (1 / 2 ^ 51)" by (intro fl_mono) simp
  moreover have "0 \<le> sin ?t1" using pi_ge_two by (intro sin_ge_zero) simp_all
  then have "0 \<le> fl (sin ?t1)" by (rule fl_nonneg)
  ultimately have s1: "0 \<le> s1" "s1 \<le> 1 / 2 ^ 51" unfolding fl_theta1 s1_def by simp_all
  have "(17::real) / 2 ^ 55 \<le> ?t2 - ?t2\<^sup>2 / 2" by (simp add: power_divide)
  with sin_Maclaurin_2 [of ?t2] have "17 / 2 ^ 55 \<le> sin ?t2" by linarith
  then have "fl (17 / 2 ^ 55) \<le> fl (sin ?t2)" by (rule fl_mono)
  moreover have "fl (sin ?t2) \<le> fl 1" by (intro fl_mono) simp
  ultimately have s2: "17 / 2 ^ 55 \<le> s2" "s2 \<le> 1" unfolding fl_17 fl_1 s2_def by simp_all
  have fH: "fsin (Fin ?H) = Fin S"
    unfolding S_def fsin.simps by (intro roundTo_upto_20) (use abs_sin_le_one [of ?H] in linarith)
  have f1: "fsin (Fin ?t1) = Fin s1"
    unfolding s1_def fsin.simps by (intro roundTo_upto_20) (use abs_sin_le_one [of ?t1] in linarith)
  have f2: "fsin (Fin ?t2) = Fin s2"
    unfolding s2_def fsin.simps by (intro roundTo_upto_20) (use abs_sin_le_one [of ?t2] in linarith)
  have mA: "fmul (Fin 20) (Fin S) = Fin A"
    unfolding A_def fmul.simps using S by (intro roundTo_upto_20) simp
  have "0 \<le> A * s1" "A * s1 \<le> 20 * 1" using A s1 by (simp, intro mult_mono, simp_all)
  then have z1: "fmul (Fin A) (Fin s1) = Fin (fl (A * s1))"
    unfolding fmul.simps by (intro roundTo_upto_20) simp
  have "0 \<le> A * s2" "A * s2 \<le> 20 * 1" using A s2 by (simp, intro mult_mono, simp_all)
  then have z2: "fmul (Fin A) (Fin s2) = Fin (fl (A * s2))"
    unfolding fmul.simps by (intro roundTo_upto_20) simp
  have "fl (A * s1) < fl (A * s2)"
  proof -
    define P where "P = A / 2 ^ 55"
    have P: "0 < P" "10 / 2 ^ 55 \<le> P" using A by (simp_all add: P_def)
    have "A * s1 \<le> A * (1 / 2 ^ 51)" using A s1 by (intro mult_left_mono) simp_all
    then have "A * s1 \<le> 16 * P" by (simp add: P_def)
    then have u: "fl (A * s1) \<le> fl (16 * P)" by (rule fl_mono)
    have "A * (17 / 2 ^ 55) \<le> A * s2" using A s2 by (intro mult_left_mono) simp_all
    then have "17 * P \<le> A * s2" by (simp add: P_def)
    then have l: "fl (17 * P) \<le> fl (A * s2)" by (rule fl_mono)
    have small: "(2::real) powi (- 1022) \<le> 10 / 2 ^ 55" by simp
    define q where "q = P / 2 ^ 53"
    have q: "33 * q < P" "\<bar>16 * P\<bar> / 2 ^ 53 = 16 * q" "\<bar>17 * P\<bar> / 2 ^ 53 = 17 * q"
      using P by (simp_all add: q_def)
    have "\<bar>fl (16 * P) - 16 * P\<bar> \<le> \<bar>16 * P\<bar> / 2 ^ 53"
      using P small by (intro fl_rel_error) simp
    then have e1: "\<bar>fl (16 * P) - 16 * P\<bar> \<le> 16 * q" unfolding q .
    have "\<bar>fl (17 * P) - 17 * P\<bar> \<le> \<bar>17 * P\<bar> / 2 ^ 53"
      using P small by (intro fl_rel_error) simp
    then have e2: "\<bar>fl (17 * P) - 17 * P\<bar> \<le> 17 * q" unfolding q .
    from e1 e2 q(1) u l show ?thesis by linarith
  qed
  then show ?thesis unfolding fH mA f1 f2 z1 z2 by simp
qed

text \<open>The tangent frame at the pole for the altitude 1e200.\<close>

lemma pole_radius64:
  "fadd SPHERE_RADIUS64 (num (10 ^ 200)) = Fin (99999999999999996973312221251036165947450327545502362648241750950346848435554075534196338404706251868027512415973882408182135734368278484639385041047239877871023591066789981811181813306167128854888448)"
  by (simp only: SPHERE_RADIUS64_def f64_steps)

lemma pole_position64:
  "latLonToVector3_64 (num 90) (num (- 180)) SPHERE_RADIUS64 (num (10 ^ 200)) =
     Vector3_64 (Fin 0) (Fin (99999999999999996973312221251036165947450327545502362648241750950346848435554075534196338404706251868027512415973882408182135734368278484639385041047239877871023591066789981811181813306167128854888448)) (Fin 0)"
  by (simp only: latLonToVector3_64_def degToRad64_def DEG2RAD64_def PI64_def SPHERE_RADIUS64_def
      Let_def f64_steps)

lemma pole_lengthSq64:
  "lengthSq64 (latLonToVector3_64 (num 90) (num (- 180)) SPHERE_RADIUS64 (num (10 ^ 200))) = PInf"
  unfolding pole_position64 by (simp only: lengthSq64_def Vector3_64.sel f64_steps)

lemma pole_frame64:
  "tangentFrame64 (latLonToVector3_64 (num 90) (num (- 180)) SPHERE_RADIUS64 (num (10 ^ 200))) =
     (Vector3_64 (Fin 0) (Fin 0) (Fin 0), Vector3_64 (Fin 0) (Fin 0) (Fin 0),
      Vector3_64 (Fin 0) (Fin 0) (Fin 0))"
  unfolding pole_position64
  by (simp only: tangentFrame64_def normalize64_def divideScalar64_def multiplyScalar64_def
      vlength64_def lengthSq64_def eastBeforeNormalize64_def crossVectors64_def
      Let_def Vector3_64.sel f64_steps if_True)

text \<open>
  The tangent frame at the pole for the default altitude 0.15, in binary64: the frame
  of exact arithmetic, \<open>((-1, 0, 0), (0, 0, 1), (0, 1, 0))\<close>.
\<close>

lemma fmul_zero_cos: "fmul (Fin 0) (fcos (Fin a)) = Fin 0"
proof -
  have "fcos (Fin a) = Fin (fl (cos a))"
    unfolding fcos.simps by (intro roundTo_upto_20) (use abs_cos_le_one [of a] in linarith)
  then show ?thesis by simp
qed

lemma fmul_zero_sin: "fmul (Fin 0) (fsin (Fin a)) = Fin 0"
proof -
  have "fsin (Fin a) = Fin (fl (sin a))"
    unfolding fsin.simps by (intro roundTo_upto_20) (use abs_sin_le_one [of a] in linarith)
  then show ?thesis by simp
qed

lemma pole_position64_default:
  "latLonToVector3_64 (num 90) (num 0) SPHERE_RADIUS64 (num 0.15) =
     Vector3_64 (Fin 0) (Fin (2835860390359859 / 140737488355328)) (Fin 0)"
  by (simp only: latLonToVector3_64_def degToRad64_def DEG2RAD64_def PI64_def SPHERE_RADIUS64_def
      Let_def f64_steps fmul_zero_cos fmul_zero_sin)

lemma pole_frame64_default:
  "tangentFrame64 (latLonToVector3_64 (num 90) (num 0) SPHERE_RADIUS64 (num 0.15)) =
     (Vector3_64 (Fin (- 1)) (Fin 0) (Fin 0), Vector3_64 (Fin 0) (Fin 0) (Fin 1),
      Vector3_64 (Fin 0) (Fin 1) (Fin 0))"
  unfolding pole_position64_default
  by (simp only: tangentFrame64_def normalize64_def divideScalar64_def multiplyScalar64_def
      vlength64_def lengthSq64_def eastBeforeNormalize64_def crossVectors64_def
      Let_def Vector3_64.sel f64_steps if_True)


section \<open>Claims about the projection\<close>

text \<open>
  C1 (as amended). For every latitude, longitude, radius and altitude,
  \<^verbatim>\<open>latLonToVector3\<close> returns the point given by the spherical projection formula with
  \<open>phi = pi/2 - lat\<close>, \<open>theta = lon + pi\<close> and \<open>R = radius + altitude\<close>; the point lies at
  distance \<open>\<bar>R\<bar>\<close> from the origin, which is \<open>R\<close> whenever \<open>R\<close> is not negative.
\<close>

theorem latLonToVector3_formula:
  "latLonToVector3 latDeg lonDeg radius altitude =
     Vector3 (- (radius + altitude) * sin (pi / 2 - degToRad latDeg) * cos (degToRad lonDeg + pi))
             ((radius + altitude) * cos (pi / 2 - degToRad latDeg))
             ((radius + altitude) * sin (pi / 2 - degToRad latDeg) * sin (degToRad lonDeg + pi))
   \<and> vlength (latLonToVector3 latDeg lonDeg radius altitude) = \<bar>radius + altitude\<bar>"
proof
  show "latLonToVector3 latDeg lonDeg radius altitude =
     Vector3 (- (radius + altitude) * sin (pi / 2 - degToRad latDeg) * cos (degToRad lonDeg + pi))
             ((radius + altitude) * cos (pi / 2 - degToRad latDeg))
             ((radius + altitude) * sin (pi / 2 - degToRad latDeg) * sin (degToRad lonDeg + pi))"
    unfolding latLonToVector3_def Let_def by (rule refl)
  show "vlength (latLonToVector3 latDeg lonDeg radius altitude) = \<bar>radius + altitude\<bar>"
    by (rule latLonToVector3_vlength)
qed

text \<open>
  C1 as the claim words it, with the distance equal to \<open>R\<close> itself, fails for a negative
  \<open>R\<close>: at latitude 0, longitude 0, radius 20 and altitude -21 the point is \<open>(-1, 0, 0)\<close>,
  at distance 1 from the origin, while \<open>R = -1\<close>.
\<close>

theorem latLonToVector3_distance_counterexample:
  "vlength (latLonToVector3 0 0 20 (-21)) \<noteq> 20 + (-21)"
  by (simp add: latLonToVector3_vlength)

text \<open>
  C8 (as amended). Read as formulas over the real numbers, the two projections are the
  same function: \<^verbatim>\<open>posFromLatLon(lon, lat)\<close> is \<^verbatim>\<open>latLonToVector3(lat, lon, 20, 0)\<close> for
  every latitude and longitude. As the doubles compute them they agree up to rounding
  only: see the counterexample below.
\<close>

theorem posFromLatLon_agrees:
  "posFromLatLon lon lat = latLonToVector3 lat lon 20 0"
proof -
  have phi: "(90 - lat) * (pi / 180) = pi / 2 - degToRad lat"
    by (simp add: degToRad_def field_simps)
  have theta: "(lon + 180) * (pi / 180) = degToRad lon + pi"
    by (simp add: degToRad_def field_simps)
  show ?thesis
    unfolding posFromLatLon_def latLonToVector3_def Let_def phi theta dotSphereRadius_def
    by simp
qed

text \<open>
  C8 as the claim words it, of the vectors the two functions return, fails in binary64.
  On the equator at longitude -179.99999999999997, the double next to -180,
  \<^verbatim>\<open>latLonToVector3\<close> computes \<open>theta = lon * DEG2RAD + PI = 2 ^ -51\<close> and
  \<^verbatim>\<open>posFromLatLon\<close> computes \<open>theta = (lon + 180) * (PI / 180) = 2 ^ -45 * DEG2RAD\<close>, about
  \<open>1.117 * 2 ^ -51\<close>; \<open>phi\<close> is the same double in both, and the z components
  \<open>20 * sin(phi) * sin(theta)\<close> differ (8.9e-15 and 9.9e-15). The proof bounds the two
  sines by \<open>sin(2 ^ -51) \<le> 2 ^ -51\<close> and \<open>sin(theta) \<ge> 17 * 2 ^ -55\<close>, so it does not
  depend on the last bits that an engine's \<^verbatim>\<open>Math.sin\<close> returns. For the longitude of
  Bengaluru in the module's list, 77.5946, the two values of \<open>theta\<close> are neighbouring
  doubles, 4.495873905357785 and 4.495873905357786.
\<close>

theorem posFromLatLon64_differs:
  "posFromLatLon64 (num (- 179.99999999999997)) (num 0) \<noteq>
     latLonToVector3_64 (num 0) (num (- 179.99999999999997)) (num 20) (num 0) \<and>
   fadd (degToRad64 (num 77.5946)) PI64 = Fin (2530952005609257 / 562949953421312) \<and>
   fmul (fadd (num 77.5946) (num 180)) (fdiv PI64 (num 180)) =
     Fin (5061904011218515 / 1125899906842624) \<and>
   fadd (degToRad64 (num 77.5946)) PI64 \<noteq>
     fmul (fadd (num 77.5946) (num 180)) (fdiv PI64 (num 180))"
proof -
  have "vz64 (latLonToVector3_64 (num 0) (num (- 179.99999999999997)) (num 20) (num 0)) \<noteq>
        vz64 (posFromLatLon64 (num (- 179.99999999999997)) (num 0))"
    unfolding marker_z_near_antimeridian dot_z_near_antimeridian by (rule z_differs)
  then have "posFromLatLon64 (num (- 179.99999999999997)) (num 0) \<noteq>
     latLonToVector3_64 (num 0) (num (- 179.99999999999997)) (num 20) (num 0)"
    by auto
  moreover have "fadd (degToRad64 (num 77.5946)) PI64 \<noteq>
     fmul (fadd (num 77.5946) (num 180)) (fdiv PI64 (num 180))"
    using bengaluru_theta by simp
  ultimately show ?thesis using bengaluru_theta by (intro conjI) simp_all
qed


section \<open>The image pass: facts and claims\<close>

text \<open>The fold of \<^verbatim>\<open>visibleAt\<close> returns an element of the row that is closest to \<open>lon\<close>.\<close>

lemma foldl_closest:
  fixes lon :: real
  defines "f \<equiv> (\<lambda>p c. if \<bar>real_of_int c - lon\<bar> < \<bar>real_of_int p - lon\<bar> then c else p)"
  shows "foldl f x xs \<in> set (x # xs) \<and>
         (\<forall>c \<in> set (x # xs). \<bar>real_of_int (foldl f x xs) - lon\<bar> \<le> \<bar>real_of_int c - lon\<bar>)"
proof (induction xs arbitrary: x)
  case Nil
  show ?case by simp
next
  case (Cons y ys)
  show ?case
  proof (cases "\<bar>real_of_int y - lon\<bar> < \<bar>real_of_int x - lon\<bar>")
    case True
    then have "foldl f x (y # ys) = foldl f y ys" by (simp add: f_def)
    with Cons [of y] True show ?thesis by auto
  next
    case False
    then have "foldl f x (y # ys) = foldl f x ys" by (simp add: f_def)
    with Cons [of x] False show ?thesis by auto
  qed
qed

lemma visibleAt_eq: "visibleAt a lon lat = Inr (closestWithinHalf a lon lat)"
proof (cases "a lat")
  case None
  then show ?thesis by (simp add: visibleAt_def closestWithinHalf_def)
next
  case (Some row)
  show ?thesis
  proof (cases row)
    case Nil
    with Some show ?thesis by (simp add: visibleAt_def closestWithinHalf_def)
  next
    case (Cons x xs)
    let ?f = "\<lambda>p c. if \<bar>real_of_int c - lon\<bar> < \<bar>real_of_int p - lon\<bar> then c else p"
    let ?r = "foldl ?f x xs"
    have mem: "?r \<in> set (x # xs)"
      and least: "\<forall>c \<in> set (x # xs). \<bar>real_of_int ?r - lon\<bar> \<le> \<bar>real_of_int c - lon\<bar>"
      using foldl_closest [of lon x xs] by blast+
    have v: "visibleAt a lon lat = Inr (\<bar>lon - real_of_int ?r\<bar> < 0.5)"
      using Some Cons by (simp add: visibleAt_def)
    have "closestWithinHalf a lon lat \<longleftrightarrow> \<bar>lon - real_of_int ?r\<bar> < 0.5"
    proof
      assume "closestWithinHalf a lon lat"
      then obtain c where c: "c \<in> set (x # xs)" "\<bar>lon - real_of_int c\<bar> < 0.5"
        using Some Cons by (auto simp: closestWithinHalf_def)
      from least c(1) have "\<bar>real_of_int ?r - lon\<bar> \<le> \<bar>real_of_int c - lon\<bar>" by blast
      with c(2) show "\<bar>lon - real_of_int ?r\<bar> < 0.5" by (simp add: abs_minus_commute)
    next
      assume "\<bar>lon - real_of_int ?r\<bar> < 0.5"
      with mem least show "closestWithinHalf a lon lat"
        using Some Cons unfolding closestWithinHalf_def by (auto intro!: bexI [of _ ?r])
    qed
    with v show ?thesis by simp
  qed
qed

text \<open>
  C10. \<^verbatim>\<open>visibleAt\<close> is total: it always returns a boolean and never throws. When the
  row of the latitude is absent or empty it returns false before the \<^verbatim>\<open>reduce\<close>; the
  \<^verbatim>\<open>reduce\<close> is reached on a non-empty row only, where it returns an element.
\<close>

theorem visibleAt_total:
  "(\<exists>b. visibleAt a lon lat = Inr b) \<and>
   (a lat = None \<longrightarrow> visibleAt a lon lat = Inr False) \<and>
   (a lat = Some [] \<longrightarrow> visibleAt a lon lat = Inr False) \<and>
   (\<forall>row. a lat = Some row \<and> row \<noteq> [] \<longrightarrow>
      (\<exists>closest. reduce (\<lambda>p c. if \<bar>real_of_int c - lon\<bar> < \<bar>real_of_int p - lon\<bar> then c else p) row
          = Inr closest \<and>
        visibleAt a lon lat = Inr (\<bar>lon - real_of_int closest\<bar> < 0.5)))"
proof (intro conjI allI impI)
  show "\<exists>b. visibleAt a lon lat = Inr b"
    by (cases "a lat") (auto simp: visibleAt_def neq_Nil_conv)
  show "visibleAt a lon lat = Inr False" if "a lat = None"
    using that by (simp add: visibleAt_def)
  show "visibleAt a lon lat = Inr False" if "a lat = Some []"
    using that by (simp add: visibleAt_def)
  show "\<exists>closest. reduce (\<lambda>p c. if \<bar>real_of_int c - lon\<bar> < \<bar>real_of_int p - lon\<bar> then c else p) row
          = Inr closest \<and>
        visibleAt a lon lat = Inr (\<bar>lon - real_of_int closest\<bar> < 0.5)"
    if "a lat = Some row \<and> row \<noteq> []" for row
    using that by (auto simp: visibleAt_def neq_Nil_conv)
qed

text \<open>C10 at an absent row, at an empty row and at the row \<open>[10, 12]\<close>.\<close>

theorem visibleAt_total_witness:
  "visibleAt Map.empty 0 90 = Inr False \<and>
   visibleAt (Map.empty(90 \<mapsto> [])) 0 90 = Inr False \<and>
   visibleAt (Map.empty(90 \<mapsto> [10, 12])) 10.25 90 = Inr True"
  using visibleAt_total [of Map.empty 0 90]
    visibleAt_total [of "Map.empty(90 \<mapsto> [])" 0 90]
    visibleAt_total [of "Map.empty(90 \<mapsto> [10, 12])" "10.25" 90]
  by simp


text \<open>
  What the loop of \<^verbatim>\<open>readImageData\<close> adds to the rows: the longitude of every dark
  pixel it reaches, in the row of that pixel's latitude.
\<close>

lemma ex_nat_cases: "(\<exists>k::nat. P k) \<longleftrightarrow> P 0 \<or> (\<exists>k. P (Suc k))"
  by (metis not0_implies_Suc)

lemma rowOf_upd: "rowOf (a(lat \<mapsto> row)) lat0 = (if lat0 = lat then row else rowOf a lat0)"
  by (simp add: rowOf_def)

lemma readLoop_rows:
  "lon0 \<in> set (rowOf (readLoop d i lon lat a) lat0) \<longleftrightarrow>
     lon0 \<in> set (rowOf a lat0) \<or>
     (\<exists>k. i + 4 * k < length d \<and> scanFrom lon lat k = Some (lon0, lat0) \<and> darkPixel d (i + 4 * k))"
proof (induction d i lon lat a rule: readLoop.induct)
  case (1 d i lon lat a)
  let ?lon' = "fst (nextLonLat lon lat)" and ?lat' = "snd (nextLonLat lon lat)"
  let ?row = "rowOf a lat"
  let ?a1 = "a(lat \<mapsto> ?row)"
  let ?a2 = "if darkPixel d i then ?a1(lat \<mapsto> ?row @ [lon]) else ?a1"
  let ?R = "\<lambda>i lon lat k. i + 4 * k < length d \<and> scanFrom lon lat k = Some (lon0, lat0) \<and> darkPixel d (i + 4 * k)"
  show ?case
  proof (cases "i < length d")
    case False
    then show ?thesis by (subst readLoop.simps) simp
  next
    case inside: True
    have a2: "lon0 \<in> set (rowOf ?a2 lat0) \<longleftrightarrow>
                lon0 \<in> set (rowOf a lat0) \<or> (lon0 = lon \<and> lat0 = lat \<and> darkPixel d i)"
      by (auto simp: rowOf_upd)
    have zero: "?R i lon lat 0 \<longleftrightarrow> lon0 = lon \<and> lat0 = lat \<and> darkPixel d i"
      using inside by auto
    show ?thesis
    proof (cases "?lat' < - 90")
      case True
      then have stop: "readLoop d i lon lat a = ?a2"
        using inside by (subst readLoop.simps) (simp add: Let_def)
      have "\<not> ?R i lon lat (Suc k)" for k
        using True by (simp add: Let_def)
      then have "(\<exists>k. ?R i lon lat k) \<longleftrightarrow> ?R i lon lat 0"
        by (subst ex_nat_cases) blast
      with stop a2 zero show ?thesis by simp
    next
      case False
      then have go: "readLoop d i lon lat a = readLoop d (i + 4) (?lon' + 1) ?lat' ?a2"
        using inside by (subst readLoop.simps) (simp add: Let_def)
      have IH: "lon0 \<in> set (rowOf (readLoop d (i + 4) (?lon' + 1) ?lat' ?a2) lat0) \<longleftrightarrow>
                  lon0 \<in> set (rowOf ?a2 lat0) \<or> (\<exists>k. ?R (i + 4) (?lon' + 1) ?lat' k)"
        using "1.IH" [OF inside refl refl refl refl refl False] .
      have "?R i lon lat (Suc k) \<longleftrightarrow> ?R (i + 4) (?lon' + 1) ?lat' k" for k
        using False by (simp add: Let_def add.assoc)
      then have "(\<exists>k. ?R i lon lat k) \<longleftrightarrow> ?R i lon lat 0 \<or> (\<exists>k. ?R (i + 4) (?lon' + 1) ?lat' k)"
        by (subst ex_nat_cases) simp
      with go IH a2 zero show ?thesis by simp
    qed
  qed
qed

lemma readImageData_rows:
  "lon0 \<in> set (rowOf (readImageData d) lat0) \<longleftrightarrow>
     (\<exists>k. 4 * k < length d \<and> scanPos k = Some (lon0, lat0) \<and> darkPixel d (4 * k))"
  unfolding readImageData_def scanPos_def
  by (subst readLoop_rows) (simp add: rowOf_def)

text \<open>
  The positions the loop goes through, in closed form: the first 361 pixels are the
  row of latitude 90 with longitudes -180 to 180; every later row has 360 pixels, with
  longitudes -179 to 180; the loop leaves after pixel 65160, at latitude -90.
\<close>

lemma scanFrom_Suc:
  "scanFrom lon lat (Suc k) =
     (case scanFrom lon lat k of
        None \<Rightarrow> None
      | Some (lo, la) \<Rightarrow>
          if snd (nextLonLat lo la) < - 90 then None
          else Some (fst (nextLonLat lo la) + 1, snd (nextLonLat lo la)))"
proof (induction k arbitrary: lon lat)
  case 0
  show ?case by (simp add: Let_def)
next
  case (Suc k)
  let ?lon' = "fst (nextLonLat lon lat) + 1" and ?lat' = "snd (nextLonLat lon lat)"
  show ?case
  proof (cases "?lat' < - 90")
    case True
    then have a: "scanFrom lon lat (Suc (Suc k)) = None"
      and b: "scanFrom lon lat (Suc k) = None"
      by (simp_all add: Let_def)
    show ?thesis by (simp only: a b option.case)
  next
    case False
    then have a: "scanFrom lon lat (Suc (Suc k)) = scanFrom ?lon' ?lat' (Suc k)"
      and b: "scanFrom lon lat (Suc k) = scanFrom ?lon' ?lat' k"
      by (simp_all add: Let_def)
    show ?thesis unfolding a b by (rule Suc.IH)
  qed
qed

lemma scanPos_Suc:
  "scanPos (Suc k) =
     (case scanPos k of
        None \<Rightarrow> None
      | Some (lo, la) \<Rightarrow>
          if snd (nextLonLat lo la) < - 90 then None
          else Some (fst (nextLonLat lo la) + 1, snd (nextLonLat lo la)))"
  unfolding scanPos_def by (rule scanFrom_Suc)

lemma scanPos_first_row: "k \<le> 360 \<Longrightarrow> scanPos k = Some (int k - 180, 90)"
proof (induction k)
  case 0
  show ?case by (simp add: scanPos_def)
next
  case (Suc k)
  then have "scanPos k = Some (int k - 180, 90)" and "int k - 180 \<noteq> 180" by auto
  then show ?case by (simp add: scanPos_Suc nextLonLat_def)
qed

lemma scanPos_later_rows:
  "q \<le> 179 \<Longrightarrow> r < 360 \<Longrightarrow>
     scanPos (361 + 360 * q + r) = Some (int r - 179, 89 - int q)"
proof (induction "360 * q + r" arbitrary: q r)
  case 0
  then have "q = 0" "r = 0" by auto
  moreover have "scanPos (Suc 360) = Some (- 179, 89)"
    unfolding scanPos_Suc [of 360] using scanPos_first_row [of 360]
    by (simp add: nextLonLat_def)
  ultimately show ?case by simp
next
  case (Suc j)
  show ?case
  proof (cases r)
    case 0
    with Suc.hyps(2) obtain q' where q: "q = Suc q'" by (cases q) auto
    with Suc.hyps(2) 0 have j: "j = 360 * q' + 359" by simp
    have prev: "scanPos (361 + 360 * q' + 359) = Some (int 359 - 179, 89 - int q')"
      using Suc.hyps(1) [OF j] Suc.prems q by simp
    have eq: "361 + 360 * q + r = Suc (361 + 360 * q' + 359)" using q 0 by simp
    have step: "scanPos (Suc (361 + 360 * q' + 359)) = Some (int r - 179, 89 - int q)"
      unfolding scanPos_Suc [of "361 + 360 * q' + 359"] prev
      using q 0 Suc.prems by (simp add: nextLonLat_def)
    show ?thesis unfolding eq by (rule step)
  next
    case (Suc r')
    with Suc.hyps(2) have j: "j = 360 * q + r'" by simp
    have prev: "scanPos (361 + 360 * q + r') = Some (int r' - 179, 89 - int q)"
      using Suc.hyps(1) [OF j] Suc.prems \<open>r = Suc r'\<close> by simp
    have eq: "361 + 360 * q + r = Suc (361 + 360 * q + r')" using \<open>r = Suc r'\<close> by simp
    have step: "scanPos (Suc (361 + 360 * q + r')) = Some (int r - 179, 89 - int q)"
      unfolding scanPos_Suc [of "361 + 360 * q + r'"] prev
      using \<open>r = Suc r'\<close> Suc.prems by (simp add: nextLonLat_def)
    show ?thesis unfolding eq by (rule step)
  qed
qed

lemma scanPos_stopped: "65161 \<le> k \<Longrightarrow> scanPos k = None"
proof (induction k)
  case 0
  then show ?case by simp
next
  case (Suc k)
  show ?case
  proof (cases "k = 65160")
    case True
    have "scanPos (361 + 360 * 179 + 359) = Some (int 359 - 179, 89 - int 179)"
      by (rule scanPos_later_rows) simp_all
    then have "scanPos k = Some (180, - 90)" using True by simp
    then show ?thesis by (simp add: scanPos_Suc nextLonLat_def)
  next
    case False
    with Suc have "scanPos k = None" by simp
    then show ?thesis by (simp add: scanPos_Suc)
  qed
qed

lemma scanPos_cases:
  obtains (first) "k \<le> 360" "scanPos k = Some (int k - 180, 90)"
  | (later) q r where "q \<le> 179" "r < 360" "k = 361 + 360 * q + r"
      "scanPos k = Some (int r - 179, 89 - int q)"
  | (stopped) "65161 \<le> k" "scanPos k = None"
proof (cases "k \<le> 360")
  case True
  with scanPos_first_row [OF True] first show ?thesis by blast
next
  case notfirst: False
  show ?thesis
  proof (cases "65161 \<le> k")
    case True
    with scanPos_stopped [OF True] stopped show ?thesis by blast
  next
    case False
    define q where "q = (k - 361) div 360"
    define r where "r = (k - 361) mod 360"
    have k: "k = 361 + 360 * q + r" using notfirst by (simp add: q_def r_def)
    have q: "q \<le> 179" using False by (simp add: q_def)
    have r: "r < 360" by (simp add: r_def)
    from scanPos_later_rows [OF q r] k have "scanPos k = Some (int r - 179, 89 - int q)" by simp
    with q r k later show ?thesis by blast
  qed
qed

lemma scanPos_inj:
  assumes "scanPos k = Some p" and "scanPos k' = Some p"
  shows "k = k'"
proof (cases k rule: scanPos_cases)
  case first
  show ?thesis
  proof (cases k' rule: scanPos_cases)
    case first': first
    with first assms show ?thesis by simp
  next
    case (later q r)
    with first assms show ?thesis by auto
  next
    case stopped
    with assms show ?thesis by simp
  qed
next
  case (later q r)
  show ?thesis
  proof (cases k' rule: scanPos_cases)
    case first
    with later assms show ?thesis by auto
  next
    case later': (later q' r')
    with later assms have "int r = int r'" "int q = int q'" by auto
    with later(3) later'(3) show ?thesis by simp
  next
    case stopped
    with assms show ?thesis by simp
  qed
next
  case stopped
  with assms show ?thesis by simp
qed

lemma scanPos_lower_rows:
  assumes "scanPos k = Some (lon, lat)" and "lat \<noteq> 90"
  shows "- 179 \<le> lon \<and> lon \<le> 180 \<and> - 90 \<le> lat \<and> lat \<le> 89"
proof -
  have k1: "360 < k"
    using assms scanPos_first_row [of k] by (cases "k \<le> 360") auto
  have k2: "k < 65161"
    using assms scanPos_stopped [of k] by (cases "65161 \<le> k") auto
  define q where "q = (k - 361) div 360"
  define r where "r = (k - 361) mod 360"
  have k: "k = 361 + 360 * q + r" using k1 by (simp add: q_def r_def)
  have q: "q \<le> 179" using k2 by (simp add: q_def)
  have r: "r < 360" by (simp add: r_def)
  from scanPos_later_rows [OF q r] assms(1) k
  have "lon = int r - 179" "lat = 89 - int q" by simp_all
  with q r show ?thesis by simp
qed

lemma all_dark_362:
  "4 * k < 1448 \<Longrightarrow> darkPixel (replicate 1448 0) (4 * k)"
  by (simp add: darkPixel_def byteAt_def below80_def)

lemma second_row_362:
  "lon0 \<in> set (rowOf (readImageData (replicate 1448 0)) 89) \<longleftrightarrow> lon0 = - 179"
proof
  assume "lon0 \<in> set (rowOf (readImageData (replicate 1448 0)) 89)"
  then obtain k where k: "4 * k < 1448" "scanPos k = Some (lon0, 89)"
    by (auto simp: readImageData_rows)
  then have "k \<le> 361" by simp
  moreover have "\<not> k \<le> 360" using k(2) scanPos_first_row [of k] by auto
  ultimately have "k = 361" by simp
  with k(2) scanPos_later_rows [of 0 0] show "lon0 = - 179" by simp
next
  assume "lon0 = - 179"
  moreover have "scanPos 361 = Some (- 179, 89)" using scanPos_later_rows [of 0 0] by simp
  moreover have "darkPixel (replicate 1448 0) (4 * 361)" by (rule all_dark_362) simp
  ultimately show "lon0 \<in> set (rowOf (readImageData (replicate 1448 0)) 89)"
    unfolding readImageData_rows by (intro exI [of _ 361]) simp
qed

lemma first_row_362:
  "- 180 \<in> set (rowOf (readImageData (replicate 1448 0)) 90)"
proof -
  have "scanPos 0 = Some (- 180, 90)" by (simp add: scanPos_def)
  moreover have "darkPixel (replicate 1448 0) (4 * 0)" by (rule all_dark_362) simp
  ultimately show ?thesis
    unfolding readImageData_rows by (intro exI [of _ 0]) simp
qed

lemma readImageData_never_minus_180_below:
  "lat \<noteq> 90 \<Longrightarrow> - 180 \<notin> set (rowOf (readImageData d) lat)"
  using scanPos_lower_rows by (fastforce simp: readImageData_rows)

text \<open>
  C5 at an image of 362 pixels, all black. The first row starts at longitude -180; the
  pixel after longitude 180 of the first row gets longitude -179 of latitude 89, and
  longitude -180 is not recorded in that row: \<^verbatim>\<open>lon\<close> is reset to -180 and then
  incremented by the loop's update before the next pixel is read.
\<close>

theorem readImageData_later_rows_start_at_minus_179:
  "- 180 \<in> set (rowOf (readImageData (replicate 1448 0)) 90) \<and>
   set (rowOf (readImageData (replicate 1448 0)) 89) = {- 179}"
  using first_row_362 second_row_362 by auto


section \<open>Placing the dots: facts and claims\<close>

lemma placeRow_dots:
  "\<exists>ds ms. placeRow a sh rnd lat i n x st = Inr (fst st @ ds, snd st @ ms) \<and>
     length ms = length ds \<and>
     map dot_position ds =
       map (\<lambda>lon. posFromLatLon lon (real_of_int lat))
         (filter (\<lambda>lon. closestWithinHalf a lon lat) (map (candidateLon n) [x .. n - 1]))"
proof (induction a sh rnd lat i n x st rule: placeRow.induct)
  case (1 a sh rnd lat i n x st)
  let ?lon = "candidateLon n x"
  show ?case
  proof (cases "x < n")
    case False
    then show ?thesis by (subst placeRow.simps) simp
  next
    case True
    then have upto: "[x .. n - 1] = x # [x + 1 .. n - 1]"
      by (simp add: upto_rec1)
    show ?thesis
    proof (cases "closestWithinHalf a ?lon lat")
      case False
      then have eq: "placeRow a sh rnd lat i n x st = placeRow a sh rnd lat i n (x + 1) st"
        using True by (subst placeRow.simps) (simp add: visibleAt_eq Let_def)
      from "1.IH"(1) [OF True refl visibleAt_eq] False
      show ?thesis unfolding eq upto by simp
    next
      case vis: True
      let ?vec = "posFromLatLon ?lon (real_of_int lat)"
      let ?mm = "createDotMaterial sh rnd (real i) (snd st)"
      let ?dot = "\<lparr>dot_position = ?vec, dot_material = fst ?mm\<rparr>"
      have eq: "placeRow a sh rnd lat i n x st =
                  placeRow a sh rnd lat i n (x + 1) (fst st @ [?dot], snd ?mm)"
        using True vis by (subst placeRow.simps) (simp add: visibleAt_eq Let_def)
      have mm: "snd ?mm = snd st @ [fst ?mm]"
        by (simp add: createDotMaterial_def Let_def)
      from "1.IH"(2) [OF True refl visibleAt_eq _ refl refl refl] vis
      obtain ds ms where
        r: "placeRow a sh rnd lat i n (x + 1) (fst st @ [?dot], snd ?mm)
              = Inr ((fst st @ [?dot]) @ ds, snd ?mm @ ms)"
        and l: "length ms = length ds"
        and p: "map dot_position ds =
                  map (\<lambda>lon. posFromLatLon lon (real_of_int lat))
                    (filter (\<lambda>lon. closestWithinHalf a lon lat)
                       (map (candidateLon n) [x + 1 .. n - 1]))"
        by auto
      show ?thesis
        unfolding eq upto
        by (rule exI [of _ "?dot # ds"], rule exI [of _ "fst ?mm # ms"])
           (use r l p vis mm in simp)
    qed
  qed
qed

lemma rowCandidates_filter:
  "map (\<lambda>(la, lo). posFromLatLon lo (real_of_int la))
     (filter (\<lambda>(la, lo). closestWithinHalf a lo la) (rowCandidates lat)) =
   map (\<lambda>lon. posFromLatLon lon (real_of_int lat))
     (filter (\<lambda>lon. closestWithinHalf a lon lat)
        (map (candidateLon (dotsForLat lat)) [0 .. dotsForLat lat - 1]))"
  by (simp add: rowCandidates_def filter_map comp_def)


lemma rev_lats: "lat > - 90 \<Longrightarrow> rev [- 89 .. lat] = lat # rev [- 89 .. lat - 1]" for lat :: int
  by (subst upto_rec2) simp_all

lemma placeLats_stop: "\<not> lat > - 90 \<Longrightarrow> placeLats a sh rnd lat i st = Inr st"
  by (subst placeLats.simps) simp

lemma placeLats_dots:
  "\<exists>ds ms. placeLats a sh rnd lat i st = Inr (fst st @ ds, snd st @ ms) \<and>
     length ms = length ds \<and>
     map dot_position ds =
       map (\<lambda>(la, lo). posFromLatLon lo (real_of_int la))
         (filter (\<lambda>(la, lo). closestWithinHalf a lo la)
            (concat (map rowCandidates (rev [- 89 .. lat]))))"
proof (induction a sh rnd lat i st rule: placeLats.induct)
  case (1 a sh rnd lat i st)
  show ?case
  proof (cases "lat > - 90")
    case False
    then have "rev [- 89 .. lat] = []" by simp
    with placeLats_stop [OF False] show ?thesis
      by (intro exI [of _ "[]"]) simp
  next
    case True
    from placeRow_dots [of a sh rnd lat i "dotsForLat lat" 0 st]
    obtain ds1 ms1 where
      r1: "placeRow a sh rnd lat i (dotsForLat lat) 0 st = Inr (fst st @ ds1, snd st @ ms1)"
      and l1: "length ms1 = length ds1"
      and p1: "map dot_position ds1 =
                 map (\<lambda>lon. posFromLatLon lon (real_of_int lat))
                   (filter (\<lambda>lon. closestWithinHalf a lon lat)
                      (map (candidateLon (dotsForLat lat)) [0 .. dotsForLat lat - 1]))"
      by blast
    have eq: "placeLats a sh rnd lat i st =
                placeLats a sh rnd (lat - 1) (i + 1) (fst st @ ds1, snd st @ ms1)"
      using True by (subst placeLats.simps) (simp add: r1)
    from "1.IH" [OF True r1]
    obtain ds2 ms2 where
      r2: "placeLats a sh rnd (lat - 1) (i + 1) (fst st @ ds1, snd st @ ms1)
             = Inr (fst (fst st @ ds1, snd st @ ms1) @ ds2, snd (fst st @ ds1, snd st @ ms1) @ ms2)"
      and l2: "length ms2 = length ds2"
      and p2: "map dot_position ds2 =
                 map (\<lambda>(la, lo). posFromLatLon lo (real_of_int la))
                   (filter (\<lambda>(la, lo). closestWithinHalf a lo la)
                      (concat (map rowCandidates (rev [- 89 .. lat - 1]))))"
      by blast
    have p1': "map dot_position ds1 =
                 map (\<lambda>(la, lo). posFromLatLon lo (real_of_int la))
                   (filter (\<lambda>(la, lo). closestWithinHalf a lo la) (rowCandidates lat))"
      unfolding rowCandidates_filter by (rule p1)
    show ?thesis
    proof (intro exI conjI)
      show "placeLats a sh rnd lat i st = Inr (fst st @ ds1 @ ds2, snd st @ ms1 @ ms2)"
        unfolding eq r2 by simp
      show "length (ms1 @ ms2) = length (ds1 @ ds2)"
        using l1 l2 by simp
      show "map dot_position (ds1 @ ds2) =
              map (\<lambda>(la, lo). posFromLatLon lo (real_of_int la))
                (filter (\<lambda>(la, lo). closestWithinHalf a lo la)
                   (concat (map rowCandidates (rev [- 89 .. lat]))))"
        unfolding rev_lats [OF True] by (simp only: map_append list.map concat.simps filter_append p1' p2)
    qed
  qed
qed

lemma placeDots_dots:
  "\<exists>ds ms. placeDots a sh rnd (dots0, mats0) = Inr (dots0 @ ds, mats0 @ ms) \<and>
     length ms = length ds \<and>
     map dot_position ds =
       map (\<lambda>(lat, lon). posFromLatLon lon (real_of_int lat))
         (filter (\<lambda>(lat, lon). closestWithinHalf a lon lat) candidates)"
  unfolding placeDots_def candidates_def
  using placeLats_dots [of a sh rnd 90 0 "(dots0, mats0)"] by simp

lemma darkPixel_bytes:
  "i + 2 < length d \<Longrightarrow>
     darkPixel d i \<longleftrightarrow> d ! i < 80 \<and> d ! (i + 1) < 80 \<and> d ! (i + 2) < 80"
  by (simp add: darkPixel_def byteAt_def below80_def)

lemma scanPos_pixelOfLoop:
  "scanPos k = Some (lon, lat) \<longleftrightarrow> reached lon lat \<and> k = pixelOfLoop lon lat"
proof
  assume "scanPos k = Some (lon, lat)"
  then show "reached lon lat \<and> k = pixelOfLoop lon lat"
    by (cases k rule: scanPos_cases) (auto simp: reached_def pixelOfLoop_def)
next
  assume a: "reached lon lat \<and> k = pixelOfLoop lon lat"
  show "scanPos k = Some (lon, lat)"
  proof (cases "lat = 90")
    case True
    with a have "nat (lon + 180) \<le> 360" and k: "k = nat (lon + 180)" and "- 180 \<le> lon"
      by (auto simp: reached_def pixelOfLoop_def)
    with scanPos_first_row [of "nat (lon + 180)"] True show ?thesis by simp
  next
    case False
    with a have q: "nat (89 - lat) \<le> 179" and r: "nat (lon + 179) < 360"
      and k: "k = 361 + 360 * nat (89 - lat) + nat (lon + 179)"
      and b: "- 179 \<le> lon" "lat \<le> 89"
      by (auto simp: reached_def pixelOfLoop_def nat_add_distrib nat_mult_distrib)
    from scanPos_later_rows [OF q r] k b show ?thesis by simp
  qed
qed

text \<open>
  The rows of \<^verbatim>\<open>activeLatLon\<close> by the number of the pixel: a longitude is recorded in the
  row of a latitude exactly when the loop reaches that position, the pixel it reads
  there is inside the image and its red, green and blue bytes are all below 80.
\<close>

lemma readImageData_pixels:
  "lon \<in> set (rowOf (readImageData d) lat) \<longleftrightarrow>
     reached lon lat \<and> 4 * pixelOfLoop lon lat < length d \<and>
     darkPixel d (4 * pixelOfLoop lon lat)"
  unfolding readImageData_rows scanPos_pixelOfLoop by auto

text \<open>
  C2 at an image of 362 pixels, all black. The first half of the claim fails in both
  directions at latitude 89. The mask pixel of longitude -180, latitude 89 (pixel 361,
  the first of the second row of 361) is dark, and -180 is not recorded in the row of
  latitude 89; the mask pixel of longitude -179, latitude 89 (pixel 362) is outside the
  image, so it is not dark, and -179 is recorded in that row: the loop has read pixel
  361 for it. The second half of the claim, on \<^verbatim>\<open>placeDots\<close>, is lemma
  \<open>placeDots_dots\<close> above.
\<close>

theorem mask_pixel_shifted:
  "darkPixel (replicate 1448 0) (4 * pixelOfSpec (- 180) 89) \<and>
   - 180 \<notin> set (rowOf (readImageData (replicate 1448 0)) 89) \<and>
   \<not> darkPixel (replicate 1448 0) (4 * pixelOfSpec (- 179) 89) \<and>
   - 179 \<in> set (rowOf (readImageData (replicate 1448 0)) 89)"
  by (simp add: readImageData_pixels reached_def pixelOfLoop_def pixelOfSpec_def
      darkPixel_def byteAt_def below80_def)

text \<open>The image of one black pixel: only the pole has a row, and one candidate passes.\<close>

lemma readImageData_one_pixel:
  "readImageData [0, 0, 0, 255] = Map.empty(90 \<mapsto> [- 180])"
  by (simp add: readImageData_def readLoop.simps rowOf_def darkPixel_def byteAt_def
      below80_def nextLonLat_def Let_def)

lemma dotsForLat_pole: "dotsForLat 90 = 1"
  by (simp add: dotsForLat_def Let_def)

lemma rowCandidates_fst: "p \<in> set (rowCandidates lat) \<Longrightarrow> fst p = lat"
  by (auto simp: rowCandidates_def)

lemma no_row_no_candidates:
  "90 \<notin> set lats \<Longrightarrow>
     filter (\<lambda>(lat, lon). closestWithinHalf (Map.empty(90 \<mapsto> [- 180])) lon lat)
       (concat (map rowCandidates lats)) = []"
proof -
  assume no: "90 \<notin> set lats"
  have "\<not> (case p of (lat, lon) \<Rightarrow> closestWithinHalf (Map.empty(90 \<mapsto> [- 180])) lon lat)"
    if "p \<in> set (concat (map rowCandidates lats))" for p
  proof -
    from that obtain lat where "lat \<in> set lats" "p \<in> set (rowCandidates lat)" by auto
    with no have "fst p \<noteq> 90" using rowCandidates_fst [of p lat] by auto
    then show ?thesis by (cases p) (simp add: closestWithinHalf_def)
  qed
  then show ?thesis by (simp only: filter_empty_conv) blast
qed

lemma candidates_one_pixel:
  "filter (\<lambda>(lat, lon). closestWithinHalf (Map.empty(90 \<mapsto> [- 180])) lon lat) candidates
     = [(90, - 180)]"
proof -
  let ?P = "\<lambda>(lat, lon). closestWithinHalf (Map.empty(90 \<mapsto> [- 180])) lon lat"
  have split: "candidates = rowCandidates 90 @ concat (map rowCandidates (rev [- 89 .. 89]))"
    unfolding candidates_def by (subst upto_rec2) simp_all
  have top: "rowCandidates 90 = [(90, - 180)]"
    by (simp add: rowCandidates_def dotsForLat_pole candidateLon_def)
  have "90 \<notin> set (rev [- 89 .. 89 :: int])"
    by (simp only: set_rev set_upto atLeastAtMost_iff) simp
  then have rest: "filter ?P (concat (map rowCandidates (rev [- 89 .. 89]))) = []"
    by (rule no_row_no_candidates)
  have "?P (90, - 180)" by (simp add: closestWithinHalf_def)
  with rest show ?thesis unfolding split top by simp
qed

lemma posFromLatLon_pole: "posFromLatLon (- 180) 90 = Vector3 0 20 0"
  by (simp add: posFromLatLon_def dotSphereRadius_def Let_def)


section \<open>The tangent frame of a marker\<close>

lemma dot_commute: "dot a b = dot b a"
  by (simp add: dot_def mult.commute)

lemma dot_multiplyScalar_left: "dot (multiplyScalar a s) b = s * dot a b"
  by (simp add: dot_def multiplyScalar_def algebra_simps)

lemma dot_multiplyScalar_right: "dot a (multiplyScalar b s) = s * dot a b"
  by (simp add: dot_def multiplyScalar_def algebra_simps)

lemma dot_cross_first: "dot (crossVectors a b) a = 0"
  by (simp add: dot_def crossVectors_def algebra_simps)

lemma dot_cross_second: "dot (crossVectors a b) b = 0"
  by (simp add: dot_def crossVectors_def algebra_simps)

lemma lengthSq_cross:
  "lengthSq (crossVectors a b) = lengthSq a * lengthSq b - dot a b * dot a b"
  by (simp add: lengthSq_def dot_def crossVectors_def algebra_simps)

lemma normalize_nonzero:
  "lengthSq v \<noteq> 0 \<Longrightarrow> normalizeVec v = multiplyScalar v (1 / vlength v)"
  by (simp add: normalizeVec_def divideScalar_def orNum_def vlength_def)

lemma normalize_unit:
  assumes "lengthSq v \<noteq> 0"
  shows "dot (normalizeVec v) (normalizeVec v) = 1"
proof -
  have pos: "0 < lengthSq v" using assms lengthSq_nonneg [of v] by simp
  have "dot (normalizeVec v) (normalizeVec v) = (1 / vlength v) * ((1 / vlength v) * dot v v)"
    by (simp add: normalize_nonzero [OF assms] dot_multiplyScalar_left dot_multiplyScalar_right)
  also have "\<dots> = lengthSq v / (vlength v * vlength v)"
    by (simp add: lengthSq_eq_dot)
  also have "vlength v * vlength v = lengthSq v"
    using pos by (simp add: vlength_def)
  finally show ?thesis using pos by simp
qed

lemma normalize_of_unit: "lengthSq v = 1 \<Longrightarrow> normalizeVec v = v"
  by (cases v) (simp add: normalizeVec_def divideScalar_def orNum_def vlength_def multiplyScalar_def)

lemma dot_normalize_left: "dot a b = 0 \<Longrightarrow> dot (normalizeVec a) b = 0"
  by (simp add: normalizeVec_def divideScalar_def dot_multiplyScalar_left)

lemma dot_normalize_right: "dot a b = 0 \<Longrightarrow> dot a (normalizeVec b) = 0"
  by (simp add: normalizeVec_def divideScalar_def dot_multiplyScalar_right)

lemma eastBeforeNormalize_nonzero:
  assumes "lengthSq n = 1"
  shows "lengthSq (eastBeforeNormalize n) \<noteq> 0"
proof (cases "lengthSq (crossVectors (Vector3 0 1 0) n) < 1 / 1000000")
  case False
  then show ?thesis by (simp add: eastBeforeNormalize_def Let_def)
next
  case True
  then have small: "vz n * vz n + vx n * vx n < 1 / 1000000"
    by (simp add: lengthSq_def crossVectors_def)
  have "lengthSq (crossVectors (Vector3 0 0 1) n) = vy n * vy n + vx n * vx n"
    by (simp add: lengthSq_def crossVectors_def)
  moreover have "vy n * vy n = 1 - (vz n * vz n + vx n * vx n) "
    using assms by (simp add: lengthSq_def)
  moreover have "0 \<le> vx n * vx n" "0 \<le> vz n * vz n" by simp_all
  ultimately have "0 < lengthSq (crossVectors (Vector3 0 0 1) n)"
    using small by linarith
  with True show ?thesis by (simp add: eastBeforeNormalize_def Let_def)
qed

lemma eastBeforeNormalize_perp: "dot (eastBeforeNormalize n) n = 0"
  by (simp add: eastBeforeNormalize_def Let_def dot_cross_second)

lemma tangentFrame_orthonormal_aux:
  assumes n: "lengthSq n = 1"
  defines "east \<equiv> normalizeVec (eastBeforeNormalize n)"
  defines "north \<equiv> normalizeVec (crossVectors n east)"
  shows "lengthSq (crossVectors n east) = 1"
    and "dot east east = 1" and "dot north north = 1"
    and "dot east north = 0" and "dot east n = 0" and "dot north n = 0"
proof -
  have e1: "dot east east = 1"
    unfolding east_def by (rule normalize_unit) (rule eastBeforeNormalize_nonzero [OF n])
  have en: "dot east n = 0"
    unfolding east_def by (rule dot_normalize_left) (rule eastBeforeNormalize_perp)
  have c1: "lengthSq (crossVectors n east) = 1"
  proof -
    have "lengthSq east = 1" using e1 by (simp add: lengthSq_eq_dot)
    moreover have "dot n east = 0" using en by (simp add: dot_commute)
    ultimately show ?thesis using n by (simp add: lengthSq_cross)
  qed
  then have north: "north = crossVectors n east"
    unfolding north_def by (rule normalize_of_unit)
  show "lengthSq (crossVectors n east) = 1" by (rule c1)
  show "dot east east = 1" by (rule e1)
  show "dot north north = 1" using c1 by (simp add: north lengthSq_eq_dot)
  show "dot east north = 0" by (simp add: north dot_commute [of east] dot_cross_second)
  show "dot east n = 0" by (rule en)
  show "dot north n = 0" by (simp add: north dot_cross_first)
qed

lemma normalize_latLon_unit:
  assumes "radius + altitude \<noteq> 0"
  shows "lengthSq (normalizeVec (latLonToVector3 lat lon radius altitude)) = 1"
proof -
  have "lengthSq (latLonToVector3 lat lon radius altitude) \<noteq> 0"
    using assms by (simp add: latLonToVector3_lengthSq)
  then show ?thesis by (simp add: lengthSq_eq_dot normalize_unit)
qed

text \<open>
  C9 (as amended). For every latitude and longitude, and every altitude for which
  \<open>SPHERE_RADIUS + altitude\<close> is not 0 and not above 1e150 in absolute value, the tangent
  frame is well defined: when the first cross product has squared length below 1e-6 the
  east vector is taken from the reference \<open>(0, 0, 1)\<close>; the vectors handed to the two
  \<^verbatim>\<open>normalize\<close> calls are not zero; and east, north and the normal have length one and
  are orthogonal to each other. Lengths and angles are those of exact arithmetic (the
  doubles give them up to rounding). The bound on the altitude keeps the squared length
  of the position below 1e300, inside the range of the doubles; the proof, in exact
  arithmetic, only needs that \<open>SPHERE_RADIUS + altitude\<close> is not 0.
\<close>

theorem tangentFrame_well_defined:
  "SPHERE_RADIUS + altitude \<noteq> 0 \<Longrightarrow> \<bar>SPHERE_RADIUS + altitude\<bar> \<le> 10 ^ 150 \<Longrightarrow>
   (let n = normalizeVec (latLonToVector3 lat lon SPHERE_RADIUS altitude);
        e0 = eastBeforeNormalize n;
        east = normalizeVec e0;
        n0 = crossVectors n east;
        north = normalizeVec n0
    in tangentFrame (latLonToVector3 lat lon SPHERE_RADIUS altitude) = (east, north, n) \<and>
       (lengthSq (crossVectors (Vector3 0 1 0) n) < 1 / 1000000 \<longrightarrow>
          e0 = crossVectors (Vector3 0 0 1) n) \<and>
       lengthSq e0 \<noteq> 0 \<and> lengthSq n0 \<noteq> 0 \<and>
       dot east east = 1 \<and> dot north north = 1 \<and> dot n n = 1 \<and>
       dot east north = 0 \<and> dot east n = 0 \<and> dot north n = 0)"
proof -
  assume R: "SPHERE_RADIUS + altitude \<noteq> 0"
  define n where "n = normalizeVec (latLonToVector3 lat lon SPHERE_RADIUS altitude)"
  have n1: "lengthSq n = 1" unfolding n_def by (rule normalize_latLon_unit [OF R])
  note f = tangentFrame_orthonormal_aux [OF n1]
  have "lengthSq (crossVectors (Vector3 0 1 0) n) < 1 / 1000000 \<longrightarrow>
          eastBeforeNormalize n = crossVectors (Vector3 0 0 1) n"
    by (simp add: eastBeforeNormalize_def Let_def)
  moreover have "tangentFrame (latLonToVector3 lat lon SPHERE_RADIUS altitude)
      = (normalizeVec (eastBeforeNormalize n),
         normalizeVec (crossVectors n (normalizeVec (eastBeforeNormalize n))), n)"
    by (simp add: tangentFrame_def Let_def n_def)
  moreover have "lengthSq (eastBeforeNormalize n) \<noteq> 0"
    by (rule eastBeforeNormalize_nonzero [OF n1])
  moreover have "dot n n = 1" using n1 by (simp add: lengthSq_eq_dot)
  ultimately show ?thesis
    using f unfolding Let_def n_def [symmetric] by simp
qed

lemma normalize_axis_x: "0 < a \<Longrightarrow> normalizeVec (Vector3 a 0 0) = Vector3 1 0 0"
  by (simp add: normalizeVec_def divideScalar_def multiplyScalar_def orNum_def vlength_def
      lengthSq_def)

lemma normalize_axis_y: "0 < b \<Longrightarrow> normalizeVec (Vector3 0 b 0) = Vector3 0 1 0"
  by (simp add: normalizeVec_def divideScalar_def multiplyScalar_def orNum_def vlength_def
      lengthSq_def)

lemma pole_position: "latLonToVector3 90 0 SPHERE_RADIUS 0.15 = Vector3 0 (403 / 20) 0"
  by (simp add: latLonToVector3_def degToRad_def SPHERE_RADIUS_def Let_def)

lemma pole_frame:
  "tangentFrame (Vector3 0 (403 / 20) 0) = (Vector3 (- 1) 0 0, Vector3 0 0 1, Vector3 0 1 0)"
  by (simp add: tangentFrame_def Let_def normalize_axis_y eastBeforeNormalize_def
      crossVectors_def lengthSq_def normalize_of_unit)

text \<open>
  C9 at the north pole with the default altitude 0.15: the normal is \<open>(0, 1, 0)\<close>, the
  first cross product is zero, and the frame comes from the second reference. The
  doubles compute the same frame there.
\<close>

theorem tangentFrame_well_defined_witness:
  "(SPHERE_RADIUS + 0.15 \<noteq> 0 \<and> \<bar>SPHERE_RADIUS + 0.15\<bar> \<le> 10 ^ 150 \<and>
    lengthSq (crossVectors (Vector3 0 1 0)
       (normalizeVec (latLonToVector3 90 0 SPHERE_RADIUS 0.15))) < 1 / 1000000 \<and>
    eastBeforeNormalize (normalizeVec (latLonToVector3 90 0 SPHERE_RADIUS 0.15))
       = crossVectors (Vector3 0 0 1) (Vector3 0 1 0) \<and>
    tangentFrame (latLonToVector3 90 0 SPHERE_RADIUS 0.15)
       = (Vector3 (- 1) 0 0, Vector3 0 0 1, Vector3 0 1 0)) \<and>
   tangentFrame64 (latLonToVector3_64 (num 90) (num 0) SPHERE_RADIUS64 (num 0.15)) =
     (Vector3_64 (Fin (- 1)) (Fin 0) (Fin 0), Vector3_64 (Fin 0) (Fin 0) (Fin 1),
      Vector3_64 (Fin 0) (Fin 1) (Fin 0))"
proof (rule conjI)
  have R: "SPHERE_RADIUS + 0.15 \<noteq> 0" by (simp add: SPHERE_RADIUS_def)
  have B: "\<bar>SPHERE_RADIUS + 0.15\<bar> \<le> 10 ^ 150" by (simp add: SPHERE_RADIUS_def)
  have n: "normalizeVec (latLonToVector3 90 0 SPHERE_RADIUS 0.15) = Vector3 0 1 0"
    unfolding pole_position by (simp add: normalize_axis_y)
  have small: "lengthSq (crossVectors (Vector3 0 1 0) (Vector3 0 1 0)) < 1 / 1000000"
    by (simp add: crossVectors_def lengthSq_def)
  from tangentFrame_well_defined [OF R B, of 90 0] small
  have "eastBeforeNormalize (Vector3 0 1 0) = crossVectors (Vector3 0 0 1) (Vector3 0 1 0)"
    unfolding Let_def n by simp
  with R B small
  show "SPHERE_RADIUS + 0.15 \<noteq> 0 \<and> \<bar>SPHERE_RADIUS + 0.15\<bar> \<le> 10 ^ 150 \<and>
    lengthSq (crossVectors (Vector3 0 1 0)
       (normalizeVec (latLonToVector3 90 0 SPHERE_RADIUS 0.15))) < 1 / 1000000 \<and>
    eastBeforeNormalize (normalizeVec (latLonToVector3 90 0 SPHERE_RADIUS 0.15))
       = crossVectors (Vector3 0 0 1) (Vector3 0 1 0) \<and>
    tangentFrame (latLonToVector3 90 0 SPHERE_RADIUS 0.15)
       = (Vector3 (- 1) 0 0, Vector3 0 0 1, Vector3 0 1 0)"
    unfolding n unfolding pole_position pole_frame by simp
next
  show "tangentFrame64 (latLonToVector3_64 (num 90) (num 0) SPHERE_RADIUS64 (num 0.15)) =
     (Vector3_64 (Fin (- 1)) (Fin 0) (Fin 0), Vector3_64 (Fin 0) (Fin 0) (Fin 1),
      Vector3_64 (Fin 0) (Fin 1) (Fin 0))"
    by (rule pole_frame64_default)
qed

lemma normalize_zero: "normalizeVec (Vector3 0 0 0) = Vector3 0 0 0"
  by (simp add: normalizeVec_def divideScalar_def multiplyScalar_def orNum_def vlength_def
      lengthSq_def)

text \<open>
  C9 as the claim words it, for every latitude and longitude with nothing said of the
  altitude, fails in two ways.

  At altitude -20 the position is the zero vector, \<^verbatim>\<open>normalize\<close> leaves it zero, both
  cross products vanish, and the three vectors of the frame are zero.

  At altitude 1e200, at the pole (latitude 90, longitude -180, where the angles \<open>phi\<close>
  and \<open>theta\<close> are exactly 0), the doubles give \<open>r = 20 + 1e200 = 1e200\<close>, not 0, and the
  position \<open>(0, 1e200, 0)\<close>; its squared length overflows to \<^verbatim>\<open>Infinity\<close>, so does its
  length, \<^verbatim>\<open>1 / Infinity\<close> is 0, and \<^verbatim>\<open>normalize\<close> returns the zero vector: again the
  three vectors of the frame are zero.
\<close>

theorem tangentFrame_center_counterexample:
  "latLonToVector3 0 0 SPHERE_RADIUS (- 20) = Vector3 0 0 0 \<and>
   lengthSq (eastBeforeNormalize (normalizeVec (latLonToVector3 0 0 SPHERE_RADIUS (- 20)))) = 0 \<and>
   tangentFrame (latLonToVector3 0 0 SPHERE_RADIUS (- 20))
     = (Vector3 0 0 0, Vector3 0 0 0, Vector3 0 0 0) \<and>
   dot (fst (tangentFrame (latLonToVector3 0 0 SPHERE_RADIUS (- 20))))
       (fst (tangentFrame (latLonToVector3 0 0 SPHERE_RADIUS (- 20)))) \<noteq> 1 \<and>
   fadd SPHERE_RADIUS64 (num (10 ^ 200)) = Fin (5883593420661338 * 2 ^ 612) \<and>
   latLonToVector3_64 (num 90) (num (- 180)) SPHERE_RADIUS64 (num (10 ^ 200)) =
     Vector3_64 (Fin 0) (Fin (5883593420661338 * 2 ^ 612)) (Fin 0) \<and>
   lengthSq64 (latLonToVector3_64 (num 90) (num (- 180)) SPHERE_RADIUS64 (num (10 ^ 200))) = PInf \<and>
   tangentFrame64 (latLonToVector3_64 (num 90) (num (- 180)) SPHERE_RADIUS64 (num (10 ^ 200))) =
     (Vector3_64 (Fin 0) (Fin 0) (Fin 0), Vector3_64 (Fin 0) (Fin 0) (Fin 0),
      Vector3_64 (Fin 0) (Fin 0) (Fin 0))"
proof -
  have p: "latLonToVector3 0 0 SPHERE_RADIUS (- 20) = Vector3 0 0 0"
    by (simp add: latLonToVector3_def degToRad_def SPHERE_RADIUS_def Let_def)
  have e: "eastBeforeNormalize (Vector3 0 0 0) = Vector3 0 0 0"
    by (simp add: eastBeforeNormalize_def crossVectors_def lengthSq_def)
  have c: "crossVectors (Vector3 0 0 0) (Vector3 0 0 0) = Vector3 0 0 0"
    by (simp add: crossVectors_def)
  have f: "tangentFrame (Vector3 0 0 0) = (Vector3 0 0 0, Vector3 0 0 0, Vector3 0 0 0)"
    by (simp add: tangentFrame_def Let_def normalize_zero e c)
  have e1: "latLonToVector3 0 0 SPHERE_RADIUS (- 20) = Vector3 0 0 0"
    and e2: "lengthSq (eastBeforeNormalize (normalizeVec (latLonToVector3 0 0 SPHERE_RADIUS (- 20)))) = 0"
    and e3: "tangentFrame (latLonToVector3 0 0 SPHERE_RADIUS (- 20))
               = (Vector3 0 0 0, Vector3 0 0 0, Vector3 0 0 0)"
    and e4: "dot (fst (tangentFrame (latLonToVector3 0 0 SPHERE_RADIUS (- 20))))
               (fst (tangentFrame (latLonToVector3 0 0 SPHERE_RADIUS (- 20)))) \<noteq> 1"
    unfolding p by (simp_all add: normalize_zero e f lengthSq_def dot_def)
  have d1: "fadd SPHERE_RADIUS64 (num (10 ^ 200)) = Fin (5883593420661338 * 2 ^ 612)"
    using pole_radius64 by simp
  have d2: "latLonToVector3_64 (num 90) (num (- 180)) SPHERE_RADIUS64 (num (10 ^ 200)) =
              Vector3_64 (Fin 0) (Fin (5883593420661338 * 2 ^ 612)) (Fin 0)"
    using pole_position64 by simp
  show ?thesis
    by (intro conjI) (fact e1 e2 e3 e4 d1 d2 pole_lengthSq64 pole_frame64)+
qed


section \<open>The scene through the events of the page\<close>

lemma sceneInv_iff:
  "sceneInv st \<longleftrightarrow>
     baseMesh st = Some (Vector3 0 0 0) \<and>
     twinkleTime st = 0.027 \<and>
     (\<exists>children. markersGroup st = Some children \<and>
        length (loads st) = length children \<and>
        (\<forall>m \<in> set children. outward m \<noteq> None) \<and>
        (\<forall>k < length (loads st). load_plane (loads st ! k) = k))"
  by (auto simp: sceneInv_def split: option.splits)

lemma attenuateMarker_fields:
  "outward (attenuateMarker c v m) = outward m"
  "position (attenuateMarker c v m) = position m"
  "rotation (attenuateMarker c v m) = rotation m"
  "roll (attenuateMarker c v m) = roll m"
  "baseSize (attenuateMarker c v m) = baseSize m"
  "aspect (attenuateMarker c v m) = aspect m"
  "material (attenuateMarker c v m) = material m"
  by (simp_all add: attenuateMarker_def Let_def)

lemma attenuateMarker_visible:
  "visible (attenuateMarker c v m) \<longleftrightarrow>
     0 < dot (case outward m of Some n \<Rightarrow> n | None \<Rightarrow> normalizeVec (sub (position m) c)) v"
  by (simp add: attenuateMarker_def Let_def)

lemma attenuateMarker_shape:
  "\<exists>sc vi. attenuateMarker c v m = m\<lparr>scale := sc, visible := vi\<rparr>"
proof (cases "visible (attenuateMarker c v m)")
  case True
  then show ?thesis
    by (intro exI [of _ "scale (attenuateMarker c v m)"] exI [of _ True])
       (simp add: attenuateMarker_def Let_def split: if_splits)
next
  case False
  then show ?thesis
    by (intro exI [of _ "scale m"] exI [of _ False])
       (simp add: attenuateMarker_def Let_def split: if_splits)
qed

lemma attenuate_markers:
  "markersGroup st = Some children \<Longrightarrow> baseMesh st = Some center \<Longrightarrow>
     attenuateMarkerScaleAndVisibility st =
       st\<lparr>markersGroup :=
            Some (map (attenuateMarker center (viewDirection (camera_position st) center)) children)\<rparr>"
  by (simp add: attenuateMarkerScaleAndVisibility_def Let_def)

lemma attenuate_other_fields:
  "baseMesh (attenuateMarkerScaleAndVisibility st) = baseMesh st"
  "twinkleTime (attenuateMarkerScaleAndVisibility st) = twinkleTime st"
  "loads (attenuateMarkerScaleAndVisibility st) = loads st"
  "materials (attenuateMarkerScaleAndVisibility st) = materials st"
  "camera_position (attenuateMarkerScaleAndVisibility st) = camera_position st"
  "console (attenuateMarkerScaleAndVisibility st) = console st"
  "scene_dots (attenuateMarkerScaleAndVisibility st) = scene_dots st"
  by (simp_all add: attenuateMarkerScaleAndVisibility_def Let_def split: option.splits)

lemma sceneInv_attenuate: "sceneInv st \<Longrightarrow> sceneInv (attenuateMarkerScaleAndVisibility st)"
  unfolding sceneInv_iff
  by (auto simp: attenuate_markers attenuateMarker_fields)

lemma sceneInv_animate: "sceneInv st \<Longrightarrow> sceneInv (animate cam st)"
proof -
  assume "sceneInv st"
  then have "sceneInv (st\<lparr>materials := map (\<lambda>m. m\<lparr>u_time := u_time m + twinkleTime st\<rparr>) (materials st),
                           camera_position := cam\<rparr>)"
    by (simp add: sceneInv_iff)
  then show ?thesis unfolding animate_def Let_def by (simp add: sceneInv_attenuate)
qed

lemma sceneInv_initScene: "sceneInv (initScene wide aniso cam)"
  unfolding initScene_def by (rule sceneInv_animate) (simp add: sceneInv_iff)

lemma sceneInv_addFlatMarker:
  assumes "sceneInv st" and "addFlatMarker opts st = Inr st'"
  shows "sceneInv st'"
proof -
  from assms(1) obtain children where c: "markersGroup st = Some children"
    and l: "length (loads st) = length children"
    and o: "\<forall>m \<in> set children. outward m \<noteq> None"
    and k: "\<forall>k < length (loads st). load_plane (loads st ! k) = k"
    and b: "baseMesh st = Some (Vector3 0 0 0)" and t: "twinkleTime st = 0.027"
    unfolding sceneInv_iff by blast
  from assms(2) c obtain ld where
    st': "st' = st\<lparr>markersGroup := Some (children @ [flatMarkerPlane opts]),
                    loads := loads st @ [ld]\<rparr>"
    and ld: "load_plane ld = length children"
    by (auto simp: addFlatMarker_def Let_def)
  have p: "outward (flatMarkerPlane opts) \<noteq> None"
    by (simp add: flatMarkerPlane_def Let_def)
  show ?thesis
    unfolding sceneInv_iff st' using l o k b t p ld
    by (auto simp: nth_append)
qed

lemma sceneInv_onTextureLoad:
  assumes "sceneInv st"
  shows "sceneInv (onTextureLoad ld tex st)"
proof -
  from assms obtain children where c: "markersGroup st = Some children"
    and l: "length (loads st) = length children"
    and o: "\<forall>m \<in> set children. outward m \<noteq> None"
    and k: "\<forall>k < length (loads st). load_plane (loads st ! k) = k"
    and b: "baseMesh st = Some (Vector3 0 0 0)" and t: "twinkleTime st = 0.027"
    unfolding sceneInv_iff by blast
  show ?thesis
  proof (cases "load_plane ld < length children")
    case False
    then have "onTextureLoad ld tex st = st" using c by (simp add: onTextureLoad_def Let_def)
    with assms show ?thesis by simp
  next
    case True
    then obtain plane' where
      st': "onTextureLoad ld tex st = st\<lparr>markersGroup := Some (children[load_plane ld := plane'])\<rparr>"
      and p: "outward plane' = outward (children ! load_plane ld)"
      using c by (simp add: onTextureLoad_def Let_def)
    have "outward m \<noteq> None" if "m \<in> set (children[load_plane ld := plane'])" for m
      using that o p True by (auto simp: set_conv_nth nth_list_update split: if_splits)
    then show ?thesis unfolding sceneInv_iff st' using l k b t by simp
  qed
qed

lemma sceneInv_imgOnload:
  "sceneInv st \<Longrightarrow> imgOnload d rnd st = Inr st' \<Longrightarrow> sceneInv st'"
  by (auto simp: imgOnload_def sceneInv_iff split: option.splits sum.splits)

lemma sceneInv_step:
  "sceneInv st \<Longrightarrow> step e st = Inr st' \<Longrightarrow> sceneInv st'"
proof (cases e)
  case (AddFlatMarker opts)
  assume "sceneInv st" "step e st = Inr st'"
  with AddFlatMarker show ?thesis by (simp add: step_def sceneInv_addFlatMarker)
next
  case (Frame cam)
  assume "sceneInv st" "step e st = Inr st'"
  with Frame show ?thesis by (auto simp: step_def sceneInv_animate)
next
  case (TextureLoaded k tex)
  assume "sceneInv st" "step e st = Inr st'"
  with TextureLoaded show ?thesis
    by (auto simp: step_def sceneInv_onTextureLoad split: if_splits)
next
  case (TextureFailed k err)
  assume "sceneInv st" "step e st = Inr st'"
  with TextureFailed show ?thesis
    by (auto simp: step_def onTextureError_def sceneInv_iff split: if_splits)
next
  case (ImageLoaded d rnd)
  assume "sceneInv st" "step e st = Inr st'"
  with ImageLoaded show ?thesis by (simp add: step_def sceneInv_imgOnload)
next
  case (Resize wide)
  assume "sceneInv st" "step e st = Inr st'"
  with Resize show ?thesis by (auto simp: step_def onResize_def sceneInv_iff)
qed

lemma sceneInv_run:
  "sceneInv st \<Longrightarrow> run es st = Inr st' \<Longrightarrow> sceneInv st'"
proof (induction es arbitrary: st)
  case Nil
  then show ?case by simp
next
  case (Cons e es)
  from Cons.prems(2) obtain st1 where s: "step e st = Inr st1" and r: "run es st1 = Inr st'"
    by (auto split: sum.splits)
  from Cons.IH [OF sceneInv_step [OF Cons.prems(1) s] r] show ?case .
qed

lemma sceneInv_visible:
  assumes "sceneInv st"
  shows "\<exists>children. markersGroup (attenuateMarkerScaleAndVisibility st) = Some children \<and>
           (\<forall>m \<in> set children. \<exists>n. outward m = Some n \<and>
              (visible m \<longleftrightarrow> 0 < dot n (viewDirection (camera_position st) (Vector3 0 0 0))))"
proof -
  from assms obtain children where c: "markersGroup st = Some children"
    and o: "\<forall>m \<in> set children. outward m \<noteq> None"
    and b: "baseMesh st = Some (Vector3 0 0 0)"
    unfolding sceneInv_iff by blast
  let ?v = "viewDirection (camera_position st) (Vector3 0 0 0)"
  have "\<exists>n. outward (attenuateMarker (Vector3 0 0 0) ?v m) = Some n \<and>
          (visible (attenuateMarker (Vector3 0 0 0) ?v m) \<longleftrightarrow> 0 < dot n ?v)"
    if "m \<in> set children" for m
  proof -
    from o that obtain n where n: "outward m = Some n" by auto
    then show ?thesis by (simp add: attenuateMarker_fields attenuateMarker_visible)
  qed
  then show ?thesis
    by (simp add: attenuate_markers [OF c b])
qed

text \<open>Concrete scenes: a marker on the equator at longitude 0, seen along the axes.\<close>

lemma initScene_value:
  "initScene wide aniso cam =
     \<lparr>camera_position = cam,
      baseMesh = Some (Vector3 0 0 0),
      markersGroup = Some [],
      maxAnisotropy = aniso,
      sharedMaterial = Some \<lparr>u_time = 1.0, u_colorA = ColorName ''#68D1BF'',
                             u_colorB = ColorName ''#1D6F78''\<rparr>,
      scene_dots = [],
      materials = [],
      twinkleTime = 0.027,
      loads = [],
      console = []\<rparr>"
  by (simp add: initScene_def animate_def attenuateMarkerScaleAndVisibility_def Let_def)

lemma equator_position:
  "latLonToVector3 0 0 SPHERE_RADIUS altitude = Vector3 (20 + altitude) 0 0"
  by (simp add: latLonToVector3_def degToRad_def SPHERE_RADIUS_def Let_def)

lemma normalize_axis_x_neg: "a < 0 \<Longrightarrow> normalizeVec (Vector3 a 0 0) = Vector3 (- 1) 0 0"
  by (simp add: normalizeVec_def divideScalar_def multiplyScalar_def orNum_def vlength_def
      lengthSq_def)

lemma flatMarkerPlane_equator:
  assumes "opt_lat opts = 0" and "opt_lon opts = 0"
    and "0 < 20 + orDefault (opt_altitude opts) 0.15"
  shows "outward (flatMarkerPlane opts) = Some (Vector3 1 0 0)"
    and "baseSize (flatMarkerPlane opts) = Some (orDefault (opt_size opts) 1.2)"
    and "aspect (flatMarkerPlane opts) = Some 1"
    and "scale (flatMarkerPlane opts)
           = Vector3 (orDefault (opt_size opts) 1.2) (orDefault (opt_size opts) 1.2) 1"
    and "visible (flatMarkerPlane opts)"
    and "texture_map (material (flatMarkerPlane opts)) = None"
  using assms
  by (simp_all add: flatMarkerPlane_def Let_def equator_position tangentFrame_def
      normalize_axis_x)

lemma addFlatMarker_added:
  "markersGroup st = Some children \<Longrightarrow>
     addFlatMarker opts st =
       Inr (st\<lparr>markersGroup := Some (children @ [flatMarkerPlane opts]),
               loads := loads st @ [\<lparr>load_plane = length children,
                                      load_iconUrl = opt_iconUrl opts,
                                      load_size = orDefault (opt_size opts) 1.2\<rparr>]\<rparr>)"
  by (simp add: addFlatMarker_def Let_def)


lemma viewDirection_axis:
  "viewDirection (Vector3 100 0 0) (Vector3 0 0 0) = Vector3 1 0 0"
  "viewDirection (Vector3 (- 100) 0 0) (Vector3 0 0 0) = Vector3 (- 1) 0 0"
  by (simp_all add: viewDirection_def sub_def normalize_axis_x normalize_axis_x_neg)

lemma defaultMarker_equator:
  "outward (flatMarkerPlane (defaultMarkerOpts 0 0)) = Some (Vector3 1 0 0)"
  "baseSize (flatMarkerPlane (defaultMarkerOpts 0 0)) = Some 1.35"
  "aspect (flatMarkerPlane (defaultMarkerOpts 0 0)) = Some 1"
  "scale (flatMarkerPlane (defaultMarkerOpts 0 0)) = Vector3 1.35 1.35 1"
  "visible (flatMarkerPlane (defaultMarkerOpts 0 0))"
  "texture_map (material (flatMarkerPlane (defaultMarkerOpts 0 0))) = None"
  using flatMarkerPlane_equator [of "defaultMarkerOpts 0 0"]
  by (simp_all add: defaultMarkerOpts_def orDefault_def)

lemma run_one_marker:
  "run [AddFlatMarker opts] (initScene wide aniso cam) =
     Inr ((initScene wide aniso cam)
            \<lparr>markersGroup := Some [flatMarkerPlane opts],
             loads := [\<lparr>load_plane = 0, load_iconUrl = opt_iconUrl opts,
                         load_size = orDefault (opt_size opts) 1.2\<rparr>]\<rparr>)"
  by (simp add: step_def addFlatMarker_added initScene_value)

lemma animate_one_marker:
  "markersGroup (animate cam ((initScene wide aniso cam0)\<lparr>markersGroup := Some [plane], loads := lds\<rparr>))
     = Some [attenuateMarker (Vector3 0 0 0) (viewDirection cam (Vector3 0 0 0)) plane]"
  by (simp add: animate_def Let_def attenuate_markers initScene_value)

lemma vlength_60_80: "vlength (Vector3 60 0 80) = 100"
proof -
  have "sqrt 10000 = 100" by (rule real_sqrt_unique) simp_all
  then show ?thesis by (simp add: vlength_def lengthSq_def)
qed

lemma viewDirection_oblique:
  "viewDirection (Vector3 60 0 80) (Vector3 0 0 0) = Vector3 (3 / 5) 0 (4 / 5)"
  by (simp add: viewDirection_def sub_def normalizeVec_def divideScalar_def multiplyScalar_def
      orNum_def vlength_60_80)

lemma zero_size_equator:
  "outward (flatMarkerPlane ((defaultMarkerOpts 0 0)\<lparr>opt_size := Some 0\<rparr>)) = Some (Vector3 1 0 0)"
  "baseSize (flatMarkerPlane ((defaultMarkerOpts 0 0)\<lparr>opt_size := Some 0\<rparr>)) = Some 0"
  "aspect (flatMarkerPlane ((defaultMarkerOpts 0 0)\<lparr>opt_size := Some 0\<rparr>)) = Some 1"
  using flatMarkerPlane_equator [of "(defaultMarkerOpts 0 0)\<lparr>opt_size := Some 0\<rparr>"]
  by (simp_all add: defaultMarkerOpts_def orDefault_def)


section \<open>Visibility and scale of the markers\<close>

text \<open>
  C3. In every state the page can reach, a run of
  \<^verbatim>\<open>attenuateMarkerScaleAndVisibility\<close>, alone or at the end of a frame, leaves every
  marker of the group with its outward normal stored and with \<^verbatim>\<open>visible\<close> true exactly
  when the dot product of that normal with the normalised direction from the centre of
  the globe (the origin) to the camera is positive.
\<close>

theorem markers_visible_iff_facing:
  "run es (initScene wide aniso cam0) = Inr st \<Longrightarrow>
   baseMesh st = Some (Vector3 0 0 0) \<and>
   (\<exists>children. markersGroup (attenuateMarkerScaleAndVisibility st) = Some children \<and>
      (\<forall>m \<in> set children. \<exists>n. outward m = Some n \<and>
         (visible m \<longleftrightarrow> 0 < dot n (viewDirection (camera_position st) (Vector3 0 0 0))))) \<and>
   (\<exists>children. markersGroup (animate cam st) = Some children \<and>
      (\<forall>m \<in> set children. \<exists>n. outward m = Some n \<and>
         (visible m \<longleftrightarrow> 0 < dot n (viewDirection cam (Vector3 0 0 0)))))"
proof -
  assume "run es (initScene wide aniso cam0) = Inr st"
  then have inv: "sceneInv st" by (rule sceneInv_run [OF sceneInv_initScene])
  let ?st2 = "st\<lparr>materials := map (\<lambda>m. m\<lparr>u_time := u_time m + twinkleTime st\<rparr>) (materials st),
                  camera_position := cam\<rparr>"
  have inv2: "sceneInv ?st2" using inv by (simp add: sceneInv_iff)
  have an: "animate cam st = attenuateMarkerScaleAndVisibility ?st2"
    by (simp add: animate_def Let_def)
  from inv have "baseMesh st = Some (Vector3 0 0 0)" by (simp add: sceneInv_iff)
  moreover note sceneInv_visible [OF inv]
  moreover from sceneInv_visible [OF inv2]
  have "\<exists>children. markersGroup (animate cam st) = Some children \<and>
      (\<forall>m \<in> set children. \<exists>n. outward m = Some n \<and>
         (visible m \<longleftrightarrow> 0 < dot n (viewDirection cam (Vector3 0 0 0))))"
    unfolding an by simp
  ultimately show ?thesis by (intro conjI)
qed

text \<open>
  C3 after one marker has been added on the equator at longitude 0: it is shown when the
  camera is at \<open>(100, 0, 0)\<close> and hidden when the camera is at \<open>(-100, 0, 0)\<close>.
\<close>

theorem markers_visible_iff_facing_witness:
  "\<exists>st front rear.
     run [AddFlatMarker (defaultMarkerOpts 0 0)] (initScene True None (Vector3 0 0 100)) = Inr st \<and>
     markersGroup (animate (Vector3 100 0 0) st) = Some [front] \<and>
     outward front = Some (Vector3 1 0 0) \<and> visible front \<and>
     markersGroup (animate (Vector3 (- 100) 0 0) st) = Some [rear] \<and>
     outward rear = Some (Vector3 1 0 0) \<and> \<not> visible rear"
proof -
  let ?o = "defaultMarkerOpts 0 0"
  let ?init = "initScene True None (Vector3 0 0 100)"
  let ?st = "?init\<lparr>markersGroup := Some [flatMarkerPlane ?o],
                   loads := [\<lparr>load_plane = 0, load_iconUrl = opt_iconUrl ?o,
                               load_size = orDefault (opt_size ?o) 1.2\<rparr>]\<rparr>"
  let ?front = "attenuateMarker (Vector3 0 0 0) (Vector3 1 0 0) (flatMarkerPlane ?o)"
  let ?rear = "attenuateMarker (Vector3 0 0 0) (Vector3 (- 1) 0 0) (flatMarkerPlane ?o)"
  have r: "run [AddFlatMarker ?o] ?init = Inr ?st" by (rule run_one_marker)
  have f: "markersGroup (animate (Vector3 100 0 0) ?st) = Some [?front]"
    and b: "markersGroup (animate (Vector3 (- 100) 0 0) ?st) = Some [?rear]"
    by (simp_all only: animate_one_marker viewDirection_axis)
  have of: "outward ?front = Some (Vector3 1 0 0)" and ob: "outward ?rear = Some (Vector3 1 0 0)"
    by (simp_all add: attenuateMarker_fields defaultMarker_equator)
  from markers_visible_iff_facing [OF r, of "Vector3 100 0 0"] f of
  have vf: "visible ?front" by (simp add: viewDirection_axis dot_def)
  from markers_visible_iff_facing [OF r, of "Vector3 (- 100) 0 0"] b ob
  have vb: "\<not> visible ?rear" by (simp add: viewDirection_axis dot_def)
  from r f b of ob vf vb show ?thesis by blast
qed

lemma scale_factor:
  "lerp minScale 1.0 (clamp d 0 1) = 0.55 + (1.0 - 0.55) * clamp d 0 1"
  by (simp add: lerp_def minScale_def field_simps)

lemma scale_factor_bounds:
  "0.55 \<le> 0.55 + (1.0 - 0.55) * clamp d 0 1 \<and> 0.55 + (1.0 - 0.55) * clamp d 0 1 \<le> (1.0 :: real)"
  by (simp add: clamp_def max_def min_def)

lemma lerp_exact: "lerp 0.55 1.0 t = 0.55 + (1.0 - 0.55) * t"
  by (simp add: lerp_def field_simps)

lemma attenuateMarker_scale:
  "visible (attenuateMarker c v m) \<Longrightarrow>
     scale (attenuateMarker c v m) =
       (let normal = (case outward m of Some n \<Rightarrow> n | None \<Rightarrow> normalizeVec (sub (position m) c));
            d = dot normal v;
            s = 0.55 + (1.0 - 0.55) * clamp d 0 1;
            base = (case baseSize m of None \<Rightarrow> 1 | Some b \<Rightarrow> if b = 0 then 1 else b);
            ar = (case aspect m of None \<Rightarrow> 1 | Some a \<Rightarrow> if a = 0 then 1 else a)
        in Vector3 (base * ar * s) (base * s) 1)"
  unfolding scale_factor [symmetric]
  by (simp add: attenuateMarker_def Let_def orNum_def split: if_splits option.splits)

text \<open>
  C4 (as amended). A marker left visible gets the scale \<open>(b * a * s, b * s, 1)\<close>, where
  \<open>s = lerp(0.55, 1.0, clamp(d, 0, 1))\<close>, that is \<open>(1 - t) * 0.55 + t * 1.0\<close> for
  \<open>t = clamp(d, 0, 1)\<close> and the dot product \<open>d\<close> of its normal with the view direction,
  \<open>b\<close> is its \<^verbatim>\<open>baseSize\<close>, or 1 when that is 0 or missing, and \<open>a\<close> is its \<^verbatim>\<open>aspect\<close>,
  or 1 when that is 0 or missing. \<open>s\<close> lies between 0.55 and 1.0, in exact arithmetic
  (first part) and as the doubles compute it, for every double \<open>d > 0\<close>, the infinite
  one included (second part). Nothing is said here of \<open>0.55 + 0.45 * t\<close> or of \<open>s\<close>
  growing with \<open>d\<close>: both hold in exact arithmetic only, see the counterexample.
\<close>

theorem marker_scale_attenuation:
  "markersGroup st = Some children \<Longrightarrow> baseMesh st = Some center \<Longrightarrow>
   (\<exists>children'. markersGroup (attenuateMarkerScaleAndVisibility st) = Some children' \<and>
      length children' = length children \<and>
      (\<forall>i < length children.
         (let m = children ! i; m' = children' ! i;
              normal = (case outward m of
                          Some n \<Rightarrow> n
                        | None \<Rightarrow> normalizeVec (sub (position m) center));
              d = dot normal (viewDirection (camera_position st) center);
              s = lerp 0.55 1.0 (clamp d 0 1);
              base = (case baseSize m of None \<Rightarrow> 1 | Some b \<Rightarrow> if b = 0 then 1 else b);
              ar = (case aspect m of None \<Rightarrow> 1 | Some a \<Rightarrow> if a = 0 then 1 else a)
          in (visible m' \<longleftrightarrow> 0 < d) \<and>
             (visible m' \<longrightarrow> scale m' = Vector3 (base * ar * s) (base * s) 1) \<and>
             0.55 \<le> s \<and> s \<le> 1.0))) \<and>
   (\<forall>d. isDouble d \<and> flt (num 0) d \<longrightarrow>
      (\<exists>s. scaleFactor64 d = Fin s \<and> 0.55 \<le> s \<and> s \<le> 1.0))"
proof -
  assume c: "markersGroup st = Some children" and b: "baseMesh st = Some center"
  let ?v = "viewDirection (camera_position st) center"
  let ?children' = "map (attenuateMarker center ?v) children"
  have g: "markersGroup (attenuateMarkerScaleAndVisibility st) = Some ?children'"
    by (simp add: attenuate_markers [OF c b])
  have each: "let m = children ! i; m' = ?children' ! i;
              normal = (case outward m of
                          Some n \<Rightarrow> n
                        | None \<Rightarrow> normalizeVec (sub (position m) center));
              d = dot normal ?v;
              s = 0.55 + (1.0 - 0.55) * clamp d 0 1;
              base = (case baseSize m of None \<Rightarrow> 1 | Some b \<Rightarrow> if b = 0 then 1 else b);
              ar = (case aspect m of None \<Rightarrow> 1 | Some a \<Rightarrow> if a = 0 then 1 else a)
          in (visible m' \<longleftrightarrow> 0 < d) \<and>
             (visible m' \<longrightarrow> scale m' = Vector3 (base * ar * s) (base * s) 1) \<and>
             0.55 \<le> s \<and> s \<le> 1.0"
    if "i < length children" for i
    using that scale_factor_bounds attenuateMarker_scale [of center ?v "children ! i"]
    by (simp add: Let_def attenuateMarker_visible)
  have first: "\<exists>children'. markersGroup (attenuateMarkerScaleAndVisibility st) = Some children' \<and>
      length children' = length children \<and>
      (\<forall>i < length children.
         (let m = children ! i; m' = children' ! i;
              normal = (case outward m of
                          Some n \<Rightarrow> n
                        | None \<Rightarrow> normalizeVec (sub (position m) center));
              d = dot normal ?v;
              s = lerp 0.55 1.0 (clamp d 0 1);
              base = (case baseSize m of None \<Rightarrow> 1 | Some b \<Rightarrow> if b = 0 then 1 else b);
              ar = (case aspect m of None \<Rightarrow> 1 | Some a \<Rightarrow> if a = 0 then 1 else a)
          in (visible m' \<longleftrightarrow> 0 < d) \<and>
             (visible m' \<longrightarrow> scale m' = Vector3 (base * ar * s) (base * s) 1) \<and>
             0.55 \<le> s \<and> s \<le> 1.0))"
    unfolding lerp_exact
    by (rule exI [of _ ?children']) (use g each in simp)
  have "\<exists>s. scaleFactor64 d = Fin s \<and> 0.55 \<le> s \<and> s \<le> 1.0"
    if "isDouble d \<and> flt (num 0) d" for d
    using that scaleFactor64_bounds [of d] by simp
  with first show ?thesis by blast
qed

text \<open>
  C4 for the marker on the equator seen from \<open>(60, 0, 80)\<close>: \<open>d = 0.6\<close>, \<open>s = 0.82\<close>, and
  the scale is \<open>1.35 * 0.82 = 1.107\<close>; and for the double \<open>d = 0.5\<close>.
\<close>

theorem marker_scale_attenuation_witness:
  "(\<exists>m'. markersGroup (attenuateMarkerScaleAndVisibility
            ((initScene True None (Vector3 60 0 80))
               \<lparr>markersGroup := Some [flatMarkerPlane (defaultMarkerOpts 0 0)]\<rparr>)) = Some [m'] \<and>
         visible m' \<and> scale m' = Vector3 1.107 1.107 1) \<and>
   isDouble (Fin (1 / 2)) \<and> flt (num 0) (Fin (1 / 2)) \<and>
   (\<exists>s. scaleFactor64 (Fin (1 / 2)) = Fin s \<and> 0.55 \<le> s \<and> s \<le> 1.0)"
proof -
  let ?plane = "flatMarkerPlane (defaultMarkerOpts 0 0)"
  let ?st = "(initScene True None (Vector3 60 0 80))\<lparr>markersGroup := Some [?plane]\<rparr>"
  have c: "markersGroup ?st = Some [?plane]" by simp
  have b: "baseMesh ?st = Some (Vector3 0 0 0)" by (simp add: initScene_value)
  have cam: "camera_position ?st = Vector3 60 0 80" by (simp add: initScene_value)
  note w = marker_scale_attenuation [OF c b]
  from w obtain children' where
    g: "markersGroup (attenuateMarkerScaleAndVisibility ?st) = Some children'"
    and l: "length children' = length [?plane]"
    and v: "visible (children' ! 0)"
    and s: "scale (children' ! 0) = Vector3 1.107 1.107 1"
    by (auto simp: Let_def cam viewDirection_oblique defaultMarker_equator dot_def clamp_def
        lerp_def)
  from l obtain m' where "children' = [m']" by (cases children') auto
  with g v s have first: "\<exists>m'. markersGroup (attenuateMarkerScaleAndVisibility ?st) = Some [m'] \<and>
      visible m' \<and> scale m' = Vector3 1.107 1.107 1"
    by auto
  have d: "isDouble (Fin (1 / 2))" "flt (num 0) (Fin (1 / 2))"
    by (simp_all add: fl_1_2 num_0)
  with w have "\<exists>s. scaleFactor64 (Fin (1 / 2)) = Fin s \<and> 0.55 \<le> s \<and> s \<le> 1.0"
    by blast
  with first d show ?thesis by (intro conjI)
qed

text \<open>
  C4 as the claim words it fails in three ways.

  With \<^verbatim>\<open>baseSize\<close> itself as the factor it fails for a marker added with \<^verbatim>\<open>size: 0\<close>:
  \<^verbatim>\<open>m.userData.baseSize || 1\<close> is 1, so facing the camera the marker gets the scale
  \<open>(1, 1, 1)\<close> and not \<open>(0, 0, 1)\<close>.

  As the doubles compute them, \<^verbatim>\<open>lerp(0.55, 1.0, t) = (1 - t) * 0.55 + t * 1.0\<close> is not
  \<open>0.55 + (1.0 - 0.55) * t\<close>: at \<open>d = 0.2\<close> the code gives 0.6400000000000001 and the
  formula of the claim gives 0.64.

  And \<open>s\<close> is not monotone in \<open>d\<close>: from \<open>d = 0.4596034657377336\<close> to the next double,
  0.45960346573773364, it goes down from 0.7568215595819802 to 0.75682155958198.
\<close>

theorem marker_scale_counterexample:
  "(case run [AddFlatMarker ((defaultMarkerOpts 0 0)\<lparr>opt_size := Some 0\<rparr>), Frame (Vector3 100 0 0)]
           (initScene True None (Vector3 0 0 100)) of
      Inl e \<Rightarrow> False
    | Inr st \<Rightarrow>
        (case markersGroup st of
           Some [m] \<Rightarrow>
             visible m \<and> outward m = Some (Vector3 1 0 0) \<and>
             baseSize m = Some 0 \<and> aspect m = Some 1 \<and>
             scale m = Vector3 1 1 1 \<and>
             scale m \<noteq> Vector3 (0 * 1 * (0.55 + (1.0 - 0.55) * clamp 1 0 1))
                               (0 * (0.55 + (1.0 - 0.55) * clamp 1 0 1)) 1
         | _ \<Rightarrow> False)) \<and>
   scaleFactor64 (num 0.2) = Fin (1441151880758559 / 2251799813685248) \<and>
   claimedScale64 (num 0.2) = Fin (5764607523034235 / 9007199254740992) \<and>
   scaleFactor64 (num 0.2) \<noteq> claimedScale64 (num 0.2) \<and>
   flt (num 0.4596034657377336) (num 0.45960346573773364) \<and>
   flt (scaleFactor64 (num 0.45960346573773364)) (scaleFactor64 (num 0.4596034657377336))"
proof -
  let ?o = "(defaultMarkerOpts 0 0)\<lparr>opt_size := Some 0\<rparr>"
  let ?m = "attenuateMarker (Vector3 0 0 0) (Vector3 1 0 0) (flatMarkerPlane ?o)"
  have v: "visible ?m"
    by (simp add: attenuateMarker_visible zero_size_equator dot_def)
  have sc: "scale ?m = Vector3 1 1 1"
    using attenuateMarker_scale [OF v]
    by (simp add: Let_def zero_size_equator dot_def clamp_def)
  have "run [AddFlatMarker ?o, Frame (Vector3 100 0 0)] (initScene True None (Vector3 0 0 100))
          = Inr (animate (Vector3 100 0 0)
                  ((initScene True None (Vector3 0 0 100))
                     \<lparr>markersGroup := Some [flatMarkerPlane ?o],
                      loads := [\<lparr>load_plane = 0, load_iconUrl = opt_iconUrl ?o,
                                  load_size = orDefault (opt_size ?o) 1.2\<rparr>]\<rparr>))"
    by (simp add: step_def addFlatMarker_added initScene_value)
  then have size0: "case run [AddFlatMarker ?o, Frame (Vector3 100 0 0)]
           (initScene True None (Vector3 0 0 100)) of
      Inl e \<Rightarrow> False
    | Inr st \<Rightarrow>
        (case markersGroup st of
           Some [m] \<Rightarrow>
             visible m \<and> outward m = Some (Vector3 1 0 0) \<and>
             baseSize m = Some 0 \<and> aspect m = Some 1 \<and>
             scale m = Vector3 1 1 1 \<and>
             scale m \<noteq> Vector3 (0 * 1 * (0.55 + (1.0 - 0.55) * clamp 1 0 1))
                               (0 * (0.55 + (1.0 - 0.55) * clamp 1 0 1)) 1
         | _ \<Rightarrow> False)"
    by (simp add: animate_one_marker viewDirection_axis v sc attenuateMarker_fields
        zero_size_equator)
  have "scaleFactor64 (num 0.2) \<noteq> claimedScale64 (num 0.2)"
    unfolding scaleFactor64_at_02 claimedScale64_at_02 by simp
  with size0 scaleFactor64_at_02 claimedScale64_at_02 scaleFactor64_not_monotone
  show ?thesis by (intro conjI) simp_all
qed


section \<open>The twinkle of the dots\<close>

lemma animate_materials:
  "materials (animate cam st) = map (\<lambda>m. m\<lparr>u_time := u_time m + twinkleTime st\<rparr>) (materials st)"
  by (simp add: animate_def Let_def attenuate_other_fields)

lemma animate_twinkleTime: "twinkleTime (animate cam st) = twinkleTime st"
  by (simp add: animate_def Let_def attenuate_other_fields)

lemma imgOnload_materials:
  assumes "imgOnload d rnd st = Inr st'"
  shows "twinkleTime st' = twinkleTime st \<and> (\<exists>extra. materials st' = materials st @ extra)"
proof -
  from assms obtain sh where sh: "sharedMaterial st = Some sh"
    by (auto simp: imgOnload_def split: option.splits)
  from placeDots_dots [of "readImageData d" sh rnd "scene_dots st" "materials st"]
  obtain ds ms where
    "placeDots (readImageData d) sh rnd (scene_dots st, materials st)
       = Inr (scene_dots st @ ds, materials st @ ms)"
    by blast
  with assms sh have "st' = st\<lparr>scene_dots := scene_dots st @ ds, materials := materials st @ ms\<rparr>"
    by (simp add: imgOnload_def)
  then show ?thesis by simp
qed

lemma step_materials:
  assumes "step e st = Inr st'"
  shows "twinkleTime st' = twinkleTime st \<and>
         (\<exists>extra. materials st' =
            (if isFrame e then map (\<lambda>m. m\<lparr>u_time := u_time m + twinkleTime st\<rparr>) (materials st)
             else materials st) @ extra)"
proof (cases e)
  case (AddFlatMarker opts)
  with assms show ?thesis
    by (auto simp: step_def addFlatMarker_def Let_def split: option.splits)
next
  case (Frame cam)
  with assms show ?thesis
    by (auto simp: step_def animate_materials animate_twinkleTime)
next
  case (TextureLoaded k tex)
  with assms show ?thesis
    by (auto simp: step_def onTextureLoad_def Let_def split: if_splits option.splits)
next
  case (TextureFailed k err)
  with assms show ?thesis
    by (auto simp: step_def onTextureError_def split: if_splits)
next
  case (ImageLoaded d rnd)
  with assms show ?thesis
    using imgOnload_materials [of d rnd st st'] by (simp add: step_def)
next
  case (Resize wide)
  with assms show ?thesis
    by (auto simp: step_def onResize_def)
qed

lemma run_materials:
  "run es st = Inr st' \<Longrightarrow>
     twinkleTime st' = twinkleTime st \<and>
     take (length (materials st)) (materials st') =
       map (\<lambda>m. m\<lparr>u_time := u_time m + twinkleTime st * real (length (filter isFrame es))\<rparr>)
         (materials st)"
proof (induction es arbitrary: st)
  case Nil
  then show ?case by simp
next
  case (Cons e es)
  from Cons.prems obtain st1 where s: "step e st = Inr st1" and r: "run es st1 = Inr st'"
    by (auto split: sum.splits)
  let ?t = "twinkleTime st"
  let ?n = "length (filter isFrame es)"
  define M1 where
    "M1 = (if isFrame e then map (\<lambda>m. m\<lparr>u_time := u_time m + ?t\<rparr>) (materials st)
           else materials st)"
  from step_materials [OF s] obtain extra where
    t1: "twinkleTime st1 = ?t" and m1: "materials st1 = M1 @ extra"
    unfolding M1_def by blast
  from Cons.IH [OF r] t1 m1 have
    t': "twinkleTime st' = ?t"
    and ih: "take (length (M1 @ extra)) (materials st') =
               map (\<lambda>m. m\<lparr>u_time := u_time m + ?t * real ?n\<rparr>) (M1 @ extra)"
    by simp_all
  have len: "length M1 = length (materials st)" by (simp add: M1_def)
  have "take (length (materials st)) (materials st')
          = take (length M1) (take (length (M1 @ extra)) (materials st'))"
    by (simp add: len min_def)
  also have "\<dots> = take (length M1) (map (\<lambda>m. m\<lparr>u_time := u_time m + ?t * real ?n\<rparr>) (M1 @ extra))"
    by (simp only: ih)
  also have "\<dots> = map (\<lambda>m. m\<lparr>u_time := u_time m + ?t * real ?n\<rparr>) M1"
    by simp
  also have "\<dots> = map (\<lambda>m. m\<lparr>u_time := u_time m + ?t * real (length (filter isFrame (e # es)))\<rparr>)
                     (materials st)"
    by (simp add: M1_def algebra_simps)
  finally show ?case using t' by simp
qed

text \<open>
  C7. \<^verbatim>\<open>twinkleTime\<close> is 0.027 when the page starts and no event changes it. A frame adds
  it to \<^verbatim>\<open>u_time\<close> of every material of the list and leaves the colours alone. Over any
  run of events, the materials that were in the list at its start end with \<^verbatim>\<open>u_time\<close>
  raised by \<^verbatim>\<open>twinkleTime\<close> times the number of frames of the run, which is 0.027 times
  that number in a state the page can reach; with \<^verbatim>\<open>twinkleTime\<close> set to 0 they do not
  change.
\<close>

theorem frame_advances_u_time:
  "twinkleTime (initScene wide aniso cam0) = 0.027 \<and>
   materials (animate cam st) =
     map (\<lambda>m. m\<lparr>u_time := u_time m + twinkleTime st\<rparr>) (materials st) \<and>
   (run es st = Inr st' \<longrightarrow>
      twinkleTime st' = twinkleTime st \<and>
      take (length (materials st)) (materials st') =
        map (\<lambda>m. m\<lparr>u_time := u_time m + twinkleTime st * real (length (filter isFrame es))\<rparr>)
          (materials st)) \<and>
   (run es0 (initScene wide aniso cam0) = Inr st \<and> run es st = Inr st' \<longrightarrow>
      take (length (materials st)) (materials st') =
        map (\<lambda>m. m\<lparr>u_time := u_time m + 0.027 * real (length (filter isFrame es))\<rparr>)
          (materials st)) \<and>
   (run es (st\<lparr>twinkleTime := 0\<rparr>) = Inr st' \<longrightarrow>
      take (length (materials st)) (materials st') = materials st)"
proof (intro conjI impI)
  show "twinkleTime (initScene wide aniso cam0) = 0.027"
    by (simp add: initScene_value)
  show "materials (animate cam st) =
          map (\<lambda>m. m\<lparr>u_time := u_time m + twinkleTime st\<rparr>) (materials st)"
    by (rule animate_materials)
  show "twinkleTime st' = twinkleTime st" if "run es st = Inr st'"
    using run_materials [OF that] by simp
  show "take (length (materials st)) (materials st') =
          map (\<lambda>m. m\<lparr>u_time := u_time m + twinkleTime st * real (length (filter isFrame es))\<rparr>)
            (materials st)" if "run es st = Inr st'"
    using run_materials [OF that] by simp
  show "take (length (materials st)) (materials st') =
          map (\<lambda>m. m\<lparr>u_time := u_time m + 0.027 * real (length (filter isFrame es))\<rparr>)
            (materials st)"
    if "run es0 (initScene wide aniso cam0) = Inr st \<and> run es st = Inr st'"
  proof -
    from that have "sceneInv st" using sceneInv_run [OF sceneInv_initScene] by blast
    then have "twinkleTime st = 0.027" by (simp add: sceneInv_iff)
    with that run_materials [of es st st'] show ?thesis by simp
  qed
  show "take (length (materials st)) (materials st') = materials st"
    if "run es (st\<lparr>twinkleTime := 0\<rparr>) = Inr st'"
    using run_materials [OF that] by simp
qed

text \<open>The page after the mask of one black pixel has been loaded: one dot, one material.\<close>

lemma placeRow_no_row:
  "a lat = None \<Longrightarrow> placeRow a sh rnd lat i n x st = Inr st"
proof (induction a sh rnd lat i n x st rule: placeRow.induct)
  case (1 a sh rnd lat i n x st)
  have v: "visibleAt a (candidateLon n x) lat = Inr False"
    using "1.prems" by (simp add: visibleAt_def)
  show ?case
  proof (cases "x < n")
    case True
    from "1.IH"(1) [OF True refl v _ "1.prems"] True v show ?thesis
      by (subst placeRow.simps) (simp add: Let_def)
  next
    case False
    then show ?thesis by (subst placeRow.simps) simp
  qed
qed

lemma placeLats_no_rows:
  "\<forall>lat' \<le> lat. a lat' = None \<Longrightarrow> placeLats a sh rnd lat i st = Inr st"
proof (induction a sh rnd lat i st rule: placeLats.induct)
  case (1 a sh rnd lat i st)
  have row: "placeRow a sh rnd lat i (dotsForLat lat) 0 st = Inr st"
    using "1.prems" by (simp add: placeRow_no_row)
  show ?case
  proof (cases "lat > - 90")
    case True
    have "placeLats a sh rnd (lat - 1) (i + 1) st = Inr st"
      using "1.IH" [OF True row] "1.prems" by simp
    with True row show ?thesis by (subst placeLats.simps) simp
  next
    case False
    then show ?thesis by (subst placeLats.simps) simp
  qed
qed

lemma placeDots_one_pixel:
  "placeDots (Map.empty(90 \<mapsto> [- 180])) sh rnd ([], []) =
     Inr ([\<lparr>dot_position = Vector3 0 20 0, dot_material = sh\<lparr>u_time := 0\<rparr>\<rparr>],
          [sh\<lparr>u_time := 0\<rparr>])"
proof -
  let ?a = "Map.empty(90 \<mapsto> [- 180 :: int])"
  let ?m = "sh\<lparr>u_time := 0\<rparr>"
  let ?st = "([\<lparr>dot_position = Vector3 0 20 0, dot_material = ?m\<rparr>], [?m])"
  have v: "visibleAt ?a (- 180) 90 = Inr True"
    by (simp add: visibleAt_def)
  have stop: "placeRow ?a sh rnd 90 0 1 1 ?st = Inr ?st"
    by (subst placeRow.simps) simp
  have row: "placeRow ?a sh rnd 90 0 (dotsForLat 90) 0 ([], []) = Inr ?st"
    unfolding dotsForLat_pole
    by (subst placeRow.simps)
       (simp add: v Let_def createDotMaterial_def posFromLatLon_pole candidateLon_def stop)
  have rest: "placeLats ?a sh rnd 89 i ?st = Inr ?st" for i
    by (rule placeLats_no_rows) simp
  show ?thesis
    unfolding placeDots_def by (subst placeLats.simps) (simp add: row rest)
qed

lemma run_one_pixel:
  "run [ImageLoaded [0, 0, 0, 255] rnd] (initScene wide aniso cam) =
     Inr ((initScene wide aniso cam)
            \<lparr>scene_dots := [\<lparr>dot_position = Vector3 0 20 0,
                              dot_material = \<lparr>u_time = 0, u_colorA = ColorName ''#68D1BF'',
                                               u_colorB = ColorName ''#1D6F78''\<rparr>\<rparr>],
             materials := [\<lparr>u_time = 0, u_colorA = ColorName ''#68D1BF'',
                             u_colorB = ColorName ''#1D6F78''\<rparr>]\<rparr>)"
  by (simp add: step_def imgOnload_def readImageData_one_pixel placeDots_one_pixel initScene_value)

text \<open>
  C7 for the material of that dot: its \<^verbatim>\<open>u_time\<close> starts at 0, is 0.054 after two frames
  with a resize in between, and stays 0 over two frames when \<^verbatim>\<open>twinkleTime\<close> is 0.
\<close>

theorem frame_advances_u_time_witness:
  "\<exists>st st' st''.
     run [ImageLoaded [0, 0, 0, 255] (\<lambda>k. 0)] (initScene True None (Vector3 0 0 100)) = Inr st \<and>
     map u_time (materials st) = [0] \<and>
     run [Frame (Vector3 0 0 100), Resize False, Frame (Vector3 0 0 140)] st = Inr st' \<and>
     map u_time (materials st') = [0.054] \<and>
     run [Frame (Vector3 0 0 100), Frame (Vector3 0 0 100)] (st\<lparr>twinkleTime := 0\<rparr>) = Inr st'' \<and>
     map u_time (materials st'') = [0]"
proof -
  let ?init = "initScene True None (Vector3 0 0 100)"
  let ?m = "\<lparr>u_time = 0, u_colorA = ColorName ''#68D1BF'', u_colorB = ColorName ''#1D6F78''\<rparr>"
  let ?st = "?init\<lparr>scene_dots := [\<lparr>dot_position = Vector3 0 20 0, dot_material = ?m\<rparr>],
                   materials := [?m]\<rparr>"
  let ?es = "[Frame (Vector3 0 0 100), Resize False, Frame (Vector3 0 0 140)]"
  let ?st' = "animate (Vector3 0 0 140) (onResize False (animate (Vector3 0 0 100) ?st))"
  let ?two = "[Frame (Vector3 0 0 100), Frame (Vector3 0 0 100)]"
  let ?frozen = "animate (Vector3 0 0 100) (animate (Vector3 0 0 100) (?st\<lparr>twinkleTime := 0\<rparr>))"
  have r0: "run [ImageLoaded [0, 0, 0, 255] (\<lambda>k. 0)] ?init = Inr ?st" by (rule run_one_pixel)
  have m0: "map u_time (materials ?st) = [0]" by simp
  have r1: "run ?es ?st = Inr ?st'" by (simp add: step_def)
  have r2: "run ?two (?st\<lparr>twinkleTime := 0\<rparr>) = Inr ?frozen" by (simp add: step_def)
  note w1 = frame_advances_u_time [where wide = True and aniso = None
      and ?cam0.0 = "Vector3 0 0 100" and st = ?st and es = ?es and st' = ?st'
      and ?es0.0 = "[ImageLoaded [0, 0, 0, 255] (\<lambda>k. 0)]"]
  note w2 = frame_advances_u_time [where st = ?st and es = ?two and st' = ?frozen]
  have l1: "length (materials ?st') = 1"
    by (simp add: animate_materials onResize_def)
  have l2: "length (materials ?frozen) = 1"
    by (simp add: animate_materials)
  from w1 r0 r1 have
    "take (length (materials ?st)) (materials ?st') =
       map (\<lambda>m. m\<lparr>u_time := u_time m + 0.027 * real (length (filter isFrame ?es))\<rparr>)
         (materials ?st)"
    by blast
  then have "take 1 (materials ?st') = [?m\<lparr>u_time := 0.054\<rparr>]" by simp
  with l1 have m1: "map u_time (materials ?st') = [0.054]" by simp
  from w2 r2 have "take (length (materials ?st)) (materials ?frozen) = materials ?st"
    by blast
  then have "take 1 (materials ?frozen) = [?m]" by simp
  with l2 have m2: "map u_time (materials ?frozen) = [0]" by simp
  show ?thesis
    by (rule exI [of _ ?st], rule exI [of _ ?st'], rule exI [of _ ?frozen])
       (intro conjI r0 m0 r1 m1 r2 m2)
qed


section \<open>A texture that fails to load\<close>

text \<open>
  Through any event other than the success callback of its own load, a marker of the
  group stays where it is in the group and changes in \<^verbatim>\<open>scale\<close> and \<^verbatim>\<open>visible\<close> at most;
  only a frame changes those.
\<close>

lemma onTextureError_scene:
  "onTextureError ld err st =
     st\<lparr>console := console st @ [(''Marker texture failed to load:'', load_iconUrl ld, err)]\<rparr>"
  by (simp add: onTextureError_def)

lemma marker_same_shape: "\<exists>sc vi. m = m\<lparr>scale := sc, visible := vi\<rparr>" for m :: Marker
  by (intro exI [of _ "scale m"] exI [of _ "visible m"]) simp

lemma step_keeps_marker:
  assumes inv: "sceneInv st" and c: "markersGroup st = Some children" and i: "i < length children"
    and s: "step e st = Inr st'" and nl: "\<forall>tex. e \<noteq> TextureLoaded i tex"
  shows "\<exists>children' more.
           markersGroup st' = Some children' \<and> i < length children' \<and>
           loads st' = loads st @ more \<and>
           (\<exists>sc vi. children' ! i = (children ! i)\<lparr>scale := sc, visible := vi\<rparr>) \<and>
           (\<not> isFrame e \<longrightarrow> children' ! i = children ! i)"
proof -
  note same = marker_same_shape
  from inv c have b: "baseMesh st = Some (Vector3 0 0 0)"
    and l: "length (loads st) = length children"
    and k: "\<forall>k < length (loads st). load_plane (loads st ! k) = k"
    by (auto simp: sceneInv_iff)
  show ?thesis
  proof (cases e)
    case (AddFlatMarker opts)
    with s c have "st' = st\<lparr>markersGroup := Some (children @ [flatMarkerPlane opts]),
                            loads := loads st @ [\<lparr>load_plane = length children,
                                                   load_iconUrl = opt_iconUrl opts,
                                                   load_size = orDefault (opt_size opts) 1.2\<rparr>]\<rparr>"
      by (simp add: step_def addFlatMarker_added)
    with i same [of "children ! i"] AddFlatMarker show ?thesis
      by (simp add: nth_append)
  next
    case (Frame cam)
    let ?st2 = "st\<lparr>materials := map (\<lambda>m. m\<lparr>u_time := u_time m + twinkleTime st\<rparr>) (materials st),
                    camera_position := cam\<rparr>"
    let ?v = "viewDirection cam (Vector3 0 0 0)"
    have "st' = attenuateMarkerScaleAndVisibility ?st2"
      using s Frame by (simp add: step_def animate_def Let_def)
    then have "markersGroup st' = Some (map (attenuateMarker (Vector3 0 0 0) ?v) children)"
      and "loads st' = loads st"
      using c b by (simp_all add: attenuate_markers)
    with i attenuateMarker_shape [of "Vector3 0 0 0" ?v "children ! i"] Frame show ?thesis
      by simp
  next
    case (TextureLoaded j tex)
    with nl have ne: "j \<noteq> i" by simp
    from s TextureLoaded have j: "j < length (loads st)"
      and st': "st' = onTextureLoad (loads st ! j) tex st"
      by (auto simp: step_def split: if_splits)
    from k j have lp: "load_plane (loads st ! j) = j" by simp
    from j l have "j < length children" by simp
    then obtain plane' where
      "st' = st\<lparr>markersGroup := Some (children[j := plane'])\<rparr>"
      unfolding st' using c lp by (simp add: onTextureLoad_def Let_def)
    with i ne same [of "children ! i"] TextureLoaded show ?thesis by simp
  next
    case (TextureFailed j err)
    with s have "st' = onTextureError (loads st ! j) err st"
      by (auto simp: step_def split: if_splits)
    with c i same [of "children ! i"] TextureFailed show ?thesis
      by (simp add: onTextureError_def)
  next
    case (ImageLoaded d rnd)
    with s have "markersGroup st' = markersGroup st" and "loads st' = loads st"
      by (auto simp: step_def imgOnload_def split: option.splits sum.splits)
    with c i same [of "children ! i"] ImageLoaded show ?thesis by simp
  next
    case (Resize wide)
    with s have "st' = onResize wide st" by (simp add: step_def)
    with c i same [of "children ! i"] Resize show ?thesis by (simp add: onResize_def)
  qed
qed

lemma run_keeps_marker:
  assumes "sceneInv st" and "markersGroup st = Some children" and "i < length children"
    and "run es st = Inr st'" and "\<forall>tex. TextureLoaded i tex \<notin> set es"
  shows "\<exists>children' more.
           markersGroup st' = Some children' \<and> i < length children' \<and>
           loads st' = loads st @ more \<and>
           (\<exists>sc vi. children' ! i = (children ! i)\<lparr>scale := sc, visible := vi\<rparr>) \<and>
           ((\<forall>e \<in> set es. \<not> isFrame e) \<longrightarrow> children' ! i = children ! i)"
  using assms
proof (induction es arbitrary: st children)
  case Nil
  with marker_same_shape [of "children ! i"] show ?case by auto
next
  case (Cons e es)
  from Cons.prems(4) obtain st1 where s: "step e st = Inr st1" and r: "run es st1 = Inr st'"
    by (auto split: sum.splits)
  from Cons.prems(5) have ne: "\<forall>tex. e \<noteq> TextureLoaded i tex"
    and nes: "\<forall>tex. TextureLoaded i tex \<notin> set es" by auto
  from step_keeps_marker [OF Cons.prems(1,2,3) s ne] obtain children1 more1 sc1 vi1 where
    c1: "markersGroup st1 = Some children1" and i1: "i < length children1"
    and l1: "loads st1 = loads st @ more1"
    and m1: "children1 ! i = (children ! i)\<lparr>scale := sc1, visible := vi1\<rparr>"
    and f1: "\<not> isFrame e \<longrightarrow> children1 ! i = children ! i"
    by blast
  from Cons.IH [OF sceneInv_step [OF Cons.prems(1) s] c1 i1 r nes]
  obtain children' more sc vi where
    c': "markersGroup st' = Some children'" and i': "i < length children'"
    and l': "loads st' = loads st1 @ more"
    and m': "children' ! i = (children1 ! i)\<lparr>scale := sc, visible := vi\<rparr>"
    and f': "(\<forall>e \<in> set es. \<not> isFrame e) \<longrightarrow> children' ! i = children1 ! i"
    by blast
  have "children' ! i = (children ! i)\<lparr>scale := sc, visible := vi\<rparr>"
    by (simp add: m' m1)
  moreover have "loads st' = loads st @ (more1 @ more)" by (simp add: l' l1)
  moreover have "(\<forall>e \<in> set (e # es). \<not> isFrame e) \<longrightarrow> children' ! i = children ! i"
    using f1 f' by simp
  ultimately show ?case using c' i' by blast
qed


lemma flatMarkerPlane_material:
  "texture_map (material (flatMarkerPlane opts)) = None"
  "color (material (flatMarkerPlane opts)) = ColorHex 0xffffff"
  by (simp_all add: flatMarkerPlane_def Let_def)

text \<open>
  C6 (as amended). Take a marker added by \<^verbatim>\<open>addFlatMarker\<close> in a state the page can
  reach, and any events after it among which the success callback of its load does not
  occur. The error callback of its load then only appends one line to the console: the
  scene is otherwise the same state. The plane is still in the group, at its index,
  with the fallback colour and no texture map; its position, orientation and
  \<^verbatim>\<open>userData\<close> are those \<^verbatim>\<open>addFlatMarker\<close> gave it, and so are its scale and visibility
  when no frame came in between.
\<close>

theorem texture_failure_keeps_marker:
  "run es0 (initScene wide aniso cam0) = Inr st0 \<Longrightarrow>
   addFlatMarker opts st0 = Inr st1 \<Longrightarrow>
   run es st1 = Inr st2 \<Longrightarrow>
   \<forall>tex. TextureLoaded (length (loads st0)) tex \<notin> set es \<Longrightarrow>
   (\<exists>children.
      step (TextureFailed (length (loads st0)) err) st2 =
        Inr (st2\<lparr>console := console st2 @
                    [(''Marker texture failed to load:'', opt_iconUrl opts, err)]\<rparr>) \<and>
      markersGroup st2 = Some children \<and> length (loads st0) < length children \<and>
      (\<exists>sc vi. children ! length (loads st0) = (flatMarkerPlane opts)\<lparr>scale := sc, visible := vi\<rparr>) \<and>
      texture_map (material (children ! length (loads st0))) = None \<and>
      color (material (children ! length (loads st0))) = ColorHex 0xffffff \<and>
      ((\<forall>e \<in> set es. \<not> isFrame e) \<longrightarrow> children ! length (loads st0) = flatMarkerPlane opts))"
proof -
  assume r0: "run es0 (initScene wide aniso cam0) = Inr st0"
    and a: "addFlatMarker opts st0 = Inr st1"
    and r: "run es st1 = Inr st2"
    and nl: "\<forall>tex. TextureLoaded (length (loads st0)) tex \<notin> set es"
  let ?i = "length (loads st0)"
  let ?ld = "\<lparr>load_plane = ?i, load_iconUrl = opt_iconUrl opts,
              load_size = orDefault (opt_size opts) 1.2\<rparr>"
  have inv0: "sceneInv st0" using r0 by (rule sceneInv_run [OF sceneInv_initScene])
  then obtain children0 where c0: "markersGroup st0 = Some children0"
    and l0: "length (loads st0) = length children0"
    by (auto simp: sceneInv_iff)
  have st1: "st1 = st0\<lparr>markersGroup := Some (children0 @ [flatMarkerPlane opts]),
                        loads := loads st0 @ [?ld]\<rparr>"
    using a by (simp add: addFlatMarker_added [OF c0] l0)
  have inv1: "sceneInv st1" using inv0 a by (rule sceneInv_addFlatMarker)
  have c1: "markersGroup st1 = Some (children0 @ [flatMarkerPlane opts])" by (simp add: st1)
  have i1: "?i < length (children0 @ [flatMarkerPlane opts])" by (simp add: l0)
  from run_keeps_marker [OF inv1 c1 i1 r nl] obtain children more sc vi where
    c2: "markersGroup st2 = Some children" and i2: "?i < length children"
    and l2: "loads st2 = loads st1 @ more"
    and m2: "children ! ?i = ((children0 @ [flatMarkerPlane opts]) ! ?i)\<lparr>scale := sc, visible := vi\<rparr>"
    and f2: "(\<forall>e \<in> set es. \<not> isFrame e) \<longrightarrow>
               children ! ?i = (children0 @ [flatMarkerPlane opts]) ! ?i"
    by blast
  have nth: "(children0 @ [flatMarkerPlane opts]) ! ?i = flatMarkerPlane opts"
    by (simp add: l0)
  have ld: "?i < length (loads st2)" "loads st2 ! ?i = ?ld"
    by (simp_all add: l2 st1 nth_append)
  have step: "step (TextureFailed ?i err) st2 =
        Inr (st2\<lparr>console := console st2 @
                    [(''Marker texture failed to load:'', opt_iconUrl opts, err)]\<rparr>)"
    using ld by (simp add: step_def onTextureError_def)
  have shape: "children ! ?i = (flatMarkerPlane opts)\<lparr>scale := sc, visible := vi\<rparr>"
    using m2 nth by simp
  then have mat: "texture_map (material (children ! ?i)) = None"
    "color (material (children ! ?i)) = ColorHex 0xffffff"
    by (simp_all add: flatMarkerPlane_material)
  from step c2 i2 shape mat f2 nth show ?thesis by auto
qed

lemma attenuated_oblique:
  "attenuateMarker (Vector3 0 0 0) (Vector3 (3 / 5) 0 (4 / 5)) (flatMarkerPlane (defaultMarkerOpts 0 0))
     = (flatMarkerPlane (defaultMarkerOpts 0 0))\<lparr>scale := Vector3 1.107 1.107 1, visible := True\<rparr>"
proof -
  let ?p = "flatMarkerPlane (defaultMarkerOpts 0 0)"
  let ?m = "attenuateMarker (Vector3 0 0 0) (Vector3 (3 / 5) 0 (4 / 5)) ?p"
  have v: "visible ?m"
    by (simp add: attenuateMarker_visible defaultMarker_equator dot_def)
  have sc: "scale ?m = Vector3 1.107 1.107 1"
    using attenuateMarker_scale [OF v]
    by (simp add: Let_def defaultMarker_equator dot_def clamp_def)
  from attenuateMarker_shape [of "Vector3 0 0 0" "Vector3 (3 / 5) 0 (4 / 5)" ?p]
  obtain s' v' where e: "?m = ?p\<lparr>scale := s', visible := v'\<rparr>" by blast
  with v sc have "s' = Vector3 1.107 1.107 1" "v' = True" by simp_all
  with e show ?thesis by simp
qed

lemma defaultMarkerOpts_load:
  "opt_iconUrl (defaultMarkerOpts lat lon) = ''img/antler-icon.png''"
  "orDefault (opt_size (defaultMarkerOpts lat lon)) d = 27 / 20"
  by (simp_all add: defaultMarkerOpts_def orDefault_def)

lemma run_failed_load:
  "run [AddFlatMarker (defaultMarkerOpts 0 0), Frame (Vector3 60 0 80), TextureFailed 0 err]
       (initScene wide aniso cam) =
     Inr ((initScene wide aniso (Vector3 60 0 80))
            \<lparr>markersGroup := Some [(flatMarkerPlane (defaultMarkerOpts 0 0))
                                     \<lparr>scale := Vector3 1.107 1.107 1, visible := True\<rparr>],
             loads := [\<lparr>load_plane = 0, load_iconUrl = ''img/antler-icon.png'', load_size = 1.35\<rparr>],
             console := [(''Marker texture failed to load:'', ''img/antler-icon.png'', err)]\<rparr>)"
  by (simp add: step_def addFlatMarker_added initScene_value animate_def Let_def
      attenuate_markers viewDirection_oblique attenuated_oblique onTextureError_def
      defaultMarkerOpts_load)

text \<open>
  C6 for a marker on the equator whose load fails with \<open>404\<close> after one frame seen from
  \<open>(60, 0, 80)\<close>.
\<close>

theorem texture_failure_keeps_marker_witness:
  "\<exists>st m.
     run [AddFlatMarker (defaultMarkerOpts 0 0), Frame (Vector3 60 0 80), TextureFailed 0 ''404'']
         (initScene True None (Vector3 0 0 100)) = Inr st \<and>
     markersGroup st = Some [m] \<and>
     texture_map (material m) = None \<and> color (material m) = ColorHex 0xffffff \<and>
     position m = position (flatMarkerPlane (defaultMarkerOpts 0 0)) \<and>
     rotation m = rotation (flatMarkerPlane (defaultMarkerOpts 0 0)) \<and>
     roll m = roll (flatMarkerPlane (defaultMarkerOpts 0 0)) \<and>
     outward m = Some (Vector3 1 0 0) \<and> baseSize m = Some 1.35 \<and> aspect m = Some 1 \<and>
     console st = [(''Marker texture failed to load:'', ''img/antler-icon.png'', ''404'')]"
proof -
  let ?o = "defaultMarkerOpts 0 0"
  let ?init = "initScene True None (Vector3 0 0 100)"
  let ?c = "Vector3 60 0 80"
  let ?st1 = "?init\<lparr>markersGroup := Some [flatMarkerPlane ?o],
                    loads := [\<lparr>load_plane = 0, load_iconUrl = opt_iconUrl ?o,
                                load_size = orDefault (opt_size ?o) 1.2\<rparr>]\<rparr>"
  let ?st2 = "animate ?c ?st1"
  let ?st3 = "?st2\<lparr>console := console ?st2 @
                [(''Marker texture failed to load:'', opt_iconUrl ?o, ''404'')]\<rparr>"
  have z: "length (loads ?init) = 0" by (simp add: initScene_value)
  have r0: "run [] ?init = Inr ?init" by simp
  have a: "addFlatMarker ?o ?init = Inr ?st1"
    by (simp add: addFlatMarker_added initScene_value)
  have r: "run [Frame ?c] ?st1 = Inr ?st2" by (simp add: step_def)
  have nl: "\<forall>tex. TextureLoaded (length (loads ?init)) tex \<notin> set [Frame ?c]" by simp
  from texture_failure_keeps_marker [OF r0 a r nl, of "''404''"] z
  obtain children sc vi where
    s: "step (TextureFailed 0 ''404'') ?st2 = Inr ?st3"
    and c: "markersGroup ?st2 = Some children"
    and m: "children ! 0 = (flatMarkerPlane ?o)\<lparr>scale := sc, visible := vi\<rparr>"
    and t: "texture_map (material (children ! 0)) = None"
      "color (material (children ! 0)) = ColorHex 0xffffff"
    by auto
  have "length children = 1" using c by (auto simp: animate_one_marker)
  then obtain m' where ch: "children = [m']" by (cases children) auto
  have run: "run [AddFlatMarker ?o, Frame ?c, TextureFailed 0 ''404''] ?init = Inr ?st3"
    using a s by (simp add: step_def)
  have con: "console ?st3 = [(''Marker texture failed to load:'', ''img/antler-icon.png'', ''404'')]"
    by (simp add: animate_def Let_def attenuate_other_fields initScene_value defaultMarkerOpts_load)
  have grp: "markersGroup ?st3 = Some [m']" using c ch by simp
  from m ch have fields: "position m' = position (flatMarkerPlane ?o)"
    "rotation m' = rotation (flatMarkerPlane ?o)" "roll m' = roll (flatMarkerPlane ?o)"
    "outward m' = Some (Vector3 1 0 0)" "baseSize m' = Some 1.35" "aspect m' = Some 1"
    by (simp_all add: defaultMarker_equator)
  from t ch have mat: "texture_map (material m') = None" "color (material m') = ColorHex 0xffffff"
    by simp_all
  show ?thesis
    by (rule exI [of _ ?st3], rule exI [of _ m']) (intro conjI run grp mat fields con)
qed

text \<open>
  C6 as the claim words it, with the provisional scale untouched since before the load
  was attempted, fails on that run: the frame between the call of the loader and the
  error callback has set the scale to \<open>1.35 * 0.82 = 1.107\<close>, and the callback leaves it
  there, while the provisional scale was \<open>(1.35, 1.35, 1)\<close>.
\<close>

theorem texture_failure_scale_counterexample:
  "(case run [AddFlatMarker (defaultMarkerOpts 0 0), Frame (Vector3 60 0 80), TextureFailed 0 ''404'']
           (initScene True None (Vector3 0 0 100)) of
      Inl e \<Rightarrow> False
    | Inr st \<Rightarrow>
        (case markersGroup st of
           Some [m] \<Rightarrow>
             texture_map (material m) = None \<and>
             scale (flatMarkerPlane (defaultMarkerOpts 0 0)) = Vector3 1.35 1.35 1 \<and>
             scale m = Vector3 1.107 1.107 1 \<and>
             scale m \<noteq> scale (flatMarkerPlane (defaultMarkerOpts 0 0))
         | _ \<Rightarrow> False))"
  by (subst run_failed_load) (simp add: defaultMarker_equator flatMarkerPlane_material)

end
